(* ===== verification/Prelude.thy ===== *)
theory Prelude
  imports Main "HOL-Library.Word"
begin

text \<open>
  Shared vocabulary of the development.

  \<^item> the status codes of the C ABI (\<open>include/axiom/axiom.h\<close>) as a datatype;
  \<^item> \<open>std::map\<close> with ordered iteration, as an association list that is strictly sorted by
    key, and the interface \<open>ordered_map\<close> its clients rely on;
  \<^item> counting the entries of such a map, and how one update changes a count;
  \<^item> the interfaces \<open>invariant_system\<close> and \<open>monotone_system\<close>: what holds for one step
    of a component holds along every run of it;
  \<^item> two's complement wrap-around for signed 64-bit arithmetic;
  \<^item> the interface \<open>linked_walk\<close>: loops along links with a set of visited nodes.
\<close>

named_theorems omap_simps

section \<open>Status codes\<close>

text \<open>The codes of \<open>axiom_status\<close> that the modelled functions return.\<close>

datatype axiom_status =
    AXIOM_OK
  | AXIOM_ERR_INVALID_ARGUMENT
  | AXIOM_ERR_IO
  | AXIOM_ERR_BUDGET
  | AXIOM_ERR_UNSUPPORTED_BACKEND
  | AXIOM_ERR_RUNTIME

section \<open>Signed 64-bit arithmetic\<close>

definition s64 :: "int \<Rightarrow> int" where
  "s64 x = signed_take_bit 63 x"

lemma s64_id:
  assumes "- (2 ^ 63) \<le> x" and "x < 2 ^ 63"
  shows "s64 x = x"
  using assms by (simp add: s64_def signed_take_bit_int_eq_self_iff)

lemma unat_of_nat_u64: "n < 2 ^ 64 \<Longrightarrow> unat (of_nat n :: 64 word) = n"
  by (simp add: unat_of_nat take_bit_nat_eq_self)

lemma int_div_less_iff: "0 < q \<Longrightarrow> a div q < n \<longleftrightarrow> a < n * q" for a n q :: int
proof
  assume q: "0 < q" and "a div q < n"
  then have "a div q + 1 \<le> n" by simp
  then have "(a div q + 1) * q \<le> n * q"
    using q by (simp add: mult_right_mono)
  moreover have "a < (a div q + 1) * q"
    using pos_mod_bound [OF q, of a] div_mult_mod_eq [of a q] unfolding distrib_right by linarith
  ultimately show "a < n * q" by simp
next
  assume q: "0 < q" and "a < n * q"
  show "a div q < n"
  proof (rule ccontr)
    assume "\<not> a div q < n"
    then have "n * q \<le> (a div q) * q"
      using q by (simp add: mult_right_mono)
    also have "\<dots> \<le> a"
      using pos_mod_sign [OF q, of a] div_mult_mod_eq [of a q] by linarith
    finally show False using \<open>a < n * q\<close> by simp
  qed
qed

section \<open>Ordered maps\<close>

type_synonym ('k, 'v) omap = "('k \<times> 'v) list"

definition omap_find :: "'k \<Rightarrow> ('k, 'v) omap \<Rightarrow> 'v option" where
  "omap_find k m = map_of m k"

text \<open>\<open>emplace\<close> inserts only when the key is absent.\<close>

fun omap_emplace :: "'k::linorder \<Rightarrow> 'v \<Rightarrow> ('k, 'v) omap \<Rightarrow> ('k, 'v) omap" where
  "omap_emplace k v [] = [(k, v)]"
| "omap_emplace k v ((k', v') # m) =
     (if k < k' then (k, v) # (k', v') # m
      else if k = k' then (k', v') # m
      else (k', v') # omap_emplace k v m)"

text \<open>A write through the reference that \<open>find\<close> returned.\<close>

definition omap_modify :: "'k \<Rightarrow> ('v \<Rightarrow> 'v) \<Rightarrow> ('k, 'v) omap \<Rightarrow> ('k, 'v) omap" where
  "omap_modify k f m = map (\<lambda>(k', v). (k', if k' = k then f v else v)) m"

definition omap_inv :: "('k::linorder, 'v) omap \<Rightarrow> bool" where
  "omap_inv m \<longleftrightarrow> sorted_wrt (<) (map fst m)"

definition omap_keys :: "('k, 'v) omap \<Rightarrow> 'k list" where
  "omap_keys m = map fst m"

definition omap_count :: "('v \<Rightarrow> bool) \<Rightarrow> ('k, 'v) omap \<Rightarrow> nat" where
  "omap_count P m = length (filter (\<lambda>(k, v). P v) m)"

subsection \<open>The interface the clients use\<close>

locale ordered_map =
  fixes empty :: "'m"
    and find :: "'k::linorder \<Rightarrow> 'm \<Rightarrow> 'v option"
    and emplace :: "'k \<Rightarrow> 'v \<Rightarrow> 'm \<Rightarrow> 'm"
    and modify :: "'k \<Rightarrow> ('v \<Rightarrow> 'v) \<Rightarrow> 'm \<Rightarrow> 'm"
    and entries :: "'m \<Rightarrow> ('k \<times> 'v) list"
    and invar :: "'m \<Rightarrow> bool"
  assumes invar_empty: "invar empty"
    and entries_empty: "entries empty = []"
    and entries_sorted: "invar m \<Longrightarrow> sorted_wrt (<) (map fst (entries m))"
    and find_entries: "find k m = map_of (entries m) k"
    and invar_emplace: "invar m \<Longrightarrow> invar (emplace k v m)"
    and find_emplace:
      "invar m \<Longrightarrow> find k' (emplace k v m) =
         (if k' = k \<and> find k m = None then Some v else find k' m)"
    and invar_modify: "invar m \<Longrightarrow> invar (modify k f m)"
    and entries_modify:
      "entries (modify k f m) = map (\<lambda>(k', v). (k', if k' = k then f v else v)) (entries m)"
begin

lemma find_empty: "find k empty = None"
  by (simp add: find_entries entries_empty)

lemma keys_distinct: "invar m \<Longrightarrow> distinct (map fst (entries m))"
  using entries_sorted [of m] by (simp add: strict_sorted_iff)

lemma find_iff_entry: "invar m \<Longrightarrow> find k m = Some v \<longleftrightarrow> (k, v) \<in> set (entries m)"
  by (simp add: find_entries keys_distinct)

lemma find_modify: "find k' (modify k f m) = (if k' = k then map_option f (find k m) else find k' m)"
proof -
  have "map_of (map (\<lambda>(k', v). (k', if k' = k then f v else v)) es) k' =
          (if k' = k then map_option f (map_of es k) else map_of es k')" for es
    by (induction es) auto
  then show ?thesis by (simp add: find_entries entries_modify)
qed

lemma keys_modify: "map fst (entries (modify k f m)) = map fst (entries m)"
  by (simp add: entries_modify case_prod_beta comp_def)

lemma find_None_emplace_entry:
  assumes "invar m" and "find k m = None"
  shows "set (entries (emplace k v m)) = insert (k, v) (set (entries m))"
proof -
  have inv': "invar (emplace k v m)"
    using assms(1) by (rule invar_emplace)
  have "(k', v') \<in> set (entries (emplace k v m)) \<longleftrightarrow> (k', v') = (k, v) \<or> (k', v') \<in> set (entries m)"
    for k' v'
  proof (cases "k' = k")
    case True
    have "(k, v') \<notin> set (entries m)"
      using assms by (simp flip: find_iff_entry)
    with True show ?thesis
      using assms by (simp add: find_emplace flip: find_iff_entry [OF inv']) auto
  next
    case False
    then show ?thesis
      using assms by (simp add: find_emplace flip: find_iff_entry [OF inv'] find_iff_entry)
  qed
  then show ?thesis by auto
qed

end

lemma omap_find_emplace:
  "omap_inv m \<Longrightarrow> omap_find k' (omap_emplace k v m) =
     (if k' = k \<and> omap_find k m = None then Some v else omap_find k' m)"
proof (induction k v m rule: omap_emplace.induct)
  case (1 k v)
  then show ?case by (simp add: omap_find_def)
next
  case (2 k v k' v' m)
  have "k < k' \<Longrightarrow> map_of m k = None"
    using "2.prems" by (force simp: omap_inv_def map_of_eq_None_iff)
  with 2 show ?case
    by (auto simp: omap_find_def omap_inv_def)
qed

lemma omap_emplace_keys: "set (map fst (omap_emplace k v m)) = insert k (set (map fst m))"
  by (induction k v m rule: omap_emplace.induct) auto

lemma omap_inv_emplace: "omap_inv m \<Longrightarrow> omap_inv (omap_emplace k v m)"
proof (induction k v m rule: omap_emplace.induct)
  case (1 k v)
  then show ?case by (simp add: omap_inv_def)
next
  case (2 k v k' v' m)
  then show ?case
    using omap_emplace_keys [of k v m] by (auto simp: omap_inv_def)
qed

lemma omap_find_key: "omap_find k m = Some v \<Longrightarrow> k \<in> set (map fst m)"
  by (force simp: omap_find_def dest: map_of_SomeD)

lemma omap_keys_modify [simp]: "map fst (omap_modify k f m) = map fst m"
  by (simp add: omap_modify_def case_prod_beta comp_def)

interpretation om: ordered_map "[] :: ('k::linorder, 'v) omap" omap_find omap_emplace omap_modify
  "\<lambda>m. m" omap_inv
proof unfold_locales
  fix m :: "('k, 'v) omap" and k k' v f
  show "omap_inv ([] :: ('k, 'v) omap)"
    by (simp add: omap_inv_def)
  show "([] :: ('k, 'v) omap) = []"
    by simp
  show "sorted_wrt (<) (map fst m)" if "omap_inv m"
    using that by (simp add: omap_inv_def)
  show "omap_find k m = map_of m k"
    by (simp add: omap_find_def)
  show "omap_inv (omap_emplace k v m)" if "omap_inv m"
    using that by (rule omap_inv_emplace)
  show "omap_find k' (omap_emplace k v m) =
      (if k' = k \<and> omap_find k m = None then Some v else omap_find k' m)" if "omap_inv m"
    using that by (rule omap_find_emplace)
  show "omap_inv (omap_modify k f m)" if "omap_inv m"
    using that by (simp add: omap_inv_def)
  show "omap_modify k f m = map (\<lambda>(k', v). (k', if k' = k then f v else v)) m"
    by (simp add: omap_modify_def)
qed

lemmas omap_find_modify [omap_simps] = om.find_modify
lemmas omap_inv_modify [omap_simps] = om.invar_modify

subsection \<open>Counting entries\<close>

lemma omap_count_Nil [simp]: "omap_count P [] = 0"
  by (simp add: omap_count_def)

lemma omap_count_Cons [simp]:
  "omap_count P ((k, v) # m) = (if P v then 1 else 0) + omap_count P m"
  by (simp add: omap_count_def)

text \<open>One update changes a count by what it changes at its key.\<close>

lemma omap_modify_Cons [simp]:
  "omap_modify k f ((k', v) # m) = (k', if k' = k then f v else v) # omap_modify k f m"
  by (simp add: omap_modify_def)

lemma length_omap_modify [simp]: "length (omap_modify k f m) = length m"
  by (simp add: omap_modify_def)

lemma omap_modify_absent: "k \<notin> set (map fst m) \<Longrightarrow> omap_modify k f m = m"
  by (induction m) (auto simp: omap_modify_def)

lemma omap_count_modify:
  assumes "omap_inv m" and "omap_find k m = Some v"
  shows "omap_count P (omap_modify k f m) + (if P v then 1 else 0) =
         omap_count P m + (if P (f v) then 1 else 0)"
  using assms
proof (induction m)
  case Nil
  then show ?case by (simp add: omap_find_def)
next
  case (Cons e m)
  obtain k' v' where e: "e = (k', v')" by (cases e)
  show ?case
  proof (cases "k' = k")
    case True
    with Cons.prems e have "v' = v" and "k \<notin> set (map fst m)"
      by (auto simp: omap_find_def omap_inv_def)
    with True show ?thesis
      by (simp add: e omap_modify_absent)
  next
    case False
    with Cons e show ?thesis
      by (simp add: omap_find_def omap_inv_def)
  qed
qed

lemma omap_count_emplace:
  assumes "omap_inv m" and "omap_find k m = None"
  shows "omap_count P (omap_emplace k v m) = omap_count P m + (if P v then 1 else 0)"
  using assms
  by (induction k v m rule: omap_emplace.induct)
    (auto simp: omap_inv_def omap_find_def split: if_splits)

lemma omap_length_emplace:
  assumes "omap_inv m" and "omap_find k m = None"
  shows "length (omap_emplace k v m) = length m + 1"
  using omap_count_emplace [OF assms, of "\<lambda>_. True" v] by (simp add: omap_count_def case_prod_beta)

lemma omap_count_cong:
  "(\<And>k v. (k, v) \<in> set m \<Longrightarrow> P v = Q v) \<Longrightarrow> omap_count P m = omap_count Q m"
  by (induction m) (auto simp: omap_count_def)

lemma omap_count_mono:
  "(\<And>k v. (k, v) \<in> set m \<Longrightarrow> P v \<Longrightarrow> Q v) \<Longrightarrow> omap_count P m \<le> omap_count Q m"
  by (induction m) (auto simp: omap_count_def intro: le_SucI)

lemma omap_count_zero_iff: "omap_count P m = 0 \<longleftrightarrow> (\<forall>(k, v) \<in> set m. \<not> P v)"
  by (induction m) (auto simp: omap_count_def)

lemma omap_modify_modify [simp]: "omap_modify k f (omap_modify k g m) = omap_modify k (f \<circ> g) m"
  by (auto simp: omap_modify_def)

lemma omap_modify_cong:
  assumes "omap_inv m" and "\<And>v. omap_find k m = Some v \<Longrightarrow> f v = g v"
  shows "omap_modify k f m = omap_modify k g m"
proof -
  have "f v = g v" if "(k, v) \<in> set m" for v
    using assms that by (simp flip: om.find_iff_entry)
  then show ?thesis
    by (auto simp: omap_modify_def)
qed

lemma omap_modify_const:
  assumes "omap_inv m" and "omap_find k m = Some v"
  shows "omap_modify k f m = omap_modify k (\<lambda>_. f v) m"
  by (rule omap_modify_cong) (use assms in auto)

lemma omap_count_modify_same:
  assumes "omap_inv m" and "\<And>v. omap_find k m = Some v \<Longrightarrow> P (f v) = P v"
  shows "omap_count P (omap_modify k f m) = omap_count P m"
proof (cases "omap_find k m")
  case None
  then have "omap_modify k f m = m"
    by (intro omap_modify_absent) (auto simp: omap_find_def map_of_eq_None_iff)
  then show ?thesis by simp
next
  case (Some v)
  then show ?thesis
    using omap_count_modify [OF assms(1) Some, of P f] assms(2) by simp
qed

section \<open>Runs of a component\<close>

locale invariant_system =
  fixes init :: "'s \<Rightarrow> bool"
    and step :: "'s \<Rightarrow> 's \<Rightarrow> bool"
    and inv :: "'s \<Rightarrow> bool"
  assumes inv_init: "init s \<Longrightarrow> inv s"
    and inv_step: "inv s \<Longrightarrow> step s t \<Longrightarrow> inv t"
begin

lemma inv_run:
  assumes "step\<^sup>*\<^sup>* s t" and "inv s"
  shows "inv t"
  using assms by (induction rule: rtranclp_induct) (auto intro: inv_step)

lemma reachable_inv: "init s \<Longrightarrow> step\<^sup>*\<^sup>* s t \<Longrightarrow> inv t"
  by (blast intro: inv_run inv_init)

end

locale monotone_system = invariant_system +
  fixes rel :: "'a \<Rightarrow> 'a \<Rightarrow> bool"
  assumes rel_refl: "rel s s"
    and rel_trans: "rel s t \<Longrightarrow> rel t u \<Longrightarrow> rel s u"
    and rel_step: "inv s \<Longrightarrow> step s t \<Longrightarrow> rel s t"
begin

lemma rel_run:
  assumes "step\<^sup>*\<^sup>* s t" and "inv s"
  shows "rel s t"
  using assms
proof (induction rule: rtranclp_induct)
  case base
  show ?case by (rule rel_refl)
next
  case (step t u)
  have "inv t"
    using step.hyps(1) step.prems by (rule inv_run)
  then have "rel t u"
    using step.hyps(2) by (rule rel_step)
  with step show ?case by (blast intro: rel_trans)
qed

end

text \<open>A property that holds at the start of a run and not at its end is broken by one of the steps.\<close>

lemma run_breaks:
  assumes "step\<^sup>*\<^sup>* s t" and "P s" and "\<not> P t"
  shows "\<exists>u u'. step\<^sup>*\<^sup>* s u \<and> step u u' \<and> step\<^sup>*\<^sup>* u' t \<and> P u \<and> \<not> P u'"
  using assms
proof (induction rule: rtranclp_induct)
  case (step t t')
  then show ?case
    by (cases "P t") (blast intro: rtranclp.rtrancl_into_rtrancl)+
qed simp

section \<open>Walks along links\<close>

text \<open>
  A loop that follows a link from node to node, stops at a node it has seen before or that has no
  link, and answers yes at the first node that satisfies \<open>hit\<close>. \<open>nodes\<close> bounds the loop.
\<close>

locale linked_walk =
  fixes nodes :: "'n set"
    and link :: "'n \<Rightarrow> 'n option"
    and hit :: "'n \<Rightarrow> bool"
    and walk :: "'n set \<Rightarrow> 'n \<Rightarrow> bool"
  assumes finite_nodes: "finite nodes"
    and link_node: "link x = Some y \<Longrightarrow> x \<in> nodes"
    and walk_unfold: "walk visited x \<longleftrightarrow> x \<notin> visited \<and>
      (hit x \<or> (case link x of None \<Rightarrow> False | Some y \<Rightarrow> walk (insert x visited) y))"
begin

abbreviation linked :: "'n \<Rightarrow> 'n \<Rightarrow> bool" where
  "linked x y \<equiv> link x = Some y"

lemma walk_sound: "walk visited x \<Longrightarrow> \<exists>y. linked\<^sup>*\<^sup>* x y \<and> hit y"
proof (induction "card (nodes - visited)" arbitrary: visited x rule: less_induct)
  case less
  show ?case
  proof (cases "hit x")
    case True
    then show ?thesis by blast
  next
    case False
    then obtain y where y: "x \<notin> visited" "link x = Some y" "walk (insert x visited) y"
      using less.prems walk_unfold [of visited x] by (auto split: option.splits)
    have "nodes - insert x visited \<subset> nodes - visited"
      using y(1) link_node [OF y(2)] by auto
    then have "card (nodes - insert x visited) < card (nodes - visited)"
      by (simp add: finite_nodes psubset_card_mono)
    from less.hyps [OF this y(3)] y(2) show ?thesis
      by (meson converse_rtranclp_into_rtranclp)
  qed
qed

lemma walk_path:
  assumes "successively linked (x # ps)" and "hit (last (x # ps))" and "distinct (x # ps)"
    and "set (x # ps) \<inter> visited = {}"
  shows "walk visited x"
  using assms
proof (induction ps arbitrary: x visited)
  case Nil
  then show ?case by (simp add: walk_unfold [of visited x])
next
  case (Cons p ps)
  then have "walk (insert x visited) p"
    by (intro Cons.IH) auto
  with Cons.prems show ?case
    by (simp add: walk_unfold [of visited x])
qed

lemma linked_path:
  assumes "linked\<^sup>*\<^sup>* x y"
  shows "\<exists>ps. successively linked (x # ps) \<and> last (x # ps) = y \<and> distinct (x # ps)"
  using assms
proof (induction rule: converse_rtranclp_induct)
  case base
  show ?case by (intro exI [of _ "[]"]) simp
next
  case (step x p)
  then obtain ps where ps: "successively linked (p # ps)" "last (p # ps) = y" "distinct (p # ps)"
    by blast
  show ?case
  proof (cases "x \<in> set (p # ps)")
    case True
    then obtain us vs where "p # ps = us @ x # vs"
      by (meson split_list)
    with ps have "successively linked (x # vs) \<and> last (x # vs) = y \<and> distinct (x # vs)"
      by (auto simp: successively_append_iff)
    then show ?thesis by blast
  next
    case False
    with ps step.hyps(1) show ?thesis
      by (intro exI [of _ "p # ps"]) simp
  qed
qed

lemma walk_iff: "walk {} x \<longleftrightarrow> (\<exists>y. linked\<^sup>*\<^sup>* x y \<and> hit y)"
  using walk_sound [of "{}" x] linked_path [of x] walk_path [of x _ "{}"] by fastforce

end

end
