(* ===== verification/SwarmTypes.thy ===== *)
theory SwarmTypes
  imports Prelude
begin

text \<open>
  The data of the swarm scheduler: the enumerations and structs of
  \<open>include/axiom/qwen38_swarm_scheduler.hpp\<close> and the private records of
  \<open>qwen38_swarm_scheduler::impl\<close>.

  Enumerators carry the name of their enumeration as a prefix, record fields a short prefix of
  their struct. Numbers: identifiers, sequence numbers, capacities, attempt counts and telemetry
  counters are \<open>nat\<close> (each grows by one per call, so wrapping needs \<open>2^64\<close> calls; the attempt
  count is bounded by the retry policy, the active counters by the concurrency limits, and both
  bounds are proved); token counts come from the caller and keep their width (\<open>64 word\<close>);
  milliseconds and time points are \<open>int\<close> (\<open>std::int64_t\<close> counts, nanoseconds for
  \<open>steady_clock\<close> time points).
\<close>

section \<open>Enumerations\<close>

datatype swarm_agent_state =
    agent_idle | agent_busy | agent_draining | agent_offline | agent_failed

datatype swarm_wave_state =
    wave_pending | wave_running | wave_cancelling | wave_succeeded | wave_failed
  | wave_cancelled | wave_timed_out | wave_budget_exhausted

datatype swarm_task_state =
    task_queued | task_running | task_retry_wait | task_succeeded | task_failed
  | task_cancelled | task_timed_out | task_budget_exhausted

datatype swarm_task_outcome =
    outcome_succeeded | outcome_failed | outcome_cancelled | outcome_timed_out
  | outcome_budget_exhausted

datatype swarm_retry_backoff_strategy = backoff_fixed | backoff_exponential

datatype swarm_event_type =
    ev_wave_created | ev_wave_state_changed | ev_agent_registered | ev_agent_state_changed
  | ev_task_submitted | ev_task_rejected | ev_task_admitted | ev_task_started | ev_task_progress
  | ev_task_retry_scheduled | ev_task_succeeded | ev_task_failed | ev_task_cancel_requested
  | ev_task_cancelled | ev_task_timed_out | ev_task_budget_exhausted

datatype swarm_cancel_disposition =
    cancel_not_found | cancel_already_terminal | cancel_cancelled_before_run
  | cancel_cancellation_requested

datatype swarm_completion_disposition =
    completion_rejected_unknown_task | completion_rejected_not_running
  | completion_rejected_non_monotonic_tokens | completion_accepted | completion_retry_scheduled
  | completion_cancelled | completion_timed_out | completion_budget_exhausted

datatype swarm_progress_disposition =
    progress_rejected_unknown_task | progress_rejected_not_running
  | progress_rejected_non_monotonic_tokens | progress_accepted | progress_cancellation_requested
  | progress_timed_out | progress_budget_exhausted

section \<open>Structs\<close>

type_synonym swarm_task_id = nat
type_synonym swarm_wave_id = nat
type_synonym swarm_agent_id = nat
type_synonym swarm_time_point = int
type_synonym tokens = "64 word"

record swarm_budget =
  bu_max_tokens :: "tokens option"
  bu_max_duration :: "int option"

record swarm_retry_policy =
  rp_max_attempts :: nat
  rp_retry_on_failure :: bool
  rp_retry_on_timeout :: bool
  rp_retry_on_budget_exhausted :: bool
  rp_backoff_strategy :: swarm_retry_backoff_strategy
  rp_backoff :: int
  rp_max_backoff :: int

record swarm_parent_metadata =
  pm_parent_task_id :: "swarm_task_id option"
  pm_parent_wave_id :: "swarm_wave_id option"
  pm_child_index :: nat
  pm_relation :: string

record swarm_scheduler_config =
  cfg_max_concurrent :: nat
  cfg_max_queued_tasks :: "nat option"
  cfg_max_event_history :: nat

record swarm_agent_spec =
  as_name :: string
  as_max_concurrent :: nat

record swarm_wave_spec =
  ws_name :: string
  ws_max_concurrent :: "nat option"
  ws_parent :: swarm_parent_metadata

record swarm_task_spec =
  ts_name :: string
  ts_priority :: int
  ts_wave_id :: "swarm_wave_id option"
  ts_parent :: swarm_parent_metadata
  ts_budget :: swarm_budget
  ts_retry_policy :: swarm_retry_policy

text \<open>
  \<open>swarm_agent_result\<close>, \<open>swarm_wave_result\<close> and \<open>swarm_task_result\<close> have the same shape:
  either \<open>accepted\<close> with a new identifier, or a rejection with an error text.
\<close>

type_synonym swarm_id_result = "string + nat"

record swarm_task_lease =
  le_task_id :: swarm_task_id
  le_wave_id :: swarm_wave_id
  le_agent_id :: swarm_agent_id
  le_attempt :: nat
  le_priority :: int
  le_admitted_at :: swarm_time_point
  le_deadline :: "swarm_time_point option"
  le_budget :: swarm_budget
  le_parent :: swarm_parent_metadata

record swarm_task_completion =
  tc_outcome :: swarm_task_outcome
  tc_tokens_used :: tokens
  tc_message :: string

record swarm_cancel_result =
  ca_disposition :: swarm_cancel_disposition
  ca_changed :: bool

record swarm_progress_result =
  pr_disposition :: swarm_progress_disposition
  pr_state :: swarm_task_state
  pr_tokens_used :: tokens
  pr_accepted :: bool

record swarm_completion_result =
  cr_disposition :: swarm_completion_disposition
  cr_state :: swarm_task_state
  cr_attempt :: nat
  cr_accepted :: bool
  cr_retry_scheduled :: bool
  cr_message :: string

record swarm_event =
  ev_sequence :: nat
  ev_type :: swarm_event_type
  ev_timestamp :: swarm_time_point
  ev_task_id :: swarm_task_id
  ev_wave_id :: swarm_wave_id
  ev_agent_id :: swarm_agent_id
  ev_attempt :: nat
  ev_task_state :: "swarm_task_state option"
  ev_wave_state :: "swarm_wave_state option"
  ev_agent_state :: "swarm_agent_state option"
  ev_tokens_used :: tokens
  ev_retry_delay :: int
  ev_message :: string

text \<open>
  \<open>swarm_telemetry_snapshot\<close> without its last four fields, which the scheduler's own copy never
  writes; \<open>snapshot()\<close> computes them.
\<close>

record swarm_telemetry =
  tl_events_emitted :: nat
  tl_tasks_submitted :: nat
  tl_tasks_rejected :: nat
  tl_attempts_admitted :: nat
  tl_attempts_started :: nat
  tl_retries_scheduled :: nat
  tl_progress_reports :: nat
  tl_final_succeeded :: nat
  tl_final_failed :: nat
  tl_final_cancelled :: nat
  tl_final_timed_out :: nat
  tl_final_budget_exhausted :: nat

record swarm_telemetry_snapshot = swarm_telemetry +
  tl_active_tasks :: nat
  tl_queued_tasks :: nat
  tl_registered_agents :: nat
  tl_available_agents :: nat

record swarm_task_snapshot =
  sn_task_id :: swarm_task_id
  sn_wave_id :: swarm_wave_id
  sn_name :: string
  sn_priority :: int
  sn_state :: swarm_task_state
  sn_attempts_started :: nat
  sn_current_attempt :: nat
  sn_max_attempts :: nat
  sn_agent_id :: "swarm_agent_id option"
  sn_parent :: swarm_parent_metadata
  sn_budget :: swarm_budget
  sn_retry_policy :: swarm_retry_policy
  sn_cancellation_requested :: bool
  sn_tokens_used :: tokens
  sn_tokens_used_total :: tokens
  sn_admitted_at :: "swarm_time_point option"
  sn_deadline :: "swarm_time_point option"
  sn_retry_not_before :: "swarm_time_point option"
  sn_terminal_reason :: string

record swarm_wave_snapshot =
  wn_wave_id :: swarm_wave_id
  wn_name :: string
  wn_state :: swarm_wave_state
  wn_max_concurrent :: "nat option"
  wn_parent :: swarm_parent_metadata
  wn_cancellation_requested :: bool
  wn_task_count :: nat
  wn_active_tasks :: nat
  wn_terminal_tasks :: nat

record swarm_agent_snapshot =
  an_agent_id :: swarm_agent_id
  an_name :: string
  an_state :: swarm_agent_state
  an_max_concurrent :: nat
  an_active_tasks :: nat

record swarm_scheduler_snapshot =
  ss_revision :: nat
  ss_telemetry :: swarm_telemetry_snapshot
  ss_tasks :: "swarm_task_snapshot list"
  ss_waves :: "swarm_wave_snapshot list"
  ss_agents :: "swarm_agent_snapshot list"
  ss_events :: "swarm_event list"

section \<open>Private records of the implementation\<close>

record agent_record =
  ar_id :: swarm_agent_id
  ar_spec :: swarm_agent_spec
  ar_administrative_state :: swarm_agent_state
  ar_active_tasks :: nat

record wave_record =
  wr_id :: swarm_wave_id
  wr_spec :: swarm_wave_spec
  wr_state :: swarm_wave_state
  wr_cancellation_requested :: bool
  wr_has_started :: bool
  wr_active_tasks :: nat

record task_record =
  tr_id :: swarm_task_id
  tr_spec :: swarm_task_spec
  tr_state :: swarm_task_state
  tr_queue_sequence :: nat
  tr_attempts_started :: nat
  tr_tokens_used :: tokens
  tr_tokens_used_total :: tokens
  tr_agent_id :: "swarm_agent_id option"
  tr_cancellation_requested :: bool
  tr_admitted_at :: "swarm_time_point option"
  tr_deadline :: "swarm_time_point option"
  tr_retry_not_before :: "swarm_time_point option"
  tr_terminal_reason :: string

record swarm_impl =
  im_config :: swarm_scheduler_config
  im_agents :: "(swarm_agent_id, agent_record) omap"
  im_waves :: "(swarm_wave_id, wave_record) omap"
  im_tasks :: "(swarm_task_id, task_record) omap"
  im_events :: "swarm_event list"
  im_telemetry :: swarm_telemetry
  im_active_tasks :: nat
  im_next_agent_id :: nat
  im_next_wave_id :: nat
  im_next_task_id :: nat
  im_next_queue_sequence :: nat
  im_next_event_sequence :: nat
  im_revision :: nat

end
