(* ===== verification/SwarmCore.thy ===== *)
theory SwarmCore
  imports SwarmTypes
begin

text \<open>
  The private operations of \<open>qwen38_swarm_scheduler::impl\<close>
  (\<open>src/axiom_qwen38_swarm_scheduler.cpp\<close>), as functions on the state \<open>swarm_impl\<close>.

  A C++ reference into one of the maps is the key of the entry; a write through it is
  \<open>upd_task\<close>, \<open>upd_wave\<close> or \<open>upd_agent\<close> at that key. Each operation takes the state last
  and returns the new one. A key that is not in the map leaves the state as it is; the callers only
  pass keys they have just found.
\<close>

section \<open>Free functions of the anonymous namespace\<close>

definition valid_optional_id :: "nat option \<Rightarrow> bool" where
  "valid_optional_id i \<longleftrightarrow> i = None \<or> i \<noteq> Some 0"

fun outcome_name :: "swarm_task_outcome \<Rightarrow> string" where
  "outcome_name outcome_succeeded = ''succeeded''"
| "outcome_name outcome_failed = ''failed''"
| "outcome_name outcome_cancelled = ''cancelled''"
| "outcome_name outcome_timed_out = ''timed out''"
| "outcome_name outcome_budget_exhausted = ''budget exhausted''"

fun task_state_for_outcome :: "swarm_task_outcome \<Rightarrow> swarm_task_state" where
  "task_state_for_outcome outcome_succeeded = task_succeeded"
| "task_state_for_outcome outcome_failed = task_failed"
| "task_state_for_outcome outcome_cancelled = task_cancelled"
| "task_state_for_outcome outcome_timed_out = task_timed_out"
| "task_state_for_outcome outcome_budget_exhausted = task_budget_exhausted"

fun event_type_for_outcome :: "swarm_task_outcome \<Rightarrow> swarm_event_type" where
  "event_type_for_outcome outcome_succeeded = ev_task_succeeded"
| "event_type_for_outcome outcome_failed = ev_task_failed"
| "event_type_for_outcome outcome_cancelled = ev_task_cancelled"
| "event_type_for_outcome outcome_timed_out = ev_task_timed_out"
| "event_type_for_outcome outcome_budget_exhausted = ev_task_budget_exhausted"

definition is_terminal :: "swarm_task_state \<Rightarrow> bool" where
  "is_terminal st \<longleftrightarrow> st = task_succeeded \<or> st = task_failed \<or> st = task_cancelled \<or>
     st = task_timed_out \<or> st = task_budget_exhausted"

definition is_terminal_wave :: "swarm_wave_state \<Rightarrow> bool" where
  "is_terminal_wave st \<longleftrightarrow> st = wave_succeeded \<or> st = wave_failed \<or> st = wave_cancelled \<or>
     st = wave_timed_out \<or> st = wave_budget_exhausted"

text \<open>\<open>std::optional::value_or\<close>.\<close>

definition value_or :: "'a option \<Rightarrow> 'a \<Rightarrow> 'a" where
  "value_or x d = (case x of None \<Rightarrow> d | Some v \<Rightarrow> v)"

text \<open>
  \<open>time_point + milliseconds\<close>: both operands become nanosecond counts of \<open>int64_t\<close>. Signed
  overflow is undefined in C++. The model has to give it some value and takes the two's complement
  result; what the program does is described only for runs in which the sum stays in range.
\<close>

definition time_plus :: "swarm_time_point \<Rightarrow> int \<Rightarrow> swarm_time_point" where
  "time_plus now ms = s64 (now + s64 (ms * 1000000))"

section \<open>Construction and access\<close>

definition empty_telemetry :: swarm_telemetry where
  "empty_telemetry = \<lparr>tl_events_emitted = 0, tl_tasks_submitted = 0, tl_tasks_rejected = 0,
     tl_attempts_admitted = 0, tl_attempts_started = 0, tl_retries_scheduled = 0,
     tl_progress_reports = 0, tl_final_succeeded = 0, tl_final_failed = 0,
     tl_final_cancelled = 0, tl_final_timed_out = 0, tl_final_budget_exhausted = 0\<rparr>"

definition swarm_new :: "swarm_scheduler_config \<Rightarrow> string + swarm_impl" where
  "swarm_new config =
     (if cfg_max_concurrent config = 0
      then Inl ''swarm scheduler max_concurrent must be positive''
      else Inr \<lparr>im_config = config, im_agents = [], im_waves = [], im_tasks = [], im_events = [],
             im_telemetry = empty_telemetry, im_active_tasks = 0, im_next_agent_id = 1,
             im_next_wave_id = 1, im_next_task_id = 1, im_next_queue_sequence = 1,
             im_next_event_sequence = 1, im_revision = 0\<rparr>)"

definition upd_task ::
  "swarm_task_id \<Rightarrow> (task_record \<Rightarrow> task_record) \<Rightarrow> swarm_impl \<Rightarrow> swarm_impl" where
  "upd_task tid f s = s\<lparr>im_tasks := omap_modify tid f (im_tasks s)\<rparr>"

definition upd_wave ::
  "swarm_wave_id \<Rightarrow> (wave_record \<Rightarrow> wave_record) \<Rightarrow> swarm_impl \<Rightarrow> swarm_impl" where
  "upd_wave wid f s = s\<lparr>im_waves := omap_modify wid f (im_waves s)\<rparr>"

definition upd_agent ::
  "swarm_agent_id \<Rightarrow> (agent_record \<Rightarrow> agent_record) \<Rightarrow> swarm_impl \<Rightarrow> swarm_impl" where
  "upd_agent aid f s = s\<lparr>im_agents := omap_modify aid f (im_agents s)\<rparr>"

definition upd_telemetry ::
  "(swarm_telemetry \<Rightarrow> swarm_telemetry) \<Rightarrow> swarm_impl \<Rightarrow> swarm_impl" where
  "upd_telemetry f s = s\<lparr>im_telemetry := f (im_telemetry s)\<rparr>"

definition visible_agent_state :: "agent_record \<Rightarrow> swarm_agent_state" where
  "visible_agent_state agent =
     (if ar_administrative_state agent \<noteq> agent_idle then ar_administrative_state agent
      else if ar_active_tasks agent = 0 then agent_idle else agent_busy)"

definition queued_task_count :: "swarm_impl \<Rightarrow> nat" where
  "queued_task_count s =
     omap_count (\<lambda>t. tr_state t = task_queued \<or> tr_state t = task_retry_wait) (im_tasks s)"

section \<open>Events\<close>

text \<open>The \<open>pop_front\<close> loop of \<open>emit\<close>.\<close>

fun trim_events :: "nat \<Rightarrow> swarm_event list \<Rightarrow> swarm_event list" where
  "trim_events limit [] = []"
| "trim_events limit (e # es) =
     (if limit < length (e # es) then trim_events limit es else e # es)"

definition emit ::
  "swarm_event_type \<Rightarrow> swarm_time_point \<Rightarrow> swarm_task_id \<Rightarrow> swarm_wave_id \<Rightarrow> swarm_agent_id \<Rightarrow> nat \<Rightarrow>
   swarm_task_state option \<Rightarrow> swarm_wave_state option \<Rightarrow> swarm_agent_state option \<Rightarrow> tokens \<Rightarrow> int \<Rightarrow>
   string \<Rightarrow> swarm_impl \<Rightarrow> swarm_impl" where
  "emit ty now tid wid aid attempt tst wst ast tokens_used delay message s =
     (let event = \<lparr>ev_sequence = im_next_event_sequence s, ev_type = ty, ev_timestamp = now,
            ev_task_id = tid, ev_wave_id = wid, ev_agent_id = aid, ev_attempt = attempt,
            ev_task_state = tst, ev_wave_state = wst, ev_agent_state = ast,
            ev_tokens_used = tokens_used, ev_retry_delay = delay, ev_message = message\<rparr>;
          s1 = upd_telemetry (\<lambda>t. t\<lparr>tl_events_emitted := tl_events_emitted t + 1\<rparr>)
            (s\<lparr>im_next_event_sequence := im_next_event_sequence s + 1,
               im_revision := im_revision s + 1\<rparr>);
          limit = cfg_max_event_history (im_config s)
      in if limit = 0 then s1
         else s1\<lparr>im_events := trim_events limit (im_events s @ [event])\<rparr>)"

section \<open>Waves\<close>

definition set_wave_state ::
  "swarm_wave_id \<Rightarrow> swarm_wave_state \<Rightarrow> swarm_time_point \<Rightarrow> string \<Rightarrow> swarm_impl \<Rightarrow> swarm_impl" where
  "set_wave_state wid st now reason s =
     (case omap_find wid (im_waves s) of
        None \<Rightarrow> s
      | Some wave \<Rightarrow>
          if wr_state wave = st then s
          else emit ev_wave_state_changed now 0 (wr_id wave) 0 0 None (Some st) None 0 0 reason
                 (upd_wave wid (\<lambda>w. w\<lparr>wr_state := st\<rparr>) s))"

text \<open>The body of the loop of \<open>wave_is_descendant\<close>: the wave one level up, if there is one.\<close>

definition wave_parent :: "swarm_impl \<Rightarrow> swarm_wave_id \<Rightarrow> swarm_wave_id option" where
  "wave_parent s current =
     (case omap_find current (im_waves s) of
        None \<Rightarrow> None
      | Some wave \<Rightarrow>
          (let parent = ws_parent (wr_spec wave)
           in case pm_parent_wave_id parent of
                Some p \<Rightarrow> Some p
              | None \<Rightarrow>
                  (case pm_parent_task_id parent of
                     None \<Rightarrow> None
                   | Some t \<Rightarrow>
                       (case omap_find t (im_tasks s) of
                          None \<Rightarrow> None
                        | Some task \<Rightarrow> ts_wave_id (tr_spec task)))))"

lemma wave_parent_key:
  "wave_parent s w = Some p \<Longrightarrow> w \<in> set (map fst (im_waves s))"
  by (auto simp: wave_parent_def split: option.splits dest: omap_find_key)

function wave_walk ::
  "swarm_impl \<Rightarrow> swarm_wave_id set \<Rightarrow> swarm_wave_id \<Rightarrow> swarm_wave_id \<Rightarrow> bool" where
  "wave_walk s visited current ancestor =
     (if current \<in> visited then False
      else case wave_parent s current of
             None \<Rightarrow> False
           | Some up \<Rightarrow>
               if up = ancestor then True
               else wave_walk s (insert current visited) up ancestor)"
  by pat_completeness auto
termination
proof (relation "measure (\<lambda>(s, visited, current, ancestor).
    card (set (map fst (im_waves s)) - visited))", goal_cases)
  case 1
  show ?case by simp
next
  case (2 s visited current ancestor up)
  then have "current \<in> set (map fst (im_waves s)) - visited"
    using wave_parent_key by blast
  then have "set (map fst (im_waves s)) - insert current visited \<subset>
      set (map fst (im_waves s)) - visited"
    by auto
  then show ?case
    by (auto intro!: psubset_card_mono)
qed

declare wave_walk.simps [simp del]

definition wave_is_descendant :: "swarm_impl \<Rightarrow> swarm_wave_id \<Rightarrow> swarm_wave_id \<Rightarrow> bool \<Rightarrow> bool" where
  "wave_is_descendant s candidate ancestor include_candidate \<longleftrightarrow>
     (if include_candidate \<and> candidate = ancestor then True
      else wave_walk s {} candidate ancestor)"

text \<open>The loop of \<open>task_belongs_to_wave_tree\<close>; \<open>current\<close> is the key of the task.\<close>

function task_tree_walk ::
  "swarm_impl \<Rightarrow> swarm_task_id set \<Rightarrow> swarm_task_id \<Rightarrow> swarm_wave_id \<Rightarrow> bool" where
  "task_tree_walk s visited current ancestor =
     (if current \<in> visited then False
      else case omap_find current (im_tasks s) of
             None \<Rightarrow> False
           | Some task \<Rightarrow>
               (let parent = ts_parent (tr_spec task)
                in if (case pm_parent_wave_id parent of None \<Rightarrow> False
                       | Some w \<Rightarrow> wave_is_descendant s w ancestor True) then True
                   else case pm_parent_task_id parent of
                          None \<Rightarrow> False
                        | Some p \<Rightarrow>
                            (case omap_find p (im_tasks s) of
                               None \<Rightarrow> False
                             | Some parent_task \<Rightarrow>
                                 if (case ts_wave_id (tr_spec parent_task) of None \<Rightarrow> False
                                     | Some w \<Rightarrow> wave_is_descendant s w ancestor True) then True
                                 else task_tree_walk s (insert current visited) p ancestor)))"
  by pat_completeness auto
termination
proof (relation "measure (\<lambda>(s, visited, current, ancestor).
    card (set (map fst (im_tasks s)) - visited))", goal_cases)
  case 1
  show ?case by simp
next
  case (2 s visited current ancestor)
  then have "current \<in> set (map fst (im_tasks s)) - visited"
    using omap_find_key by fast
  then have "set (map fst (im_tasks s)) - insert current visited \<subset>
      set (map fst (im_tasks s)) - visited"
    by auto
  then show ?case
    by (auto intro!: psubset_card_mono)
qed

declare task_tree_walk.simps [simp del]

definition task_belongs_to_wave_tree ::
  "swarm_impl \<Rightarrow> task_record \<Rightarrow> swarm_wave_id \<Rightarrow> bool \<Rightarrow> bool" where
  "task_belongs_to_wave_tree s task ancestor include_descendants \<longleftrightarrow>
     (if (case ts_wave_id (tr_spec task) of None \<Rightarrow> False
          | Some w \<Rightarrow> wave_is_descendant s w ancestor include_descendants) then True
      else if \<not> include_descendants
           then pm_parent_wave_id (ts_parent (tr_spec task)) = Some ancestor
      else task_tree_walk s {} (tr_id task) ancestor)"

definition in_wave :: "swarm_wave_id \<Rightarrow> task_record \<Rightarrow> bool" where
  "in_wave wid task \<longleftrightarrow> ts_wave_id (tr_spec task) = Some wid"

text \<open>
  \<open>recompute_wave\<close>: the flags of the scan are \<open>wave_has\<close> of the matching predicate;
  \<open>recompute_target\<close> is the state and the reason of the one \<open>set_wave_state\<close> call, if the
  branch makes one.
\<close>

definition wave_has :: "swarm_impl \<Rightarrow> swarm_wave_id \<Rightarrow> (swarm_task_state \<Rightarrow> bool) \<Rightarrow> bool" where
  "wave_has s wid P \<longleftrightarrow> list_ex (\<lambda>(k, task). in_wave wid task \<and> P (tr_state task)) (im_tasks s)"

definition recompute_target ::
  "swarm_impl \<Rightarrow> swarm_wave_id \<Rightarrow> wave_record \<Rightarrow> (swarm_wave_state \<times> string) option" where
  "recompute_target s wid wave =
     (let has_tasks = wave_has s wid (\<lambda>_. True);
          has_nonterminal = wave_has s wid (\<lambda>st. \<not> is_terminal st);
          has_failed = wave_has s wid (\<lambda>st. st = task_failed);
          has_timed_out = wave_has s wid (\<lambda>st. st = task_timed_out);
          has_budget_exhausted = wave_has s wid (\<lambda>st. st = task_budget_exhausted);
          has_cancelled = wave_has s wid (\<lambda>st. st = task_cancelled)
      in if \<not> has_tasks then
           if wr_cancellation_requested wave then Some (wave_cancelled, ''wave cancelled'') else None
         else if wr_cancellation_requested wave then
           if has_nonterminal then Some (wave_cancelling, ''wave cancellation pending'')
           else Some (wave_cancelled, ''wave cancelled'')
         else if has_nonterminal then
           if wr_has_started wave then Some (wave_running, ''wave running'') else None
         else Some (if has_failed then wave_failed
                    else if has_timed_out then wave_timed_out
                    else if has_budget_exhausted then wave_budget_exhausted
                    else if has_cancelled then wave_cancelled
                    else wave_succeeded, ''wave terminal''))"

definition recompute_wave ::
  "swarm_wave_id \<Rightarrow> swarm_time_point \<Rightarrow> swarm_impl \<Rightarrow> swarm_impl" where
  "recompute_wave wid now s =
     (case omap_find wid (im_waves s) of
        None \<Rightarrow> s
      | Some wave \<Rightarrow>
          (case recompute_target s wid wave of
             None \<Rightarrow> s
           | Some (st, reason) \<Rightarrow> set_wave_state wid st now reason s))"

section \<open>Attempts\<close>

definition release_resources :: "swarm_task_id \<Rightarrow> swarm_impl \<Rightarrow> swarm_impl" where
  "release_resources tid s =
     (case omap_find tid (im_tasks s) of
        None \<Rightarrow> s
      | Some task \<Rightarrow>
          (let s1 = (case tr_agent_id task of
                       None \<Rightarrow> s
                     | Some aid \<Rightarrow>
                         upd_task tid (\<lambda>t. t\<lparr>tr_agent_id := None\<rparr>)
                           (upd_agent aid (\<lambda>a. if 0 < ar_active_tasks a
                              then a\<lparr>ar_active_tasks := ar_active_tasks a - 1\<rparr> else a) s));
               s2 = (if 0 < im_active_tasks s1
                     then s1\<lparr>im_active_tasks := im_active_tasks s1 - 1\<rparr> else s1);
               s3 = (case ts_wave_id (tr_spec task) of
                       None \<Rightarrow> s2
                     | Some wid \<Rightarrow>
                         upd_wave wid (\<lambda>w. if 0 < wr_active_tasks w
                           then w\<lparr>wr_active_tasks := wr_active_tasks w - 1\<rparr> else w) s2)
           in upd_task tid (\<lambda>t. t\<lparr>tr_admitted_at := None, tr_deadline := None\<rparr>) s3))"

definition int64_max :: int where
  "int64_max = 9223372036854775807"

definition retry_delay :: "swarm_retry_policy \<Rightarrow> nat \<Rightarrow> int" where
  "retry_delay policy completed_attempt =
     (let base = rp_backoff policy
      in if base \<le> 0 then 0
         else let value = (if rp_backoff_strategy policy = backoff_exponential \<and> 1 < completed_attempt
                then let shift = completed_attempt - 1
                     in if 63 \<le> shift \<or> drop_bit shift int64_max < base then int64_max
                        else push_bit shift base
                else base)
              in if 0 < rp_max_backoff policy \<and> rp_max_backoff policy < value
                 then rp_max_backoff policy else value)"

definition should_retry :: "task_record \<Rightarrow> swarm_task_outcome \<Rightarrow> bool" where
  "should_retry task outcome =
     (if rp_max_attempts (ts_retry_policy (tr_spec task)) \<le> tr_attempts_started task then False
      else case outcome of
             outcome_succeeded \<Rightarrow> False
           | outcome_cancelled \<Rightarrow> False
           | outcome_failed \<Rightarrow> rp_retry_on_failure (ts_retry_policy (tr_spec task))
           | outcome_timed_out \<Rightarrow> rp_retry_on_timeout (ts_retry_policy (tr_spec task))
           | outcome_budget_exhausted \<Rightarrow>
               rp_retry_on_budget_exhausted (ts_retry_policy (tr_spec task)))"

text \<open>The \<open>switch\<close> over the final state: one telemetry counter per terminal state.\<close>

fun bump_final :: "swarm_task_state \<Rightarrow> swarm_telemetry \<Rightarrow> swarm_telemetry" where
  "bump_final task_succeeded t = t\<lparr>tl_final_succeeded := tl_final_succeeded t + 1\<rparr>"
| "bump_final task_failed t = t\<lparr>tl_final_failed := tl_final_failed t + 1\<rparr>"
| "bump_final task_cancelled t = t\<lparr>tl_final_cancelled := tl_final_cancelled t + 1\<rparr>"
| "bump_final task_timed_out t = t\<lparr>tl_final_timed_out := tl_final_timed_out t + 1\<rparr>"
| "bump_final task_budget_exhausted t =
     t\<lparr>tl_final_budget_exhausted := tl_final_budget_exhausted t + 1\<rparr>"
| "bump_final _ t = t"

definition finish_attempt ::
  "swarm_task_id \<Rightarrow> swarm_task_outcome \<Rightarrow> swarm_time_point \<Rightarrow> string \<Rightarrow> swarm_impl \<Rightarrow>
   bool \<times> swarm_impl" where
  "finish_attempt tid outcome now reason s =
     (case omap_find tid (im_tasks s) of
        None \<Rightarrow> (False, s)
      | Some task \<Rightarrow>
          (let attempt = tr_attempts_started task;
               attempt_tokens = tr_tokens_used task;
               wave = value_or (ts_wave_id (tr_spec task)) 0;
               s1 = release_resources tid
                      (upd_task tid (\<lambda>t. t\<lparr>tr_tokens_used_total :=
                         tr_tokens_used_total t + attempt_tokens\<rparr>) s);
               retry = should_retry task outcome;
               s2 = (if retry then
                       let delay = retry_delay (ts_retry_policy (tr_spec task)) attempt
                       in emit ev_task_retry_scheduled now (tr_id task) wave 0 attempt
                            (Some task_retry_wait) None None 0 delay reason
                         (emit (event_type_for_outcome outcome) now (tr_id task) wave 0 attempt
                            (Some task_retry_wait) None None attempt_tokens 0 reason
                         (upd_telemetry (\<lambda>tl. tl\<lparr>tl_retries_scheduled := tl_retries_scheduled tl + 1\<rparr>)
                         (upd_task tid (\<lambda>t. t\<lparr>tr_state := task_retry_wait,
                              tr_retry_not_before := Some (time_plus now delay),
                              tr_queue_sequence := im_next_queue_sequence s1,
                              tr_tokens_used := 0,
                              tr_cancellation_requested := False,
                              tr_terminal_reason := reason\<rparr>)
                         (s1\<lparr>im_next_queue_sequence := im_next_queue_sequence s1 + 1\<rparr>))))
                     else
                       let st = task_state_for_outcome outcome
                       in emit (event_type_for_outcome outcome) now (tr_id task) wave 0 attempt
                            (Some st) None None attempt_tokens 0 reason
                         (upd_telemetry (bump_final st)
                         (upd_task tid (\<lambda>t. t\<lparr>tr_state := st, tr_retry_not_before := None,
                              tr_terminal_reason := reason\<rparr>) s1)));
               s3 = (case ts_wave_id (tr_spec task) of
                       None \<Rightarrow> s2 | Some wid \<Rightarrow> recompute_wave wid now s2)
           in (retry, s3)))"

section \<open>Cancellation and expiry\<close>

definition cancel_task_locked ::
  "swarm_task_id \<Rightarrow> string \<Rightarrow> swarm_time_point \<Rightarrow> swarm_impl \<Rightarrow>
   swarm_cancel_disposition \<times> swarm_impl" where
  "cancel_task_locked tid reason now s =
     (case omap_find tid (im_tasks s) of
        None \<Rightarrow> (cancel_not_found, s)
      | Some task \<Rightarrow>
          (let wave = value_or (ts_wave_id (tr_spec task)) 0
           in if is_terminal (tr_state task) then (cancel_already_terminal, s)
              else if tr_state task = task_queued \<or> tr_state task = task_retry_wait then
                let s1 = emit ev_task_cancelled now (tr_id task) wave 0 (tr_attempts_started task)
                           (Some task_cancelled) None None (tr_tokens_used task) 0 reason
                        (upd_telemetry (\<lambda>tl. tl\<lparr>tl_final_cancelled := tl_final_cancelled tl + 1\<rparr>)
                        (upd_task tid (\<lambda>t. t\<lparr>tr_cancellation_requested := True,
                             tr_state := task_cancelled, tr_retry_not_before := None,
                             tr_terminal_reason := reason\<rparr>) s));
                    s2 = (case ts_wave_id (tr_spec task) of
                            None \<Rightarrow> s1 | Some wid \<Rightarrow> recompute_wave wid now s1)
                in (cancel_cancelled_before_run, s2)
              else if \<not> tr_cancellation_requested task then
                (cancel_cancellation_requested,
                 emit ev_task_cancel_requested now (tr_id task) wave (value_or (tr_agent_id task) 0)
                   (tr_attempts_started task) (Some (tr_state task)) None None
                   (tr_tokens_used task) 0 reason
                   (upd_task tid (\<lambda>t. t\<lparr>tr_cancellation_requested := True\<rparr>) s))
              else (cancel_cancellation_requested, s)))"

definition deadline_passed :: "swarm_time_point \<Rightarrow> task_record \<Rightarrow> bool" where
  "deadline_passed now task \<longleftrightarrow> tr_state task = task_running \<and>
     (case tr_deadline task of None \<Rightarrow> False | Some d \<Rightarrow> d \<le> now)"

fun expire_candidates ::
  "swarm_time_point \<Rightarrow> swarm_task_id list \<Rightarrow> swarm_impl \<Rightarrow> swarm_task_id list \<times> swarm_impl" where
  "expire_candidates now [] s = ([], s)"
| "expire_candidates now (tid # tids) s =
     (case omap_find tid (im_tasks s) of
        None \<Rightarrow> expire_candidates now tids s
      | Some task \<Rightarrow>
          if tr_state task \<noteq> task_running then expire_candidates now tids s
          else
            (let outcome = (if tr_cancellation_requested task then outcome_cancelled
                            else outcome_timed_out);
                 s1 = snd (finish_attempt tid outcome now
                        (if outcome = outcome_cancelled then ''cancelled at deadline''
                         else ''task deadline exceeded'') s);
                 (expired, s2) = expire_candidates now tids s1
             in (tid # expired, s2)))"

text \<open>\<open>expire_running\<close>, with the identifiers it pushes to \<open>expired_ids\<close>.\<close>

definition expire_running ::
  "swarm_time_point \<Rightarrow> swarm_impl \<Rightarrow> swarm_task_id list \<times> swarm_impl" where
  "expire_running now s =
     expire_candidates now
       (map (\<lambda>(k, task). tr_id task) (filter (\<lambda>(k, task). deadline_passed now task) (im_tasks s))) s"

section \<open>Snapshots of single records\<close>

definition make_task_snapshot :: "task_record \<Rightarrow> swarm_task_snapshot" where
  "make_task_snapshot task = \<lparr>sn_task_id = tr_id task,
     sn_wave_id = value_or (ts_wave_id (tr_spec task)) 0,
     sn_name = ts_name (tr_spec task), sn_priority = ts_priority (tr_spec task),
     sn_state = tr_state task, sn_attempts_started = tr_attempts_started task,
     sn_current_attempt = tr_attempts_started task,
     sn_max_attempts = rp_max_attempts (ts_retry_policy (tr_spec task)),
     sn_agent_id = tr_agent_id task, sn_parent = ts_parent (tr_spec task),
     sn_budget = ts_budget (tr_spec task), sn_retry_policy = ts_retry_policy (tr_spec task),
     sn_cancellation_requested = tr_cancellation_requested task,
     sn_tokens_used = tr_tokens_used task, sn_tokens_used_total = tr_tokens_used_total task,
     sn_admitted_at = tr_admitted_at task, sn_deadline = tr_deadline task,
     sn_retry_not_before = tr_retry_not_before task,
     sn_terminal_reason = tr_terminal_reason task\<rparr>"

definition make_wave_snapshot :: "swarm_impl \<Rightarrow> wave_record \<Rightarrow> swarm_wave_snapshot" where
  "make_wave_snapshot s wave = \<lparr>wn_wave_id = wr_id wave, wn_name = ws_name (wr_spec wave),
     wn_state = wr_state wave, wn_max_concurrent = ws_max_concurrent (wr_spec wave),
     wn_parent = ws_parent (wr_spec wave),
     wn_cancellation_requested = wr_cancellation_requested wave,
     wn_task_count = omap_count (in_wave (wr_id wave)) (im_tasks s),
     wn_active_tasks = wr_active_tasks wave,
     wn_terminal_tasks =
       omap_count (\<lambda>t. in_wave (wr_id wave) t \<and> is_terminal (tr_state t)) (im_tasks s)\<rparr>"

definition make_agent_snapshot :: "agent_record \<Rightarrow> swarm_agent_snapshot" where
  "make_agent_snapshot agent = \<lparr>an_agent_id = ar_id agent, an_name = as_name (ar_spec agent),
     an_state = visible_agent_state agent, an_max_concurrent = as_max_concurrent (ar_spec agent),
     an_active_tasks = ar_active_tasks agent\<rparr>"

end
