(* ===== verification/SwarmApi.thy ===== *)
theory SwarmApi
  imports SwarmCore
begin

text \<open>
  The public operations of \<open>qwen38_swarm_scheduler\<close>
  (\<open>src/axiom_qwen38_swarm_scheduler.cpp\<close>, from \<open>register_agent\<close> to \<open>snapshot\<close>). Every
  operation holds the scheduler's mutex for its whole body, so a call is one step; \<open>swarm_step\<close>
  is the relation of all of them and a run of the program is a sequence of such steps.
\<close>

section \<open>Registration and submission\<close>

definition register_agent ::
  "swarm_agent_spec \<Rightarrow> swarm_time_point \<Rightarrow> swarm_impl \<Rightarrow> swarm_id_result \<times> swarm_impl" where
  "register_agent spec now s =
     (if as_max_concurrent spec = 0 then (Inl ''agent max_concurrent must be positive'', s)
      else
        let aid = im_next_agent_id s;
            agent = \<lparr>ar_id = aid, ar_spec = spec, ar_administrative_state = agent_idle,
                     ar_active_tasks = 0\<rparr>;
            s1 = s\<lparr>im_next_agent_id := aid + 1,
                   im_agents := omap_emplace aid agent (im_agents s)\<rparr>
        in (Inr aid,
            emit ev_agent_registered now 0 0 aid 0 None None (Some agent_idle) 0 0 (as_name spec) s1))"

definition create_wave ::
  "swarm_wave_spec \<Rightarrow> swarm_time_point \<Rightarrow> swarm_impl \<Rightarrow> swarm_id_result \<times> swarm_impl" where
  "create_wave spec now s =
     (let pw = pm_parent_wave_id (ws_parent spec); pt = pm_parent_task_id (ws_parent spec)
      in if ws_max_concurrent spec = Some 0 then (Inl ''wave max_concurrent must be positive'', s)
         else if \<not> valid_optional_id pw \<or> \<not> valid_optional_id pt
           then (Inl ''parent IDs must be nonzero'', s)
         else if (case pw of None \<Rightarrow> False | Some w \<Rightarrow> omap_find w (im_waves s) = None)
           then (Inl ''parent wave does not exist'', s)
         else if (case pt of None \<Rightarrow> False | Some t \<Rightarrow> omap_find t (im_tasks s) = None)
           then (Inl ''parent task does not exist'', s)
         else
           let wid = im_next_wave_id s;
               wave = \<lparr>wr_id = wid, wr_spec = spec, wr_state = wave_pending,
                       wr_cancellation_requested = False, wr_has_started = False,
                       wr_active_tasks = 0\<rparr>;
               s1 = s\<lparr>im_next_wave_id := wid + 1,
                      im_waves := omap_emplace wid wave (im_waves s)\<rparr>
           in (Inr wid,
               emit ev_wave_created now 0 wid 0 0 None (Some wave_pending) None 0 0 (ws_name spec) s1))"

text \<open>The checks of \<open>submit\<close> in their order: the first that fails names the error.\<close>

definition submit_error :: "swarm_task_spec \<Rightarrow> swarm_impl \<Rightarrow> string option" where
  "submit_error spec s =
     (let pw = pm_parent_wave_id (ts_parent spec); pt = pm_parent_task_id (ts_parent spec);
          policy = ts_retry_policy spec
      in if \<not> valid_optional_id (ts_wave_id spec) \<or> \<not> valid_optional_id pw \<or> \<not> valid_optional_id pt
           then Some ''task IDs must be nonzero''
         else if rp_max_attempts policy = 0
           then Some ''retry policy max_attempts must be positive''
         else if rp_backoff policy < 0 \<or> (rp_max_backoff policy < 0 \<and> rp_max_backoff policy \<noteq> 0)
           then Some ''retry backoff must not be negative''
         else if (case bu_max_duration (ts_budget spec) of None \<Rightarrow> False | Some d \<Rightarrow> d < 0)
           then Some ''task max_duration must not be negative''
         else if (case ts_wave_id spec of None \<Rightarrow> False | Some w \<Rightarrow> omap_find w (im_waves s) = None)
           then Some ''task wave does not exist''
         else if (case ts_wave_id spec of None \<Rightarrow> False
                  | Some w \<Rightarrow> (case omap_find w (im_waves s) of None \<Rightarrow> False
                      | Some wave \<Rightarrow>
                          is_terminal_wave (wr_state wave) \<or> wr_cancellation_requested wave))
           then Some ''task wave is terminal or cancelling''
         else if (case pw of None \<Rightarrow> False | Some w \<Rightarrow> omap_find w (im_waves s) = None)
           then Some ''parent wave does not exist''
         else if (case pt of None \<Rightarrow> False | Some t \<Rightarrow> omap_find t (im_tasks s) = None)
           then Some ''parent task does not exist''
         else if (case cfg_max_queued_tasks (im_config s) of None \<Rightarrow> False
                  | Some limit \<Rightarrow> limit \<le> queued_task_count s)
           then Some ''scheduler queue admission limit reached''
         else None)"

definition submit ::
  "swarm_task_spec \<Rightarrow> swarm_time_point \<Rightarrow> swarm_impl \<Rightarrow> swarm_id_result \<times> swarm_impl" where
  "submit spec now s =
     (case submit_error spec s of
        Some err \<Rightarrow>
          (Inl err,
           emit ev_task_rejected now 0 (value_or (ts_wave_id spec) 0) 0 0 None None None 0 0 err
             (upd_telemetry (\<lambda>tl. tl\<lparr>tl_tasks_rejected := tl_tasks_rejected tl + 1\<rparr>) s))
      | None \<Rightarrow>
          (let tid = im_next_task_id s;
               task = \<lparr>tr_id = tid, tr_spec = spec, tr_state = task_queued,
                       tr_queue_sequence = im_next_queue_sequence s, tr_attempts_started = 0,
                       tr_tokens_used = 0, tr_tokens_used_total = 0, tr_agent_id = None,
                       tr_cancellation_requested = False, tr_admitted_at = None,
                       tr_deadline = None, tr_retry_not_before = None,
                       tr_terminal_reason = []\<rparr>;
               s1 = s\<lparr>im_next_task_id := tid + 1,
                      im_next_queue_sequence := im_next_queue_sequence s + 1,
                      im_tasks := omap_emplace tid task (im_tasks s)\<rparr>
           in (Inr tid,
               emit ev_task_submitted now tid (value_or (ts_wave_id spec) 0) 0 0
                 (Some task_queued) None None 0 0 (ts_name spec)
                 (upd_telemetry (\<lambda>tl. tl\<lparr>tl_tasks_submitted := tl_tasks_submitted tl + 1\<rparr>) s1))))"

section \<open>Admission\<close>

definition agent_available :: "agent_record \<Rightarrow> bool" where
  "agent_available agent \<longleftrightarrow> ar_administrative_state agent = agent_idle \<and>
     ar_active_tasks agent < as_max_concurrent (ar_spec agent)"

fun select_agent :: "(swarm_agent_id, agent_record) omap \<Rightarrow> swarm_agent_id option" where
  "select_agent [] = None"
| "select_agent ((k, agent) # rest) =
     (if agent_available agent then Some (ar_id agent) else select_agent rest)"

text \<open>The \<open>continue\<close> conditions of the selection loop, negated.\<close>

definition task_eligible :: "swarm_time_point \<Rightarrow> swarm_impl \<Rightarrow> task_record \<Rightarrow> bool" where
  "task_eligible now s task \<longleftrightarrow>
     \<not> (tr_cancellation_requested task \<or>
        (tr_state task \<noteq> task_queued \<and> tr_state task \<noteq> task_retry_wait)) \<and>
     \<not> (tr_state task = task_retry_wait \<and>
        (case tr_retry_not_before task of None \<Rightarrow> False | Some t \<Rightarrow> now < t)) \<and>
     (case ts_wave_id (tr_spec task) of
        None \<Rightarrow> True
      | Some wid \<Rightarrow>
          (case omap_find wid (im_waves s) of
             None \<Rightarrow> False
           | Some wave \<Rightarrow> \<not> wr_cancellation_requested wave \<and>
               (case ws_max_concurrent (wr_spec wave) of
                  None \<Rightarrow> True | Some limit \<Rightarrow> wr_active_tasks wave < limit)))"

definition task_preferred :: "task_record \<Rightarrow> task_record \<Rightarrow> bool" where
  "task_preferred task selected \<longleftrightarrow>
     ts_priority (tr_spec selected) < ts_priority (tr_spec task) \<or>
     (ts_priority (tr_spec task) = ts_priority (tr_spec selected) \<and>
      (tr_queue_sequence task < tr_queue_sequence selected \<or>
       (tr_queue_sequence task = tr_queue_sequence selected \<and> tr_id task < tr_id selected)))"

fun select_task ::
  "swarm_time_point \<Rightarrow> swarm_impl \<Rightarrow> (swarm_task_id \<times> task_record) list \<Rightarrow>
   (swarm_task_id \<times> task_record) option \<Rightarrow> (swarm_task_id \<times> task_record) option" where
  "select_task now s [] selected = selected"
| "select_task now s ((k, task) # rest) selected =
     (if \<not> task_eligible now s task then select_task now s rest selected
      else if (case selected of None \<Rightarrow> True | Some (k', t') \<Rightarrow> task_preferred task t')
      then select_task now s rest (Some (k, task))
      else select_task now s rest selected)"

text \<open>The writes of \<open>admit_next\<close> once an agent and a task are chosen.\<close>

definition admit_deadline :: "swarm_time_point \<Rightarrow> task_record \<Rightarrow> swarm_time_point option" where
  "admit_deadline now task =
     (case bu_max_duration (ts_budget (tr_spec task)) of
        None \<Rightarrow> None | Some d \<Rightarrow> Some (time_plus now d))"

definition admit_task ::
  "swarm_time_point \<Rightarrow> swarm_agent_id \<Rightarrow> swarm_task_id \<Rightarrow> task_record \<Rightarrow> swarm_impl \<Rightarrow> swarm_impl" where
  "admit_task now aid tid task s =
     (let s1 = upd_agent aid (\<lambda>a. a\<lparr>ar_active_tasks := ar_active_tasks a + 1\<rparr>) s;
          s2 = s1\<lparr>im_active_tasks := im_active_tasks s1 + 1\<rparr>;
          s3 = upd_task tid (\<lambda>t. t\<lparr>tr_state := task_running,
                 tr_attempts_started := tr_attempts_started t + 1, tr_tokens_used := 0,
                 tr_agent_id := Some aid, tr_admitted_at := Some now,
                 tr_retry_not_before := None, tr_deadline := admit_deadline now t\<rparr>) s2;
          s4 = (case ts_wave_id (tr_spec task) of
                  None \<Rightarrow> s3
                | Some wid \<Rightarrow>
                    set_wave_state wid wave_running now ''wave started''
                      (upd_wave wid (\<lambda>w. w\<lparr>wr_active_tasks := wr_active_tasks w + 1,
                         wr_has_started := True\<rparr>) s3));
          s5 = upd_telemetry (\<lambda>tl. tl\<lparr>tl_attempts_admitted := tl_attempts_admitted tl + 1,
                 tl_attempts_started := tl_attempts_started tl + 1\<rparr>) s4;
          wave = value_or (ts_wave_id (tr_spec task)) 0;
          attempt = tr_attempts_started task + 1
      in emit ev_task_started now (tr_id task) wave aid attempt (Some task_running) None None 0 0 []
           (emit ev_task_admitted now (tr_id task) wave aid attempt (Some task_running) None None 0 0 []
              s5))"

definition admit_next ::
  "swarm_time_point \<Rightarrow> swarm_impl \<Rightarrow> swarm_task_lease option \<times> swarm_impl" where
  "admit_next now s0 =
     (let s = snd (expire_running now s0)
      in if cfg_max_concurrent (im_config s) \<le> im_active_tasks s then (None, s)
         else case select_agent (im_agents s) of
           None \<Rightarrow> (None, s)
         | Some aid \<Rightarrow>
             (case select_task now s (im_tasks s) None of
                None \<Rightarrow> (None, s)
              | Some (tid, task) \<Rightarrow>
                  (Some \<lparr>le_task_id = tr_id task,
                         le_wave_id = value_or (ts_wave_id (tr_spec task)) 0,
                         le_agent_id = aid, le_attempt = tr_attempts_started task + 1,
                         le_priority = ts_priority (tr_spec task), le_admitted_at = now,
                         le_deadline = admit_deadline now task,
                         le_budget = ts_budget (tr_spec task),
                         le_parent = ts_parent (tr_spec task)\<rparr>,
                   admit_task now aid tid task s)))"

section \<open>Progress and completion\<close>

definition report_progress ::
  "swarm_task_id \<Rightarrow> tokens \<Rightarrow> swarm_time_point \<Rightarrow> swarm_impl \<Rightarrow> swarm_progress_result \<times> swarm_impl" where
  "report_progress tid tokens_used now s0 =
     (let s = snd (expire_running now s0)
      in case omap_find tid (im_tasks s) of
           None \<Rightarrow> (\<lparr>pr_disposition = progress_rejected_unknown_task, pr_state = task_queued,
                     pr_tokens_used = 0, pr_accepted = False\<rparr>, s)
         | Some task \<Rightarrow>
             if tr_state task \<noteq> task_running then
               (\<lparr>pr_disposition = progress_rejected_not_running, pr_state = tr_state task,
                 pr_tokens_used = tr_tokens_used task, pr_accepted = False\<rparr>, s)
             else if tokens_used < tr_tokens_used task then
               (\<lparr>pr_disposition = progress_rejected_non_monotonic_tokens, pr_state = tr_state task,
                 pr_tokens_used = tr_tokens_used task, pr_accepted = False\<rparr>, s)
             else
               let s1 = emit ev_task_progress now (tr_id task)
                          (value_or (ts_wave_id (tr_spec task)) 0) (value_or (tr_agent_id task) 0)
                          (tr_attempts_started task) (Some (tr_state task)) None None tokens_used 0
                          ''progress''
                        (upd_telemetry (\<lambda>tl. tl\<lparr>tl_progress_reports := tl_progress_reports tl + 1\<rparr>)
                        (upd_task tid (\<lambda>t. t\<lparr>tr_tokens_used := tokens_used\<rparr>) s))
               in if tr_cancellation_requested task then
                    (\<lparr>pr_disposition = progress_cancellation_requested, pr_state = tr_state task,
                      pr_tokens_used = tokens_used, pr_accepted = True\<rparr>, s1)
                  else if (case bu_max_tokens (ts_budget (tr_spec task)) of
                             None \<Rightarrow> False | Some limit \<Rightarrow> limit \<le> tokens_used) then
                    let s2 = snd (finish_attempt tid outcome_budget_exhausted now
                               ''token budget exhausted'' s1)
                    in (\<lparr>pr_disposition = progress_budget_exhausted,
                         pr_state = (case omap_find tid (im_tasks s2) of
                                       None \<Rightarrow> tr_state task | Some t \<Rightarrow> tr_state t),
                         pr_tokens_used = tokens_used, pr_accepted = True\<rparr>, s2)
                  else (\<lparr>pr_disposition = progress_accepted, pr_state = tr_state task,
                         pr_tokens_used = tokens_used, pr_accepted = True\<rparr>, s1))"

definition completion_outcome :: "task_record \<Rightarrow> swarm_task_completion \<Rightarrow> swarm_task_outcome" where
  "completion_outcome task completion =
     (if tr_cancellation_requested task then outcome_cancelled
      else if (case bu_max_tokens (ts_budget (tr_spec task)) of
                 None \<Rightarrow> False | Some limit \<Rightarrow> limit < tc_tokens_used completion)
      then outcome_budget_exhausted
      else tc_outcome completion)"

fun completion_disposition_for :: "swarm_task_outcome \<Rightarrow> swarm_completion_disposition" where
  "completion_disposition_for outcome_cancelled = completion_cancelled"
| "completion_disposition_for outcome_timed_out = completion_timed_out"
| "completion_disposition_for outcome_budget_exhausted = completion_budget_exhausted"
| "completion_disposition_for outcome_succeeded = completion_accepted"
| "completion_disposition_for outcome_failed = completion_accepted"

definition complete_task ::
  "swarm_task_id \<Rightarrow> swarm_task_completion \<Rightarrow> swarm_time_point \<Rightarrow> swarm_impl \<Rightarrow>
   swarm_completion_result \<times> swarm_impl" where
  "complete_task tid completion now s0 =
     (let s = snd (expire_running now s0)
      in case omap_find tid (im_tasks s) of
           None \<Rightarrow> (\<lparr>cr_disposition = completion_rejected_unknown_task, cr_state = task_queued,
                     cr_attempt = 0, cr_accepted = False, cr_retry_scheduled = False,
                     cr_message = ''task does not exist''\<rparr>, s)
         | Some task \<Rightarrow>
             if tr_state task \<noteq> task_running then
               (\<lparr>cr_disposition = completion_rejected_not_running, cr_state = tr_state task,
                 cr_attempt = tr_attempts_started task, cr_accepted = False,
                 cr_retry_scheduled = False, cr_message = ''task is not running''\<rparr>, s)
             else if tc_tokens_used completion < tr_tokens_used task then
               (\<lparr>cr_disposition = completion_rejected_non_monotonic_tokens, cr_state = tr_state task,
                 cr_attempt = tr_attempts_started task, cr_accepted = False,
                 cr_retry_scheduled = False,
                 cr_message = ''completion token count moved backwards''\<rparr>, s)
             else
               let s1 = upd_task tid (\<lambda>t. t\<lparr>tr_tokens_used := tc_tokens_used completion\<rparr>) s;
                   outcome = completion_outcome task completion;
                   reason = (if tc_message completion = [] then outcome_name outcome
                             else tc_message completion);
                   (retry, s2) = finish_attempt tid outcome now reason s1
               in (\<lparr>cr_disposition = (if retry then completion_retry_scheduled
                                      else completion_disposition_for outcome),
                    cr_state = (case omap_find tid (im_tasks s2) of
                                  None \<Rightarrow> tr_state task | Some t \<Rightarrow> tr_state t),
                    cr_attempt = tr_attempts_started task, cr_accepted = True,
                    cr_retry_scheduled = retry, cr_message = reason\<rparr>, s2))"

section \<open>Cancellation\<close>

definition cancel_changed :: "swarm_cancel_disposition \<Rightarrow> bool" where
  "cancel_changed d \<longleftrightarrow> d = cancel_cancelled_before_run \<or> d = cancel_cancellation_requested"

definition cancel_task ::
  "swarm_task_id \<Rightarrow> string \<Rightarrow> swarm_time_point \<Rightarrow> swarm_impl \<Rightarrow> swarm_cancel_result \<times> swarm_impl" where
  "cancel_task tid reason now s0 =
     (let s = snd (expire_running now s0)
      in case omap_find tid (im_tasks s) of
           None \<Rightarrow> (\<lparr>ca_disposition = cancel_not_found, ca_changed = False\<rparr>, s)
         | Some task \<Rightarrow>
             (let (d, s1) = cancel_task_locked tid reason now s
              in (\<lparr>ca_disposition = d, ca_changed = cancel_changed d\<rparr>, s1)))"

definition selected_waves :: "swarm_impl \<Rightarrow> swarm_wave_id \<Rightarrow> bool \<Rightarrow> swarm_wave_id list" where
  "selected_waves s wid include_descendants =
     filter (\<lambda>k. k = wid \<or> (include_descendants \<and> wave_is_descendant s k wid False))
       (map fst (im_waves s))"

definition request_wave_cancel ::
  "string \<Rightarrow> swarm_time_point \<Rightarrow> swarm_wave_id \<Rightarrow> swarm_impl \<Rightarrow> swarm_impl" where
  "request_wave_cancel reason now wid s =
     (case omap_find wid (im_waves s) of
        None \<Rightarrow> s
      | Some wave \<Rightarrow>
          (let s1 = upd_wave wid (\<lambda>w. w\<lparr>wr_cancellation_requested := True\<rparr>) s
           in if wr_state wave = wave_pending \<or> wr_state wave = wave_running
              then set_wave_state wid wave_cancelling now reason s1 else s1))"

definition cancel_selects ::
  "swarm_impl \<Rightarrow> swarm_wave_id list \<Rightarrow> swarm_wave_id \<Rightarrow> bool \<Rightarrow> task_record \<Rightarrow> bool" where
  "cancel_selects s waves wid include_descendants task \<longleftrightarrow>
     (if (case ts_wave_id (tr_spec task) of None \<Rightarrow> False | Some w \<Rightarrow> w \<in> set waves) then True
      else include_descendants \<and> task_belongs_to_wave_tree s task wid True)"

fun cancel_wave_tasks ::
  "swarm_wave_id list \<Rightarrow> swarm_wave_id \<Rightarrow> bool \<Rightarrow> string \<Rightarrow> swarm_time_point \<Rightarrow> swarm_task_id list \<Rightarrow>
   swarm_impl \<Rightarrow> nat \<times> swarm_impl" where
  "cancel_wave_tasks waves wid desc reason now [] s = (0, s)"
| "cancel_wave_tasks waves wid desc reason now (tid # tids) s =
     (case omap_find tid (im_tasks s) of
        None \<Rightarrow> cancel_wave_tasks waves wid desc reason now tids s
      | Some task \<Rightarrow>
          if \<not> cancel_selects s waves wid desc task
          then cancel_wave_tasks waves wid desc reason now tids s
          else
            (let (d, s1) = cancel_task_locked tid reason now s;
                 (changed, s2) = cancel_wave_tasks waves wid desc reason now tids s1
             in (if cancel_changed d then changed + 1 else changed, s2)))"

definition cancel_wave ::
  "swarm_wave_id \<Rightarrow> string \<Rightarrow> swarm_time_point \<Rightarrow> bool \<Rightarrow> swarm_impl \<Rightarrow> nat \<times> swarm_impl" where
  "cancel_wave wid reason now include_descendants s0 =
     (let s = snd (expire_running now s0)
      in if omap_find wid (im_waves s) = None then (0, s)
         else
           let waves = selected_waves s wid include_descendants;
               s1 = fold (request_wave_cancel reason now) waves s;
               (changed, s2) = cancel_wave_tasks waves wid include_descendants reason now
                                 (map fst (im_tasks s1)) s1;
               s3 = fold (\<lambda>w. recompute_wave w now) waves s2
           in (changed, s3))"

section \<open>Time, agents and observation\<close>

definition tick :: "swarm_time_point \<Rightarrow> swarm_impl \<Rightarrow> swarm_task_id list \<times> swarm_impl" where
  "tick now s = expire_running now s"

definition set_agent_state ::
  "swarm_agent_id \<Rightarrow> swarm_agent_state \<Rightarrow> swarm_time_point \<Rightarrow> string \<Rightarrow> swarm_impl \<Rightarrow>
   bool \<times> swarm_impl" where
  "set_agent_state aid st now reason s =
     (case omap_find aid (im_agents s) of
        None \<Rightarrow> (False, s)
      | Some agent \<Rightarrow>
          if st = agent_busy then (False, s)
          else
            (let agent' = agent\<lparr>ar_administrative_state := st\<rparr>
             in (True,
                 emit ev_agent_state_changed now 0 0 (ar_id agent) 0 None None
                   (Some (visible_agent_state agent')) 0 0 reason
                   (upd_agent aid (\<lambda>a. a\<lparr>ar_administrative_state := st\<rparr>) s))))"

definition is_cancellation_requested :: "swarm_task_id \<Rightarrow> swarm_impl \<Rightarrow> bool" where
  "is_cancellation_requested tid s \<longleftrightarrow>
     (case omap_find tid (im_tasks s) of None \<Rightarrow> False | Some t \<Rightarrow> tr_cancellation_requested t)"

definition task_snapshot :: "swarm_task_id \<Rightarrow> swarm_impl \<Rightarrow> swarm_task_snapshot option" where
  "task_snapshot tid s = map_option make_task_snapshot (omap_find tid (im_tasks s))"

definition swarm_snapshot :: "swarm_impl \<Rightarrow> swarm_scheduler_snapshot" where
  "swarm_snapshot s = \<lparr>ss_revision = im_revision s,
     ss_telemetry = swarm_telemetry.extend (im_telemetry s)
       \<lparr>tl_active_tasks = im_active_tasks s, tl_queued_tasks = queued_task_count s,
        tl_registered_agents = length (im_agents s),
        tl_available_agents = omap_count agent_available (im_agents s), \<dots> = ()\<rparr>,
     ss_tasks = map (\<lambda>(k, t). make_task_snapshot t) (im_tasks s),
     ss_waves = map (\<lambda>(k, w). make_wave_snapshot s w) (im_waves s),
     ss_agents = map (\<lambda>(k, a). make_agent_snapshot a) (im_agents s),
     ss_events = im_events s\<rparr>"

section \<open>Runs\<close>

inductive swarm_step :: "swarm_impl \<Rightarrow> swarm_impl \<Rightarrow> bool" where
  step_register_agent: "swarm_step s (snd (register_agent aspec now s))"
| step_create_wave: "swarm_step s (snd (create_wave wspec now s))"
| step_submit: "swarm_step s (snd (submit tspec now s))"
| step_admit_next: "swarm_step s (snd (admit_next now s))"
| step_report_progress: "swarm_step s (snd (report_progress tid tokens_used now s))"
| step_complete: "swarm_step s (snd (complete_task tid completion now s))"
| step_cancel_task: "swarm_step s (snd (cancel_task tid reason now s))"
| step_cancel_wave: "swarm_step s (snd (cancel_wave wid reason now desc s))"
| step_tick: "swarm_step s (snd (tick now s))"
| step_set_agent_state: "swarm_step s (snd (set_agent_state aid st now reason s))"

definition swarm_init :: "swarm_impl \<Rightarrow> bool" where
  "swarm_init s \<longleftrightarrow> (\<exists>config. swarm_new config = Inr s)"

end
