(* ===== verification/SwarmFrame.thy ===== *)
theory SwarmFrame
  imports SwarmApi
begin

text \<open>
  What each private operation of the scheduler leaves alone, and the net effect of
  \<open>finish_attempt\<close>, \<open>cancel_task_locked\<close> and \<open>admit_task\<close> on the three maps. The invariant
  proofs only use these facts, never the bodies of the operations.
\<close>

section \<open>Field updates\<close>

lemmas upd_defs = upd_task_def upd_wave_def upd_agent_def upd_telemetry_def

lemma emit_frame [simp]:
  "im_config (emit ty now tid wid aid at tst wst ast tk dl msg s) = im_config s"
  "im_agents (emit ty now tid wid aid at tst wst ast tk dl msg s) = im_agents s"
  "im_waves (emit ty now tid wid aid at tst wst ast tk dl msg s) = im_waves s"
  "im_tasks (emit ty now tid wid aid at tst wst ast tk dl msg s) = im_tasks s"
  "im_active_tasks (emit ty now tid wid aid at tst wst ast tk dl msg s) = im_active_tasks s"
  "im_next_agent_id (emit ty now tid wid aid at tst wst ast tk dl msg s) = im_next_agent_id s"
  "im_next_wave_id (emit ty now tid wid aid at tst wst ast tk dl msg s) = im_next_wave_id s"
  "im_next_task_id (emit ty now tid wid aid at tst wst ast tk dl msg s) = im_next_task_id s"
  "im_next_queue_sequence (emit ty now tid wid aid at tst wst ast tk dl msg s) =
     im_next_queue_sequence s"
  by (simp_all add: emit_def Let_def upd_telemetry_def)

text \<open>The counters of finished tasks are all that the invariant reads of the telemetry.\<close>

definition finals :: "swarm_telemetry \<Rightarrow> swarm_task_state \<Rightarrow> nat" where
  "finals tel st = (case st of
     task_succeeded \<Rightarrow> tl_final_succeeded tel | task_failed \<Rightarrow> tl_final_failed tel
   | task_cancelled \<Rightarrow> tl_final_cancelled tel | task_timed_out \<Rightarrow> tl_final_timed_out tel
   | task_budget_exhausted \<Rightarrow> tl_final_budget_exhausted tel | _ \<Rightarrow> 0)"

lemma emit_finals [simp]:
  "finals (im_telemetry (emit ty now tid wid aid at tst wst ast tk dl msg s)) =
     finals (im_telemetry s)"
  "tl_tasks_submitted (im_telemetry (emit ty now tid wid aid at tst wst ast tk dl msg s)) =
     tl_tasks_submitted (im_telemetry s)"
  by (simp_all add: emit_def Let_def upd_telemetry_def finals_def fun_eq_iff
      split: swarm_task_state.split)

lemma finals_bump_final:
  "is_terminal st \<Longrightarrow> finals (bump_final st tel) = (finals tel)(st := finals tel st + 1)"
  by (cases st) (auto simp: is_terminal_def finals_def fun_eq_iff split: swarm_task_state.split)

lemma bump_final_submitted [simp]: "tl_tasks_submitted (bump_final st tel) = tl_tasks_submitted tel"
  by (cases st) auto

lemma upd_task_frame [simp]:
  "im_config (upd_task k f s) = im_config s"
  "im_agents (upd_task k f s) = im_agents s"
  "im_waves (upd_task k f s) = im_waves s"
  "im_tasks (upd_task k f s) = omap_modify k f (im_tasks s)"
  "im_events (upd_task k f s) = im_events s"
  "im_telemetry (upd_task k f s) = im_telemetry s"
  "im_active_tasks (upd_task k f s) = im_active_tasks s"
  "im_next_agent_id (upd_task k f s) = im_next_agent_id s"
  "im_next_wave_id (upd_task k f s) = im_next_wave_id s"
  "im_next_task_id (upd_task k f s) = im_next_task_id s"
  "im_next_queue_sequence (upd_task k f s) = im_next_queue_sequence s"
  "im_next_event_sequence (upd_task k f s) = im_next_event_sequence s"
  "im_revision (upd_task k f s) = im_revision s"
  by (simp_all add: upd_task_def)

lemma upd_wave_frame [simp]:
  "im_config (upd_wave k g s) = im_config s"
  "im_agents (upd_wave k g s) = im_agents s"
  "im_waves (upd_wave k g s) = omap_modify k g (im_waves s)"
  "im_tasks (upd_wave k g s) = im_tasks s"
  "im_events (upd_wave k g s) = im_events s"
  "im_telemetry (upd_wave k g s) = im_telemetry s"
  "im_active_tasks (upd_wave k g s) = im_active_tasks s"
  "im_next_agent_id (upd_wave k g s) = im_next_agent_id s"
  "im_next_wave_id (upd_wave k g s) = im_next_wave_id s"
  "im_next_task_id (upd_wave k g s) = im_next_task_id s"
  "im_next_queue_sequence (upd_wave k g s) = im_next_queue_sequence s"
  "im_next_event_sequence (upd_wave k g s) = im_next_event_sequence s"
  "im_revision (upd_wave k g s) = im_revision s"
  by (simp_all add: upd_wave_def)

lemma upd_agent_frame [simp]:
  "im_config (upd_agent k h s) = im_config s"
  "im_agents (upd_agent k h s) = omap_modify k h (im_agents s)"
  "im_waves (upd_agent k h s) = im_waves s"
  "im_tasks (upd_agent k h s) = im_tasks s"
  "im_events (upd_agent k h s) = im_events s"
  "im_telemetry (upd_agent k h s) = im_telemetry s"
  "im_active_tasks (upd_agent k h s) = im_active_tasks s"
  "im_next_agent_id (upd_agent k h s) = im_next_agent_id s"
  "im_next_wave_id (upd_agent k h s) = im_next_wave_id s"
  "im_next_task_id (upd_agent k h s) = im_next_task_id s"
  "im_next_queue_sequence (upd_agent k h s) = im_next_queue_sequence s"
  "im_next_event_sequence (upd_agent k h s) = im_next_event_sequence s"
  "im_revision (upd_agent k h s) = im_revision s"
  by (simp_all add: upd_agent_def)

lemma upd_telemetry_frame [simp]:
  "im_config (upd_telemetry g s) = im_config s"
  "im_agents (upd_telemetry g s) = im_agents s"
  "im_waves (upd_telemetry g s) = im_waves s"
  "im_tasks (upd_telemetry g s) = im_tasks s"
  "im_events (upd_telemetry g s) = im_events s"
  "im_telemetry (upd_telemetry g s) = g (im_telemetry s)"
  "im_active_tasks (upd_telemetry g s) = im_active_tasks s"
  "im_next_agent_id (upd_telemetry g s) = im_next_agent_id s"
  "im_next_wave_id (upd_telemetry g s) = im_next_wave_id s"
  "im_next_task_id (upd_telemetry g s) = im_next_task_id s"
  "im_next_queue_sequence (upd_telemetry g s) = im_next_queue_sequence s"
  "im_next_event_sequence (upd_telemetry g s) = im_next_event_sequence s"
  "im_revision (upd_telemetry g s) = im_revision s"
  by (simp_all add: upd_telemetry_def)

section \<open>Wave states\<close>

lemma set_wave_state_frame [simp]:
  "im_config (set_wave_state wid st now r s) = im_config s"
  "im_agents (set_wave_state wid st now r s) = im_agents s"
  "im_tasks (set_wave_state wid st now r s) = im_tasks s"
  "im_active_tasks (set_wave_state wid st now r s) = im_active_tasks s"
  "im_next_agent_id (set_wave_state wid st now r s) = im_next_agent_id s"
  "im_next_wave_id (set_wave_state wid st now r s) = im_next_wave_id s"
  "im_next_task_id (set_wave_state wid st now r s) = im_next_task_id s"
  "im_next_queue_sequence (set_wave_state wid st now r s) = im_next_queue_sequence s"
  "finals (im_telemetry (set_wave_state wid st now r s)) = finals (im_telemetry s)"
  "tl_tasks_submitted (im_telemetry (set_wave_state wid st now r s)) =
     tl_tasks_submitted (im_telemetry s)"
  "map fst (im_waves (set_wave_state wid st now r s)) = map fst (im_waves s)"
  by (simp_all add: set_wave_state_def split: option.split)

lemma set_wave_state_find:
  "omap_find w (im_waves (set_wave_state wid st now r s)) =
     (if w = wid then map_option (\<lambda>x. x\<lparr>wr_state := st\<rparr>) (omap_find w (im_waves s))
      else omap_find w (im_waves s))"
  by (auto simp: set_wave_state_def omap_simps split: option.split)

text \<open>
  \<open>recompute_wave\<close> is at most one \<open>set_wave_state\<close>; \<open>wave_target\<close> is the state it writes.
\<close>

definition wave_target :: "swarm_impl \<Rightarrow> swarm_wave_id \<Rightarrow> wave_record \<Rightarrow> swarm_wave_state" where
  "wave_target s wid wave =
     (case recompute_target s wid wave of None \<Rightarrow> wr_state wave | Some (st, r) \<Rightarrow> st)"

lemma recompute_wave_frame [simp]:
  "im_config (recompute_wave wid now s) = im_config s"
  "im_agents (recompute_wave wid now s) = im_agents s"
  "im_tasks (recompute_wave wid now s) = im_tasks s"
  "im_active_tasks (recompute_wave wid now s) = im_active_tasks s"
  "im_next_agent_id (recompute_wave wid now s) = im_next_agent_id s"
  "im_next_wave_id (recompute_wave wid now s) = im_next_wave_id s"
  "im_next_task_id (recompute_wave wid now s) = im_next_task_id s"
  "im_next_queue_sequence (recompute_wave wid now s) = im_next_queue_sequence s"
  "finals (im_telemetry (recompute_wave wid now s)) = finals (im_telemetry s)"
  "tl_tasks_submitted (im_telemetry (recompute_wave wid now s)) =
     tl_tasks_submitted (im_telemetry s)"
  "map fst (im_waves (recompute_wave wid now s)) = map fst (im_waves s)"
  by (auto simp: recompute_wave_def split: option.split)

lemma recompute_wave_find:
  "omap_find w (im_waves (recompute_wave wid now s)) =
     (if w = wid then map_option (\<lambda>x. x\<lparr>wr_state := wave_target s wid x\<rparr>) (omap_find w (im_waves s))
      else omap_find w (im_waves s))"
  by (auto simp: recompute_wave_def wave_target_def set_wave_state_find split: option.split)

text \<open>Everything of a wave but its state.\<close>

definition wave_core :: "wave_record \<Rightarrow> wave_record" where
  "wave_core w = w\<lparr>wr_state := wave_pending\<rparr>"

lemma wave_core_simps [simp]:
  "wave_core (w\<lparr>wr_state := st\<rparr>) = wave_core w"
  "wr_id (wave_core w) = wr_id w" "wr_spec (wave_core w) = wr_spec w"
  "wr_cancellation_requested (wave_core w) = wr_cancellation_requested w"
  "wr_has_started (wave_core w) = wr_has_started w"
  "wr_active_tasks (wave_core w) = wr_active_tasks w"
  by (simp_all add: wave_core_def)

definition find_core :: "swarm_wave_id \<Rightarrow> swarm_impl \<Rightarrow> wave_record option" where
  "find_core w s = map_option wave_core (omap_find w (im_waves s))"

lemma find_core_set_wave_state [simp]: "find_core w (set_wave_state wid st now r s) = find_core w s"
  by (auto simp: find_core_def set_wave_state_find option.map_comp comp_def)

lemma find_core_recompute_wave [simp]: "find_core w (recompute_wave wid now s) = find_core w s"
  by (auto simp: find_core_def recompute_wave_find option.map_comp comp_def)

lemma find_core_emit [simp]:
  "find_core w (emit ty now tid wid aid at tst wst ast tk dl msg s) = find_core w s"
  by (simp add: find_core_def)

lemma find_core_upd [simp]:
  "find_core w (upd_task k f s) = find_core w s"
  "find_core w (upd_agent k h s) = find_core w s"
  "find_core w (upd_telemetry g s) = find_core w s"
  by (simp_all add: find_core_def)

lemma find_core_fields [simp]:
  "find_core w (s\<lparr>im_active_tasks := n\<rparr>) = find_core w s"
  "find_core w (s\<lparr>im_next_queue_sequence := n\<rparr>) = find_core w s"
  by (simp_all add: find_core_def)

section \<open>The net effect of an attempt's end\<close>

definition dec_agent :: "agent_record \<Rightarrow> agent_record" where
  "dec_agent a = (if 0 < ar_active_tasks a then a\<lparr>ar_active_tasks := ar_active_tasks a - 1\<rparr> else a)"

definition dec_wave :: "wave_record \<Rightarrow> wave_record" where
  "dec_wave w = (if 0 < wr_active_tasks w then w\<lparr>wr_active_tasks := wr_active_tasks w - 1\<rparr> else w)"

lemma dec_simps [simp]:
  "ar_active_tasks (dec_agent a) = ar_active_tasks a - 1"
  "ar_id (dec_agent a) = ar_id a" "ar_spec (dec_agent a) = ar_spec a"
  "ar_administrative_state (dec_agent a) = ar_administrative_state a"
  "wr_active_tasks (dec_wave w) = wr_active_tasks w - 1"
  "wr_id (dec_wave w) = wr_id w" "wr_spec (dec_wave w) = wr_spec w"
  "wr_cancellation_requested (dec_wave w) = wr_cancellation_requested w"
  "wr_has_started (dec_wave w) = wr_has_started w"
  by (simp_all add: dec_agent_def dec_wave_def)

definition finished_task ::
  "swarm_task_outcome \<Rightarrow> swarm_time_point \<Rightarrow> string \<Rightarrow> nat \<Rightarrow> task_record \<Rightarrow> task_record" where
  "finished_task outcome now reason qseq t =
     (let t1 = t\<lparr>tr_tokens_used_total := tr_tokens_used_total t + tr_tokens_used t,
                 tr_agent_id := None, tr_admitted_at := None, tr_deadline := None,
                 tr_terminal_reason := reason\<rparr>
      in if should_retry t outcome
         then t1\<lparr>tr_state := task_retry_wait, tr_queue_sequence := qseq, tr_tokens_used := 0,
                 tr_cancellation_requested := False,
                 tr_retry_not_before := Some (time_plus now
                   (retry_delay (ts_retry_policy (tr_spec t)) (tr_attempts_started t)))\<rparr>
         else t1\<lparr>tr_state := task_state_for_outcome outcome, tr_retry_not_before := None\<rparr>)"

lemma finished_task_simps [simp]:
  "tr_id (finished_task oc now r q t) = tr_id t"
  "tr_spec (finished_task oc now r q t) = tr_spec t"
  "tr_attempts_started (finished_task oc now r q t) = tr_attempts_started t"
  "tr_agent_id (finished_task oc now r q t) = None"
  "tr_admitted_at (finished_task oc now r q t) = None"
  "tr_deadline (finished_task oc now r q t) = None"
  "tr_state (finished_task oc now r q t) =
     (if should_retry t oc then task_retry_wait else task_state_for_outcome oc)"
  "tr_cancellation_requested (finished_task oc now r q t) =
     (tr_cancellation_requested t \<and> \<not> should_retry t oc)"
  "tr_queue_sequence (finished_task oc now r q t) =
     (if should_retry t oc then q else tr_queue_sequence t)"
  by (simp_all add: finished_task_def Let_def)

lemma fst_finish_attempt:
  "omap_find tid (im_tasks s) = Some t \<Longrightarrow> fst (finish_attempt tid oc now r s) = should_retry t oc"
  by (simp add: finish_attempt_def Let_def)

lemma release_resources_effect:
  assumes "omap_find tid (im_tasks s) = Some t"
  shows "im_agents (release_resources tid s) =
      (case tr_agent_id t of None \<Rightarrow> im_agents s | Some a \<Rightarrow> omap_modify a dec_agent (im_agents s))"
    and "im_waves (release_resources tid s) =
      (case ts_wave_id (tr_spec t) of None \<Rightarrow> im_waves s
       | Some w \<Rightarrow> omap_modify w dec_wave (im_waves s))"
    and "im_active_tasks (release_resources tid s) = im_active_tasks s - 1"
    and "im_next_queue_sequence (release_resources tid s) = im_next_queue_sequence s"
    and "im_telemetry (release_resources tid s) = im_telemetry s"
    and "im_config (release_resources tid s) = im_config s"
    and "im_next_agent_id (release_resources tid s) = im_next_agent_id s"
    and "im_next_wave_id (release_resources tid s) = im_next_wave_id s"
    and "im_next_task_id (release_resources tid s) = im_next_task_id s"
  using assms
  by (auto simp: release_resources_def Let_def dec_agent_def [abs_def] dec_wave_def [abs_def]
      split: option.split)

lemma release_resources_tasks:
  assumes "omap_inv (im_tasks s)" and "omap_find tid (im_tasks s) = Some t"
  shows "im_tasks (release_resources tid s) =
    omap_modify tid (\<lambda>t. t\<lparr>tr_agent_id := None, tr_admitted_at := None, tr_deadline := None\<rparr>)
      (im_tasks s)"
  using assms
  by (auto simp: release_resources_def Let_def intro!: omap_modify_cong split: option.split)


lemma find_core_release_resources:
  assumes "omap_find tid (im_tasks s) = Some t"
  shows "find_core w (release_resources tid s) =
    (if ts_wave_id (tr_spec t) = Some w then map_option dec_wave (find_core w s) else find_core w s)"
proof -
  have "wave_core (dec_wave x) = dec_wave (wave_core x)" for x
    by (simp add: wave_core_def dec_wave_def)
  then show ?thesis
    by (auto simp: find_core_def release_resources_effect [OF assms] omap_simps option.map_comp
        comp_def split: option.split)
qed

text \<open>The state between the resources' release and the recomputation of the wave.\<close>

definition finish_core ::
  "swarm_task_id \<Rightarrow> swarm_task_outcome \<Rightarrow> swarm_time_point \<Rightarrow> string \<Rightarrow> task_record \<Rightarrow> swarm_impl \<Rightarrow>
   swarm_impl" where
  "finish_core tid outcome now reason task s =
     (let s1 = release_resources tid
            (upd_task tid (\<lambda>t. t\<lparr>tr_tokens_used_total := tr_tokens_used_total t + tr_tokens_used task\<rparr>) s);
          delay = retry_delay (ts_retry_policy (tr_spec task)) (tr_attempts_started task);
          st = task_state_for_outcome outcome
      in if should_retry task outcome
         then upd_telemetry (\<lambda>tl. tl\<lparr>tl_retries_scheduled := tl_retries_scheduled tl + 1\<rparr>)
                (upd_task tid (\<lambda>t. t\<lparr>tr_state := task_retry_wait,
                   tr_retry_not_before := Some (time_plus now delay),
                   tr_queue_sequence := im_next_queue_sequence s1, tr_tokens_used := 0,
                   tr_cancellation_requested := False, tr_terminal_reason := reason\<rparr>)
                (s1\<lparr>im_next_queue_sequence := im_next_queue_sequence s1 + 1\<rparr>))
         else upd_telemetry (bump_final st)
                (upd_task tid (\<lambda>t. t\<lparr>tr_state := st, tr_retry_not_before := None,
                   tr_terminal_reason := reason\<rparr>) s1))"

definition finish_emit ::
  "swarm_task_outcome \<Rightarrow> swarm_time_point \<Rightarrow> string \<Rightarrow> task_record \<Rightarrow> swarm_impl \<Rightarrow> swarm_impl" where
  "finish_emit outcome now reason task s =
     (let wave = value_or (ts_wave_id (tr_spec task)) 0; attempt = tr_attempts_started task
      in if should_retry task outcome
         then emit ev_task_retry_scheduled now (tr_id task) wave 0 attempt (Some task_retry_wait)
                None None 0 (retry_delay (ts_retry_policy (tr_spec task)) attempt) reason
                (emit (event_type_for_outcome outcome) now (tr_id task) wave 0 attempt
                   (Some task_retry_wait) None None (tr_tokens_used task) 0 reason s)
         else emit (event_type_for_outcome outcome) now (tr_id task) wave 0 attempt
                (Some (task_state_for_outcome outcome)) None None (tr_tokens_used task) 0 reason s)"

definition recompute_of :: "task_record \<Rightarrow> swarm_time_point \<Rightarrow> swarm_impl \<Rightarrow> swarm_impl" where
  "recompute_of task now s =
     (case ts_wave_id (tr_spec task) of None \<Rightarrow> s | Some wid \<Rightarrow> recompute_wave wid now s)"

lemma finish_attempt_split:
  assumes "omap_find tid (im_tasks s) = Some t"
  shows "snd (finish_attempt tid oc now r s) =
    recompute_of t now (finish_emit oc now r t (finish_core tid oc now r t s))"
  by (simp add: finish_attempt_def assms Let_def finish_core_def finish_emit_def recompute_of_def
      split: option.split)

lemma finish_emit_frame [simp]:
  "im_config (finish_emit oc now r t s) = im_config s"
  "im_agents (finish_emit oc now r t s) = im_agents s"
  "im_waves (finish_emit oc now r t s) = im_waves s"
  "im_tasks (finish_emit oc now r t s) = im_tasks s"
  "im_active_tasks (finish_emit oc now r t s) = im_active_tasks s"
  "im_next_agent_id (finish_emit oc now r t s) = im_next_agent_id s"
  "im_next_wave_id (finish_emit oc now r t s) = im_next_wave_id s"
  "im_next_task_id (finish_emit oc now r t s) = im_next_task_id s"
  "im_next_queue_sequence (finish_emit oc now r t s) = im_next_queue_sequence s"
  "finals (im_telemetry (finish_emit oc now r t s)) = finals (im_telemetry s)"
  "tl_tasks_submitted (im_telemetry (finish_emit oc now r t s)) =
     tl_tasks_submitted (im_telemetry s)"
  "find_core w (finish_emit oc now r t s) = find_core w s"
  by (simp_all add: finish_emit_def Let_def)

lemma recompute_of_frame [simp]:
  "im_config (recompute_of t now s) = im_config s"
  "im_agents (recompute_of t now s) = im_agents s"
  "im_tasks (recompute_of t now s) = im_tasks s"
  "im_active_tasks (recompute_of t now s) = im_active_tasks s"
  "im_next_agent_id (recompute_of t now s) = im_next_agent_id s"
  "im_next_wave_id (recompute_of t now s) = im_next_wave_id s"
  "im_next_task_id (recompute_of t now s) = im_next_task_id s"
  "im_next_queue_sequence (recompute_of t now s) = im_next_queue_sequence s"
  "finals (im_telemetry (recompute_of t now s)) = finals (im_telemetry s)"
  "tl_tasks_submitted (im_telemetry (recompute_of t now s)) = tl_tasks_submitted (im_telemetry s)"
  "map fst (im_waves (recompute_of t now s)) = map fst (im_waves s)"
  "find_core w (recompute_of t now s) = find_core w s"
  by (simp_all add: recompute_of_def split: option.split)

lemma terminal_outcome_state [simp]: "is_terminal (task_state_for_outcome oc)"
  by (cases oc) (simp_all add: is_terminal_def)

lemma finish_core_tasks:
  assumes "omap_inv (im_tasks s)" and "omap_find tid (im_tasks s) = Some t"
  shows "im_tasks (finish_core tid oc now r t s) =
    omap_modify tid (\<lambda>_. finished_task oc now r (im_next_queue_sequence s) t) (im_tasks s)"
proof -
  let ?s = "upd_task tid (\<lambda>t'. t'\<lparr>tr_tokens_used_total := tr_tokens_used_total t' + tr_tokens_used t\<rparr>) s"
  have f: "omap_find tid (im_tasks ?s) = Some (t\<lparr>tr_tokens_used_total := tr_tokens_used_total t + tr_tokens_used t\<rparr>)"
    using assms by (simp add: omap_simps)
  have i: "omap_inv (im_tasks ?s)"
    using assms by (simp add: omap_simps)
  show ?thesis
    using assms
    by (auto simp: finish_core_def Let_def release_resources_tasks [OF i f]
        release_resources_effect [OF f] finished_task_def intro!: omap_modify_cong)
qed

lemma finish_core_effect:
  assumes "omap_find tid (im_tasks s) = Some t"
  shows "im_agents (finish_core tid oc now r t s) =
      (case tr_agent_id t of None \<Rightarrow> im_agents s | Some a \<Rightarrow> omap_modify a dec_agent (im_agents s))"
    and "find_core w (finish_core tid oc now r t s) =
      (if ts_wave_id (tr_spec t) = Some w then map_option dec_wave (find_core w s) else find_core w s)"
    and "map fst (im_waves (finish_core tid oc now r t s)) = map fst (im_waves s)"
    and "im_active_tasks (finish_core tid oc now r t s) = im_active_tasks s - 1"
    and "im_next_queue_sequence (finish_core tid oc now r t s) =
      im_next_queue_sequence s + (if should_retry t oc then 1 else 0)"
    and "finals (im_telemetry (finish_core tid oc now r t s)) =
      (if should_retry t oc then finals (im_telemetry s)
       else (finals (im_telemetry s))(task_state_for_outcome oc :=
              finals (im_telemetry s) (task_state_for_outcome oc) + 1))"
    and "tl_tasks_submitted (im_telemetry (finish_core tid oc now r t s)) =
      tl_tasks_submitted (im_telemetry s)"
    and "im_config (finish_core tid oc now r t s) = im_config s"
    and "im_next_agent_id (finish_core tid oc now r t s) = im_next_agent_id s"
    and "im_next_wave_id (finish_core tid oc now r t s) = im_next_wave_id s"
    and "im_next_task_id (finish_core tid oc now r t s) = im_next_task_id s"
proof -
  let ?s = "upd_task tid (\<lambda>t'. t'\<lparr>tr_tokens_used_total := tr_tokens_used_total t' + tr_tokens_used t\<rparr>) s"
  have f: "omap_find tid (im_tasks ?s) = Some (t\<lparr>tr_tokens_used_total := tr_tokens_used_total t + tr_tokens_used t\<rparr>)"
    using assms by (simp add: omap_simps)
  note eff = release_resources_effect [OF f] find_core_release_resources [OF f]
  have fin: "finals (tel\<lparr>tl_retries_scheduled := n\<rparr>) = finals tel" for tel n
    by (simp add: finals_def fun_eq_iff split: swarm_task_state.split)
  show "im_agents (finish_core tid oc now r t s) =
      (case tr_agent_id t of None \<Rightarrow> im_agents s | Some a \<Rightarrow> omap_modify a dec_agent (im_agents s))"
    by (simp add: finish_core_def Let_def eff split: option.split)
  show "find_core w (finish_core tid oc now r t s) =
      (if ts_wave_id (tr_spec t) = Some w then map_option dec_wave (find_core w s) else find_core w s)"
    by (simp add: finish_core_def Let_def eff)
  show "map fst (im_waves (finish_core tid oc now r t s)) = map fst (im_waves s)"
    by (simp add: finish_core_def Let_def eff split: option.split)
  show "finals (im_telemetry (finish_core tid oc now r t s)) =
      (if should_retry t oc then finals (im_telemetry s)
       else (finals (im_telemetry s))(task_state_for_outcome oc :=
              finals (im_telemetry s) (task_state_for_outcome oc) + 1))"
    by (simp add: finish_core_def Let_def eff fin finals_bump_final)
  show "im_active_tasks (finish_core tid oc now r t s) = im_active_tasks s - 1"
    and "im_next_queue_sequence (finish_core tid oc now r t s) =
      im_next_queue_sequence s + (if should_retry t oc then 1 else 0)"
    and "tl_tasks_submitted (im_telemetry (finish_core tid oc now r t s)) =
      tl_tasks_submitted (im_telemetry s)"
    and "im_config (finish_core tid oc now r t s) = im_config s"
    and "im_next_agent_id (finish_core tid oc now r t s) = im_next_agent_id s"
    and "im_next_wave_id (finish_core tid oc now r t s) = im_next_wave_id s"
    and "im_next_task_id (finish_core tid oc now r t s) = im_next_task_id s"
    by (simp_all add: finish_core_def Let_def eff)
qed

end
