(* ===== verification/SwarmInv.thy ===== *)
theory SwarmInv
  imports SwarmFrame
begin

text \<open>
  The accounting invariant of the scheduler, its preservation by every public operation, and with
  it the invariant of every reachable state.

  The counters the scheduler keeps (its own, one per agent, one per wave) are redundant: each is
  the number of running tasks it is about. The invariant says so, together with the facts about
  single tasks that the proofs of preservation need.
\<close>

section \<open>The invariant\<close>

definition running :: "task_record \<Rightarrow> bool" where
  "running t \<longleftrightarrow> tr_state t = task_running"

definition waiting :: "task_record \<Rightarrow> bool" where
  "waiting t \<longleftrightarrow> tr_state t = task_queued \<or> tr_state t = task_retry_wait"

definition on_agent :: "swarm_agent_id \<Rightarrow> task_record \<Rightarrow> bool" where
  "on_agent a t \<longleftrightarrow> running t \<and> tr_agent_id t = Some a"

definition active_in :: "swarm_wave_id \<Rightarrow> task_record \<Rightarrow> bool" where
  "active_in w t \<longleftrightarrow> running t \<and> in_wave w t"

definition max_attempts :: "task_record \<Rightarrow> nat" where
  "max_attempts t = rp_max_attempts (ts_retry_policy (tr_spec t))"

text \<open>One task: its resources, its attempts, its cancellation flag.\<close>

definition task_ok :: "swarm_impl \<Rightarrow> task_record \<Rightarrow> bool" where
  "task_ok s t \<longleftrightarrow>
     (if running t then \<exists>a. tr_agent_id t = Some a \<and> omap_find a (im_agents s) \<noteq> None
      else tr_agent_id t = None \<and> tr_deadline t = None \<and> tr_admitted_at t = None) \<and>
     tr_attempts_started t \<le> max_attempts t \<and>
     (waiting t \<longrightarrow> tr_attempts_started t < max_attempts t \<and> \<not> tr_cancellation_requested t) \<and>
     (running t \<longrightarrow> 0 < tr_attempts_started t) \<and>
     (\<forall>w. in_wave w t \<longrightarrow> find_core w s \<noteq> None) \<and>
     tr_queue_sequence t < im_next_queue_sequence s"

definition inv_maps :: "swarm_impl \<Rightarrow> bool" where
  "inv_maps s \<longleftrightarrow>
     omap_inv (im_agents s) \<and> sorted_wrt (<) (map fst (im_waves s)) \<and> omap_inv (im_tasks s) \<and>
     (\<forall>a r. omap_find a (im_agents s) = Some r \<longrightarrow> ar_id r = a \<and> 0 < a \<and> a < im_next_agent_id s) \<and>
     (\<forall>w r. find_core w s = Some r \<longrightarrow> wr_id r = w \<and> 0 < w \<and> w < im_next_wave_id s) \<and>
     (\<forall>k t. omap_find k (im_tasks s) = Some t \<longrightarrow> tr_id t = k \<and> 0 < k \<and> k < im_next_task_id s) \<and>
     0 < im_next_agent_id s \<and> 0 < im_next_wave_id s \<and> 0 < im_next_task_id s"

definition inv_tasks :: "swarm_impl \<Rightarrow> bool" where
  "inv_tasks s \<longleftrightarrow> (\<forall>k t. omap_find k (im_tasks s) = Some t \<longrightarrow> task_ok s t)"

definition inv_counts :: "swarm_impl \<Rightarrow> bool" where
  "inv_counts s \<longleftrightarrow>
     im_active_tasks s = omap_count running (im_tasks s) \<and>
     (\<forall>a r. omap_find a (im_agents s) = Some r \<longrightarrow>
        ar_active_tasks r = omap_count (on_agent a) (im_tasks s)) \<and>
     (\<forall>w r. find_core w s = Some r \<longrightarrow>
        wr_active_tasks r = omap_count (active_in w) (im_tasks s))"

definition inv_limits :: "swarm_impl \<Rightarrow> bool" where
  "inv_limits s \<longleftrightarrow>
     im_active_tasks s \<le> cfg_max_concurrent (im_config s) \<and>
     (\<forall>a r. omap_find a (im_agents s) = Some r \<longrightarrow>
        ar_active_tasks r \<le> as_max_concurrent (ar_spec r)) \<and>
     (\<forall>w r. find_core w s = Some r \<longrightarrow>
        (\<forall>limit. ws_max_concurrent (wr_spec r) = Some limit \<longrightarrow> wr_active_tasks r \<le> limit)) \<and>
     (\<forall>limit. cfg_max_queued_tasks (im_config s) = Some limit \<longrightarrow>
        omap_count waiting (im_tasks s) + im_active_tasks s
          \<le> limit + cfg_max_concurrent (im_config s))"

definition inv_telemetry :: "swarm_impl \<Rightarrow> bool" where
  "inv_telemetry s \<longleftrightarrow>
     (\<forall>st. is_terminal st \<longrightarrow>
        finals (im_telemetry s) st = omap_count (\<lambda>t. tr_state t = st) (im_tasks s)) \<and>
     tl_tasks_submitted (im_telemetry s) = length (im_tasks s)"

definition swarm_inv :: "swarm_impl \<Rightarrow> bool" where
  "swarm_inv s \<longleftrightarrow> inv_maps s \<and> inv_tasks s \<and> inv_counts s \<and> inv_limits s \<and> inv_telemetry s"

lemmas inv_parts = inv_maps_def inv_tasks_def inv_counts_def inv_limits_def inv_telemetry_def

lemma swarm_invD:
  assumes "swarm_inv s"
  shows "inv_maps s" "inv_tasks s" "inv_counts s" "inv_limits s" "inv_telemetry s"
    "omap_inv (im_tasks s)" "omap_inv (im_agents s)"
  using assms by (simp_all add: swarm_inv_def inv_maps_def)

lemma swarm_inv_task:
  assumes "swarm_inv s" and "omap_find k (im_tasks s) = Some t"
  shows "task_ok s t" and "tr_id t = k"
  using assms by (auto simp: swarm_inv_def inv_tasks_def inv_maps_def)

section \<open>Steps that the invariant does not see\<close>

lemma task_ok_emit [simp]:
  "task_ok (emit ty now tid wid aid at tst wst ast tk dl msg s) t = task_ok s t"
  by (simp add: task_ok_def)

lemma task_ok_wave_state [simp]:
  "task_ok (set_wave_state wid st now r s) t = task_ok s t"
  "task_ok (recompute_wave wid now s) t = task_ok s t"
  "task_ok (recompute_of t' now s) t = task_ok s t"
  "task_ok (finish_emit oc now r t' s) t = task_ok s t"
  by (simp_all add: task_ok_def)

lemma swarm_inv_emit [simp]:
  "swarm_inv (emit ty now tid wid aid at tst wst ast tk dl msg s) = swarm_inv s"
  by (simp add: swarm_inv_def inv_parts)

lemma swarm_inv_wave_state [simp]:
  "swarm_inv (set_wave_state wid st now r s) = swarm_inv s"
  "swarm_inv (recompute_wave wid now s) = swarm_inv s"
  "swarm_inv (recompute_of t now s) = swarm_inv s"
  "swarm_inv (finish_emit oc now r t s) = swarm_inv s"
  by (simp_all add: swarm_inv_def inv_parts)

lemma swarm_inv_upd_telemetry:
  assumes "finals (g (im_telemetry s)) = finals (im_telemetry s)"
    and "tl_tasks_submitted (g (im_telemetry s)) = tl_tasks_submitted (im_telemetry s)"
  shows "swarm_inv (upd_telemetry g s) = swarm_inv s"
  using assms by (simp add: swarm_inv_def inv_parts task_ok_def)

text \<open>A write to one task that touches neither its state nor its resources.\<close>

definition minor_update :: "task_record \<Rightarrow> task_record \<Rightarrow> bool" where
  "minor_update t t' \<longleftrightarrow> tr_id t' = tr_id t \<and> tr_spec t' = tr_spec t \<and> tr_state t' = tr_state t \<and>
     tr_attempts_started t' = tr_attempts_started t \<and> tr_agent_id t' = tr_agent_id t \<and>
     tr_queue_sequence t' = tr_queue_sequence t \<and> tr_deadline t' = tr_deadline t \<and>
     tr_admitted_at t' = tr_admitted_at t \<and>
     (waiting t \<longrightarrow> tr_cancellation_requested t' = tr_cancellation_requested t)"

lemmas task_preds = running_def waiting_def on_agent_def active_in_def in_wave_def max_attempts_def

lemma swarm_inv_minor_update:
  assumes "swarm_inv s" and "\<And>t. omap_find tid (im_tasks s) = Some t \<Longrightarrow> minor_update t (f t)"
  shows "swarm_inv (upd_task tid f s)"
proof -
  note inv = swarm_invD [OF assms(1)]
  have count: "omap_count P (omap_modify tid f (im_tasks s)) = omap_count P (im_tasks s)"
    if "\<And>t t'. minor_update t t' \<Longrightarrow> P t' = P t" for P
    using inv(6) assms(2) that by (intro omap_count_modify_same) auto
  have counts: "omap_count running (omap_modify tid f (im_tasks s)) = omap_count running (im_tasks s)"
    "omap_count waiting (omap_modify tid f (im_tasks s)) = omap_count waiting (im_tasks s)"
    "omap_count (on_agent a) (omap_modify tid f (im_tasks s)) = omap_count (on_agent a) (im_tasks s)"
    "omap_count (active_in w) (omap_modify tid f (im_tasks s)) = omap_count (active_in w) (im_tasks s)"
    "omap_count (\<lambda>t. tr_state t = st) (omap_modify tid f (im_tasks s)) =
       omap_count (\<lambda>t. tr_state t = st) (im_tasks s)" for a w st
    by (rule count; simp add: minor_update_def task_preds)+
  have ok: "task_ok (upd_task tid f s) (f t)" if "omap_find tid (im_tasks s) = Some t" for t
    using assms(2) [OF that] swarm_inv_task(1) [OF assms(1) that]
    by (auto simp: task_ok_def minor_update_def task_preds split: if_splits)
  have ok': "task_ok (upd_task tid f s) t = task_ok s t" for t
    by (simp add: task_ok_def)
  have "inv_maps (upd_task tid f s)"
    using inv(1) assms(2) by (auto simp: inv_maps_def omap_simps minor_update_def split: if_splits)
  moreover have "inv_tasks (upd_task tid f s)"
    using inv(2) ok by (auto simp: inv_tasks_def omap_simps ok' split: if_splits)
  moreover have "inv_counts (upd_task tid f s)" "inv_limits (upd_task tid f s)"
    "inv_telemetry (upd_task tid f s)"
    using inv(3-5) by (simp_all add: inv_counts_def inv_limits_def inv_telemetry_def counts)
  ultimately show ?thesis by (simp add: swarm_inv_def)
qed


text \<open>Replacing one task: what is left to show for the first two parts.\<close>

lemma inv_tasks_replace:
  assumes "inv_tasks s" and "im_tasks s' = omap_modify tid f (im_tasks s)"
    and "\<And>t. omap_find tid (im_tasks s) = Some t \<Longrightarrow> task_ok s t \<Longrightarrow> task_ok s' (f t)"
    and "\<And>k t. omap_find k (im_tasks s) = Some t \<Longrightarrow> k \<noteq> tid \<Longrightarrow> task_ok s t \<Longrightarrow> task_ok s' t"
  shows "inv_tasks s'"
proof -
  have "task_ok s' u" if "omap_find k (im_tasks s') = Some u" for k u
    using that assms by (cases "k = tid") (auto simp: inv_tasks_def omap_simps)
  then show ?thesis by (simp add: inv_tasks_def)
qed

lemma inv_maps_replace:
  assumes "inv_maps s" and "im_tasks s' = omap_modify tid f (im_tasks s)"
    and "\<And>t. omap_find tid (im_tasks s) = Some t \<Longrightarrow> tr_id (f t) = tr_id t"
    and "im_agents s' = im_agents s" and "map fst (im_waves s') = map fst (im_waves s)"
    and "\<And>w. find_core w s' = find_core w s"
    and "im_next_agent_id s' = im_next_agent_id s" and "im_next_wave_id s' = im_next_wave_id s"
    and "im_next_task_id s' = im_next_task_id s"
  shows "inv_maps s'"
  using assms by (auto simp: inv_maps_def omap_simps)

section \<open>The end of an attempt\<close>

lemma should_retry_attempts: "should_retry t oc \<Longrightarrow> tr_attempts_started t < max_attempts t"
  by (simp add: should_retry_def max_attempts_def split: if_splits)

text \<open>How the counts change when one task is replaced.\<close>

lemma count_replace:
  assumes "omap_inv m" and "omap_find k m = Some t"
  shows "omap_count P (omap_modify k f m) =
    omap_count P m + (if P (f t) then 1 else 0) - (if P t then 1 else 0)"
  using omap_count_modify [OF assms, of P f] by simp

lemma count_pos:
  assumes "omap_find k m = Some t" and "P t"
  shows "0 < omap_count P m"
proof -
  have "(k, t) \<in> set m"
    using assms(1) by (simp add: omap_find_def map_of_SomeD)
  with assms(2) show ?thesis
    using omap_count_zero_iff [of P m] by fastforce
qed

lemma finish_core_task_ok:
  assumes "swarm_inv s" and "omap_find tid (im_tasks s) = Some t" and "running t"
    and "omap_find k (im_tasks (finish_core tid oc now r t s)) = Some u"
  shows "task_ok (finish_core tid oc now r t s) u"
proof -
  let ?s = "finish_core tid oc now r t s"
  note inv = swarm_invD [OF assms(1)]
  note eff = finish_core_effect [OF assms(2), where oc = oc and now = now and r = r]
    finish_core_tasks [OF inv(6) assms(2), where oc = oc and now = now and r = r]
  have t: "task_ok s t"
    using assms(1,2) by (rule swarm_inv_task)
  have agents: "omap_find a (im_agents ?s) \<noteq> None \<longleftrightarrow> omap_find a (im_agents s) \<noteq> None" for a
    by (simp add: eff omap_simps split: option.split)
  have cores: "find_core w ?s \<noteq> None \<longleftrightarrow> find_core w s \<noteq> None" for w
    by (simp add: eff)
  show ?thesis
  proof (cases "k = tid")
    case True
    then have u: "u = finished_task oc now r (im_next_queue_sequence s) t"
      using assms(2,4) by (simp add: eff omap_simps)
    have "\<not> running u" "waiting u \<longleftrightarrow> should_retry t oc"
      by (cases oc; simp add: u task_preds)+
    then show ?thesis
      using t should_retry_attempts [of t oc] cores
      by (auto simp: task_ok_def u eff(5) max_attempts_def in_wave_def)
  next
    case False
    then have "omap_find k (im_tasks s) = Some u"
      using assms(4) by (simp add: eff omap_simps)
    with assms(1) have "task_ok s u"
      by (rule swarm_inv_task)
    then show ?thesis
      using agents cores by (auto simp: task_ok_def eff(5) split: if_splits)
  qed
qed

lemma swarm_inv_finish_core:
  assumes "swarm_inv s" and "omap_find tid (im_tasks s) = Some t" and "running t"
  shows "swarm_inv (finish_core tid oc now r t s)"
proof -
  let ?s = "finish_core tid oc now r t s"
  let ?t = "finished_task oc now r (im_next_queue_sequence s) t"
  note inv = swarm_invD [OF assms(1)]
  note eff = finish_core_effect [OF assms(2), where oc = oc and now = now and r = r]
    finish_core_tasks [OF inv(6) assms(2), where oc = oc and now = now and r = r]
  obtain a where a: "tr_agent_id t = Some a"
    using swarm_inv_task(1) [OF assms(1,2)] assms(3) by (auto simp: task_ok_def)
  note rep = count_replace [OF inv(6) assms(2)]
  have nr: "\<not> running ?t" "\<And>b. \<not> on_agent b ?t" "\<And>w. \<not> active_in w ?t"
    by (cases oc; simp add: task_preds)+
  have w: "waiting ?t \<longleftrightarrow> should_retry t oc" "\<not> waiting t"
    using assms(3) by (cases oc; simp add: task_preds)+
  have pos: "0 < omap_count running (im_tasks s)"
    using assms(2,3) by (rule count_pos)
  have "inv_maps ?s"
    using inv(1) assms(2) a
    by (auto simp: inv_maps_def eff omap_simps split: if_splits)
  moreover have "inv_tasks ?s"
    using finish_core_task_ok [OF assms] by (simp add: inv_tasks_def)
  moreover have "inv_counts ?s"
  proof -
    have "im_active_tasks ?s = omap_count running (im_tasks ?s)"
      using inv(3) assms(3) nr pos by (simp add: inv_counts_def eff rep)
    moreover have "ar_active_tasks q = omap_count (on_agent b) (im_tasks ?s)"
      if "omap_find b (im_agents ?s) = Some q" for b q
      using that inv(3) assms(3) nr a
      by (auto simp: inv_counts_def eff rep omap_simps on_agent_def split: if_splits)
    moreover have "wr_active_tasks q = omap_count (active_in v) (im_tasks ?s)"
      if "find_core v ?s = Some q" for v q
      using that inv(3) assms(3) nr
      by (auto simp: inv_counts_def eff rep active_in_def in_wave_def split: if_splits)
    ultimately show ?thesis by (simp add: inv_counts_def)
  qed
  moreover have "inv_limits ?s"
  proof -
    have le: "omap_count waiting (im_tasks ?s) + im_active_tasks ?s
        \<le> omap_count waiting (im_tasks s) + im_active_tasks s" "im_active_tasks ?s \<le> im_active_tasks s"
      using pos inv(3) w by (auto simp: eff rep inv_counts_def)
    have agent: "ar_active_tasks q \<le> as_max_concurrent (ar_spec q)"
      if q: "omap_find b (im_agents ?s) = Some q" for b q
    proof -
      obtain z where z: "omap_find b (im_agents s) = Some z" and "q = z \<or> q = dec_agent z"
        using q a by (auto simp: eff omap_simps split: if_splits)
      moreover have "ar_active_tasks z \<le> as_max_concurrent (ar_spec z)"
        using inv(4) z by (simp add: inv_limits_def)
      ultimately show ?thesis by auto
    qed
    have wave: "wr_active_tasks q \<le> limit"
      if q: "find_core v ?s = Some q" and lim: "ws_max_concurrent (wr_spec q) = Some limit" for v q limit
    proof -
      obtain z where z: "find_core v s = Some z" and "q = z \<or> q = dec_wave z"
        using q by (auto simp: eff split: if_splits)
      moreover from this lim have "wr_active_tasks z \<le> limit"
        using inv(4) by (auto simp: inv_limits_def)
      ultimately show ?thesis by auto
    qed
    show ?thesis
      unfolding inv_limits_def
    proof (intro conjI allI impI)
      show "im_active_tasks ?s \<le> cfg_max_concurrent (im_config ?s)"
        using le(2) inv(4) by (simp add: inv_limits_def eff(8))
    next
      fix limit
      assume "cfg_max_queued_tasks (im_config ?s) = Some limit"
      then show "omap_count waiting (im_tasks ?s) + im_active_tasks ?s
          \<le> limit + cfg_max_concurrent (im_config ?s)"
        using le(1) inv(4) by (simp add: inv_limits_def eff(8))
    qed (auto intro: agent wave)
  qed
  moreover have "inv_telemetry ?s"
  proof -
    have "tr_state t \<noteq> st \<and> task_retry_wait \<noteq> st" if "is_terminal st" for st
      using that assms(3) by (auto simp: is_terminal_def running_def)
    then show ?thesis
      using inv(5) by (simp add: inv_telemetry_def eff rep)
  qed
  ultimately show ?thesis by (simp add: swarm_inv_def)
qed

lemma swarm_inv_finish_attempt:
  assumes "swarm_inv s" and "omap_find tid (im_tasks s) = Some t" and "running t"
  shows "swarm_inv (snd (finish_attempt tid oc now r s))"
  by (simp add: finish_attempt_split [OF assms(2)] swarm_inv_finish_core [OF assms])

lemma swarm_inv_expire_candidates:
  "swarm_inv s \<Longrightarrow> swarm_inv (snd (expire_candidates now tids s))"
proof (induction now tids s rule: expire_candidates.induct)
  case (1 now s)
  then show ?case by simp
next
  case (2 now tid tids s)
  show ?case
  proof (cases "omap_find tid (im_tasks s)")
    case None
    with 2 show ?thesis by simp
  next
    case (Some t)
    show ?thesis
    proof (cases "running t")
      case True
      then show ?thesis
        using 2(3) [OF Some _ refl refl] swarm_inv_finish_attempt [OF "2.prems" Some True] Some
        by (simp add: Let_def case_prod_beta running_def)
    next
      case False
      with 2 Some show ?thesis by (simp add: running_def)
    qed
  qed
qed

lemma swarm_inv_expire_running: "swarm_inv s \<Longrightarrow> swarm_inv (snd (expire_running now s))"
  by (simp add: expire_running_def swarm_inv_expire_candidates)


section \<open>Cancellation\<close>

lemma swarm_inv_retire_waiting:
  assumes "swarm_inv s" and "omap_find tid (im_tasks s) = Some t" and "waiting t"
  shows "swarm_inv (upd_telemetry (\<lambda>tl. tl\<lparr>tl_final_cancelled := tl_final_cancelled tl + 1\<rparr>)
    (upd_task tid (\<lambda>t. t\<lparr>tr_cancellation_requested := True, tr_state := task_cancelled,
       tr_retry_not_before := None, tr_terminal_reason := reason\<rparr>) s))" (is "swarm_inv ?s")
proof -
  let ?t = "t\<lparr>tr_cancellation_requested := True, tr_state := task_cancelled,
    tr_retry_not_before := None, tr_terminal_reason := reason\<rparr>"
  note inv = swarm_invD [OF assms(1)]
  note rep = count_replace [OF inv(6) assms(2)]
  have fin: "finals (tel\<lparr>tl_final_cancelled := Suc (tl_final_cancelled tel)\<rparr>) =
      (finals tel)(task_cancelled := finals tel task_cancelled + 1)" for tel
    by (simp add: finals_def fun_eq_iff split: swarm_task_state.split)
  have nt: "\<not> running t" "\<not> running ?t" "\<not> waiting ?t" "\<not> on_agent a t" "\<not> on_agent a ?t"
    "\<not> active_in w t" "\<not> active_in w ?t" for a w
    using assms(3) by (auto simp: task_preds)
  have same: "task_ok ?s u = task_ok s u" for u
    by (simp add: task_ok_def)
  have tasks: "im_tasks ?s = omap_modify tid (\<lambda>t. t\<lparr>tr_cancellation_requested := True,
      tr_state := task_cancelled, tr_retry_not_before := None, tr_terminal_reason := reason\<rparr>) (im_tasks s)"
    by simp
  have "inv_maps ?s"
    using inv(1) tasks by (rule inv_maps_replace) simp_all
  moreover have "inv_tasks ?s"
    using inv(2) tasks
  proof (rule inv_tasks_replace)
    fix u
    assume "omap_find tid (im_tasks s) = Some u" and "task_ok s u"
    then show "task_ok ?s (u\<lparr>tr_cancellation_requested := True, tr_state := task_cancelled,
       tr_retry_not_before := None, tr_terminal_reason := reason\<rparr>)"
      using assms(2,3) unfolding same by (auto simp: task_ok_def task_preds)
  qed (simp_all only: same)
  moreover have "inv_counts ?s"
    using inv(3) nt by (simp add: inv_counts_def rep)
  moreover have "inv_limits ?s"
  proof -
    have "omap_count waiting (im_tasks ?s) \<le> omap_count waiting (im_tasks s)"
      using nt by (simp add: rep)
    with inv(4) show ?thesis
      by (simp add: inv_limits_def) (meson add_le_mono1 order_trans)
  qed
  moreover have "inv_telemetry ?s"
  proof -
    have "tr_state t \<noteq> st" if "is_terminal st" for st
      using that assms(3) by (auto simp: is_terminal_def waiting_def)
    then show ?thesis
      using inv(5) by (simp add: inv_telemetry_def fin rep)
  qed
  ultimately show ?thesis by (simp add: swarm_inv_def)
qed

lemma swarm_inv_cancel_task_locked:
  assumes "swarm_inv s"
  shows "swarm_inv (snd (cancel_task_locked tid reason now s))"
proof (cases "omap_find tid (im_tasks s)")
  case None
  then show ?thesis using assms by (simp add: cancel_task_locked_def)
next
  case (Some t)
  consider (fin) "is_terminal (tr_state t)" | (wait) "\<not> is_terminal (tr_state t)" "waiting t"
    | (run) "\<not> is_terminal (tr_state t)" "\<not> waiting t" by blast
  then show ?thesis
  proof cases
    case fin
    then show ?thesis using Some assms by (simp add: cancel_task_locked_def)
  next
    case wait
    then show ?thesis
      using Some swarm_inv_retire_waiting [OF assms Some wait(2)]
      by (simp add: cancel_task_locked_def Let_def waiting_def split: option.split)
  next
    case run
    have "swarm_inv (upd_task tid (\<lambda>t. t\<lparr>tr_cancellation_requested := True\<rparr>) s)"
      using assms by (rule swarm_inv_minor_update) (use Some run in \<open>auto simp: minor_update_def waiting_def\<close>)
    with run show ?thesis
      using Some assms by (simp add: cancel_task_locked_def Let_def waiting_def)
  qed
qed

lemma swarm_inv_cancel_wave_tasks:
  "swarm_inv s \<Longrightarrow> swarm_inv (snd (cancel_wave_tasks ws wid desc reason now tids s))"
  by (induction tids arbitrary: s)
    (auto simp: Let_def case_prod_beta swarm_inv_cancel_task_locked split: option.split)

lemma find_core_upd_wave:
  "(\<And>x. wave_core (g x) = g (wave_core x)) \<Longrightarrow>
   find_core w (upd_wave k g s) = (if w = k then map_option g (find_core w s) else find_core w s)"
  by (auto simp: find_core_def omap_simps option.map_comp comp_def)

lemma swarm_inv_request_wave_cancel:
  assumes "swarm_inv s"
  shows "swarm_inv (request_wave_cancel reason now wid s)"
proof -
  let ?g = "\<lambda>w. w\<lparr>wr_cancellation_requested := True\<rparr>"
  have "find_core w (upd_wave wid ?g s) =
      (if w = wid then map_option ?g (find_core w s) else find_core w s)" for w
    by (rule find_core_upd_wave) (simp add: wave_core_def)
  then have "swarm_inv (upd_wave wid ?g s)"
    using assms by (auto simp: swarm_inv_def inv_parts task_ok_def split: if_splits)
  then show ?thesis
    using assms by (simp add: request_wave_cancel_def Let_def split: option.split)
qed

lemma swarm_inv_fold:
  assumes "\<And>x s. swarm_inv s \<Longrightarrow> swarm_inv (f x s)"
  shows "swarm_inv s \<Longrightarrow> swarm_inv (fold f xs s)"
  by (induction xs arbitrary: s) (auto simp: assms)

section \<open>Admission\<close>

lemma select_agent_Some:
  assumes "select_agent m = Some a" and "omap_inv m" and "\<And>k r. omap_find k m = Some r \<Longrightarrow> ar_id r = k"
  shows "\<exists>r. omap_find a m = Some r \<and> agent_available r"
proof -
  have "\<exists>(k, r) \<in> set m. ar_id r = a \<and> agent_available r"
    using assms(1) by (induction m rule: select_agent.induct) (auto split: if_splits)
  then show ?thesis
    using assms(2,3) om.find_iff_entry [OF assms(2)] by blast
qed

lemma select_task_Some:
  "select_task now s es sel = Some (k, t) \<Longrightarrow>
     sel = Some (k, t) \<or> ((k, t) \<in> set es \<and> task_eligible now s t)"
  by (induction now s es sel rule: select_task.induct) (auto split: if_splits)

definition admitted_task :: "swarm_time_point \<Rightarrow> swarm_agent_id \<Rightarrow> task_record \<Rightarrow> task_record" where
  "admitted_task now aid t = t\<lparr>tr_state := task_running,
     tr_attempts_started := tr_attempts_started t + 1, tr_tokens_used := 0,
     tr_agent_id := Some aid, tr_admitted_at := Some now, tr_retry_not_before := None,
     tr_deadline := admit_deadline now t\<rparr>"

definition inc_wave :: "wave_record \<Rightarrow> wave_record" where
  "inc_wave w = w\<lparr>wr_active_tasks := wr_active_tasks w + 1, wr_has_started := True\<rparr>"

definition inc_agent :: "agent_record \<Rightarrow> agent_record" where
  "inc_agent a = a\<lparr>ar_active_tasks := ar_active_tasks a + 1\<rparr>"

lemma admit_task_effect:
  assumes "omap_inv (im_tasks s)" and "omap_find tid (im_tasks s) = Some t"
  shows "im_tasks (admit_task now aid tid t s) =
      omap_modify tid (\<lambda>_. admitted_task now aid t) (im_tasks s)"
    and "im_agents (admit_task now aid tid t s) = omap_modify aid inc_agent (im_agents s)"
    and "find_core w (admit_task now aid tid t s) =
      (if in_wave w t then map_option inc_wave (find_core w s) else find_core w s)"
    and "map fst (im_waves (admit_task now aid tid t s)) = map fst (im_waves s)"
    and "im_active_tasks (admit_task now aid tid t s) = im_active_tasks s + 1"
    and "im_config (admit_task now aid tid t s) = im_config s"
    and "im_next_queue_sequence (admit_task now aid tid t s) = im_next_queue_sequence s"
    and "im_next_agent_id (admit_task now aid tid t s) = im_next_agent_id s"
    and "im_next_wave_id (admit_task now aid tid t s) = im_next_wave_id s"
    and "im_next_task_id (admit_task now aid tid t s) = im_next_task_id s"
    and "finals (im_telemetry (admit_task now aid tid t s)) = finals (im_telemetry s)"
    and "tl_tasks_submitted (im_telemetry (admit_task now aid tid t s)) =
      tl_tasks_submitted (im_telemetry s)"
proof -
  have fin: "finals (tel\<lparr>tl_attempts_admitted := n, tl_attempts_started := m\<rparr>) = finals tel" for tel n m
    by (simp add: finals_def fun_eq_iff split: swarm_task_state.split)
  have core: "find_core w (upd_wave k (\<lambda>w. w\<lparr>wr_active_tasks := Suc (wr_active_tasks w),
      wr_has_started := True\<rparr>) s) =
      (if w = k then map_option inc_wave (find_core w s) else find_core w s)" for w k s
    using find_core_upd_wave [of inc_wave w k s] by (simp add: wave_core_def inc_wave_def [abs_def])
  show "im_tasks (admit_task now aid tid t s) =
      omap_modify tid (\<lambda>_. admitted_task now aid t) (im_tasks s)"
    using assms
    by (auto simp: admit_task_def Let_def admitted_task_def intro!: omap_modify_cong split: option.split)
  show "im_agents (admit_task now aid tid t s) = omap_modify aid inc_agent (im_agents s)"
    by (simp add: admit_task_def Let_def inc_agent_def [abs_def] split: option.split)
  show "find_core w (admit_task now aid tid t s) =
      (if in_wave w t then map_option inc_wave (find_core w s) else find_core w s)"
    by (auto simp: admit_task_def Let_def core in_wave_def split: option.split)
  show "finals (im_telemetry (admit_task now aid tid t s)) = finals (im_telemetry s)"
    by (simp add: admit_task_def Let_def fin split: option.split)
  show "map fst (im_waves (admit_task now aid tid t s)) = map fst (im_waves s)"
    and "im_active_tasks (admit_task now aid tid t s) = im_active_tasks s + 1"
    and "im_config (admit_task now aid tid t s) = im_config s"
    and "im_next_queue_sequence (admit_task now aid tid t s) = im_next_queue_sequence s"
    and "im_next_agent_id (admit_task now aid tid t s) = im_next_agent_id s"
    and "im_next_wave_id (admit_task now aid tid t s) = im_next_wave_id s"
    and "im_next_task_id (admit_task now aid tid t s) = im_next_task_id s"
    and "tl_tasks_submitted (im_telemetry (admit_task now aid tid t s)) =
      tl_tasks_submitted (im_telemetry s)"
    by (simp_all add: admit_task_def Let_def split: option.split)
qed

lemma inc_simps [simp]:
  "ar_active_tasks (inc_agent a) = ar_active_tasks a + 1"
  "ar_id (inc_agent a) = ar_id a" "ar_spec (inc_agent a) = ar_spec a"
  "ar_administrative_state (inc_agent a) = ar_administrative_state a"
  "wr_active_tasks (inc_wave w) = wr_active_tasks w + 1"
  "wr_id (inc_wave w) = wr_id w" "wr_spec (inc_wave w) = wr_spec w"
  "wr_cancellation_requested (inc_wave w) = wr_cancellation_requested w"
  by (simp_all add: inc_agent_def inc_wave_def)

lemma admitted_task_simps [simp]:
  "tr_id (admitted_task now a t) = tr_id t" "tr_spec (admitted_task now a t) = tr_spec t"
  "tr_state (admitted_task now a t) = task_running"
  "tr_attempts_started (admitted_task now a t) = tr_attempts_started t + 1"
  "tr_agent_id (admitted_task now a t) = Some a"
  "tr_queue_sequence (admitted_task now a t) = tr_queue_sequence t"
  "tr_cancellation_requested (admitted_task now a t) = tr_cancellation_requested t"
  by (simp_all add: admitted_task_def)

lemma task_eligible_waiting: "task_eligible now s t \<Longrightarrow> waiting t"
  by (auto simp: task_eligible_def waiting_def)

lemma task_eligible_wave:
  "task_eligible now s t \<Longrightarrow> in_wave w t \<Longrightarrow> find_core w s = Some q \<Longrightarrow>
     ws_max_concurrent (wr_spec q) = Some limit \<Longrightarrow> wr_active_tasks q < limit"
  by (auto simp: task_eligible_def in_wave_def find_core_def split: option.splits)

lemma admit_task_ok:
  assumes "swarm_inv s" and "omap_find tid (im_tasks s) = Some t" and "waiting t"
    and "omap_find aid (im_agents s) \<noteq> None"
    and "omap_find k (im_tasks (admit_task now aid tid t s)) = Some u"
  shows "task_ok (admit_task now aid tid t s) u"
proof -
  let ?s = "admit_task now aid tid t s"
  note inv = swarm_invD [OF assms(1)]
  note eff = admit_task_effect [OF inv(6) assms(2), where now = now and aid = aid]
  have agents: "omap_find a (im_agents ?s) \<noteq> None \<longleftrightarrow> omap_find a (im_agents s) \<noteq> None" for a
    by (simp add: eff omap_simps split: option.split)
  have cores: "find_core w ?s \<noteq> None \<longleftrightarrow> find_core w s \<noteq> None" for w
    by (simp add: eff)
  show ?thesis
  proof (cases "k = tid")
    case True
    then have u: "u = admitted_task now aid t"
      using assms(2,5) by (simp add: eff omap_simps)
    have "running u" "\<not> waiting u"
      by (simp_all add: u task_preds)
    then show ?thesis
      using swarm_inv_task(1) [OF assms(1,2)] assms(3,4) agents [of aid] cores
      by (auto simp: task_ok_def u eff(7) max_attempts_def in_wave_def)
  next
    case False
    then have "omap_find k (im_tasks s) = Some u"
      using assms(5) by (simp add: eff omap_simps)
    with assms(1) have "task_ok s u"
      by (rule swarm_inv_task)
    then show ?thesis
      using agents cores by (auto simp: task_ok_def eff(7) split: if_splits)
  qed
qed

lemma admit_task_counts:
  assumes "swarm_inv s" and "omap_find tid (im_tasks s) = Some t" and "waiting t"
  shows "inv_counts (admit_task now aid tid t s)"
    and "omap_count waiting (im_tasks (admit_task now aid tid t s)) + 1 = omap_count waiting (im_tasks s)"
proof -
  let ?s = "admit_task now aid tid t s"
  note inv = swarm_invD [OF assms(1)]
  note eff = admit_task_effect [OF inv(6) assms(2), where now = now and aid = aid]
  note rep = count_replace [OF inv(6) assms(2)]
  let ?t = "admitted_task now aid t"
  have nt: "\<not> running t" "running ?t" "\<not> waiting ?t" "\<not> on_agent a t" "on_agent a ?t \<longleftrightarrow> a = aid"
    "\<not> active_in w t" "active_in w ?t \<longleftrightarrow> in_wave w t" for a w
    using assms(3) by (auto simp: task_preds)
  have "im_active_tasks ?s = omap_count running (im_tasks ?s)"
    using inv(3) nt by (simp add: inv_counts_def eff rep)
  moreover have "ar_active_tasks q = omap_count (on_agent b) (im_tasks ?s)"
    if "omap_find b (im_agents ?s) = Some q" for b q
    using that inv(3) by (auto simp: inv_counts_def eff rep nt omap_simps split: if_splits)
  moreover have "wr_active_tasks q = omap_count (active_in v) (im_tasks ?s)"
    if "find_core v ?s = Some q" for v q
    using that inv(3) by (auto simp: inv_counts_def eff rep nt split: if_splits)
  ultimately show "inv_counts ?s"
    by (simp add: inv_counts_def)
  show "omap_count waiting (im_tasks ?s) + 1 = omap_count waiting (im_tasks s)"
    using count_pos [where P = waiting, OF assms(2,3)] assms(3) nt by (simp add: eff rep)
qed

lemma admit_task_limits:
  assumes "swarm_inv s" and "omap_find tid (im_tasks s) = Some t" and "task_eligible now s t"
    and "omap_find aid (im_agents s) = Some ag" and "agent_available ag"
    and "im_active_tasks s < cfg_max_concurrent (im_config s)"
  shows "inv_limits (admit_task now aid tid t s)"
proof -
  let ?s = "admit_task now aid tid t s"
  note inv = swarm_invD [OF assms(1)]
  note eff = admit_task_effect [OF inv(6) assms(2), where now = now and aid = aid]
  note w = admit_task_counts(2) [OF assms(1,2) task_eligible_waiting [OF assms(3)], of now aid]
  have agent: "ar_active_tasks q \<le> as_max_concurrent (ar_spec q)"
    if "omap_find b (im_agents ?s) = Some q" for b q
    using that assms(4,5) inv(4)
    by (auto simp: eff omap_simps inv_limits_def agent_available_def split: if_splits)
  have wave: "wr_active_tasks q \<le> limit"
    if "find_core v ?s = Some q" and "ws_max_concurrent (wr_spec q) = Some limit" for v q limit
    using that task_eligible_wave [OF assms(3)] inv(4)
    by (auto simp: eff inv_limits_def Suc_le_eq split: if_splits)
  have total: "omap_count waiting (im_tasks ?s) + im_active_tasks ?s =
      omap_count waiting (im_tasks s) + im_active_tasks s"
    using w by (simp add: eff)
  show ?thesis
    unfolding inv_limits_def total eff(6)
    using inv(4) agent wave assms(6) by (simp add: inv_limits_def eff(5))
qed

lemma swarm_inv_admit_task:
  assumes "swarm_inv s" and "omap_find tid (im_tasks s) = Some t" and "task_eligible now s t"
    and "omap_find aid (im_agents s) = Some ag" and "agent_available ag"
    and "im_active_tasks s < cfg_max_concurrent (im_config s)"
  shows "swarm_inv (admit_task now aid tid t s)"
proof -
  let ?s = "admit_task now aid tid t s"
  note inv = swarm_invD [OF assms(1)]
  note w = task_eligible_waiting [OF assms(3)]
  note eff = admit_task_effect [OF inv(6) assms(2), where now = now and aid = aid]
  have "inv_maps ?s"
    using inv(1) assms(2) by (auto simp: inv_maps_def eff omap_simps split: if_splits)
  moreover have "inv_tasks ?s"
    using admit_task_ok [OF assms(1,2) w] assms(4) by (simp add: inv_tasks_def)
  moreover have "inv_telemetry ?s"
  proof -
    have "tr_state t \<noteq> st \<and> task_running \<noteq> st" if "is_terminal st" for st
      using that w by (auto simp: is_terminal_def waiting_def)
    then show ?thesis
      using inv(5) by (simp add: inv_telemetry_def eff count_replace [OF inv(6) assms(2)])
  qed
  ultimately show ?thesis
    using admit_task_counts(1) [OF assms(1,2) w] admit_task_limits [OF assms]
    by (simp add: swarm_inv_def)
qed

end
