(* ===== verification/SwarmReach.thy ===== *)
theory SwarmReach
  imports SwarmInv
begin

text \<open>
  Every public operation of the scheduler keeps the accounting invariant; hence it holds in every
  reachable state. The step relation \<open>swarm_step\<close> is interpreted as an \<open>invariant_system\<close>.
\<close>

section \<open>Registration and submission\<close>

lemma fresh_keys:
  assumes "inv_maps s"
  shows "omap_find (im_next_agent_id s) (im_agents s) = None"
    and "find_core (im_next_wave_id s) s = None"
    and "omap_find (im_next_task_id s) (im_tasks s) = None"
proof -
  note inv = assms [unfolded inv_maps_def]
  show "omap_find (im_next_agent_id s) (im_agents s) = None"
    using inv by (metis nat_less_le not_None_eq)
  show "find_core (im_next_wave_id s) s = None"
    using inv by (metis nat_less_le not_None_eq)
  show "omap_find (im_next_task_id s) (im_tasks s) = None"
    using inv by (metis nat_less_le not_None_eq)
qed

lemma count_on_agent_absent:
  assumes "swarm_inv s" and "omap_find a (im_agents s) = None"
  shows "omap_count (on_agent a) (im_tasks s) = 0"
proof -
  have "\<not> on_agent a t" if "(k, t) \<in> set (im_tasks s)" for k t
    using that assms swarm_inv_task(1) [OF assms(1), of k t] swarm_invD(6) [OF assms(1)]
    by (auto simp: om.find_iff_entry on_agent_def task_ok_def)
  then show ?thesis
    by (auto simp: omap_count_zero_iff)
qed

lemma count_active_in_absent:
  assumes "swarm_inv s" and "find_core w s = None"
  shows "omap_count (active_in w) (im_tasks s) = 0"
proof -
  have "\<not> active_in w t" if "(k, t) \<in> set (im_tasks s)" for k t
    using that assms swarm_inv_task(1) [OF assms(1), of k t] swarm_invD(6) [OF assms(1)]
    by (auto simp: om.find_iff_entry active_in_def task_ok_def)
  then show ?thesis
    by (auto simp: omap_count_zero_iff)
qed

lemma swarm_inv_new_agent:
  assumes "swarm_inv s" and "0 < as_max_concurrent spec"
  shows "swarm_inv (s\<lparr>im_next_agent_id := Suc (im_next_agent_id s),
    im_agents := omap_emplace (im_next_agent_id s) \<lparr>ar_id = im_next_agent_id s, ar_spec = spec,
      ar_administrative_state = agent_idle, ar_active_tasks = 0\<rparr> (im_agents s)\<rparr>)"
    (is "swarm_inv ?s")
proof -
  note inv = swarm_invD [OF assms(1)]
  note fresh = fresh_keys [OF inv(1)]
  note find = omap_find_emplace [OF inv(7)]
  have core: "find_core w ?s = find_core w s" for w
    by (simp add: find_core_def)
  have "inv_maps ?s"
    using inv(1) omap_inv_emplace [OF inv(7)] fresh(1)
    by (auto simp: inv_maps_def find core less_Suc_eq split: if_splits)
  moreover have "inv_tasks ?s"
    using inv(2) by (fastforce simp: inv_tasks_def task_ok_def find core fresh(1) split: if_splits)
  moreover have "inv_counts ?s"
    using inv(3) count_on_agent_absent [OF assms(1) fresh(1)]
    by (auto simp: inv_counts_def find core split: if_splits)
  moreover have "inv_limits ?s"
    using inv(4) by (auto simp: inv_limits_def find core split: if_splits)
  moreover have "inv_telemetry ?s"
    using inv(5) by (simp add: inv_telemetry_def)
  ultimately show ?thesis by (simp add: swarm_inv_def)
qed

lemma swarm_inv_register_agent:
  "swarm_inv s \<Longrightarrow> swarm_inv (snd (register_agent spec now s))"
  using swarm_inv_new_agent [of s spec] by (simp add: register_agent_def Let_def)

lemma swarm_inv_new_wave:
  assumes "swarm_inv s"
  shows "swarm_inv (s\<lparr>im_next_wave_id := Suc (im_next_wave_id s),
    im_waves := omap_emplace (im_next_wave_id s) \<lparr>wr_id = im_next_wave_id s, wr_spec = spec,
      wr_state = wave_pending, wr_cancellation_requested = False, wr_has_started = False,
      wr_active_tasks = 0\<rparr> (im_waves s)\<rparr>)"
    (is "swarm_inv ?s")
proof -
  note inv = swarm_invD [OF assms(1)]
  note fresh = fresh_keys [OF inv(1)]
  have waves: "omap_inv (im_waves s)"
    using inv(1) by (simp add: inv_maps_def omap_inv_def)
  have core: "find_core w ?s = (if w = im_next_wave_id s then Some \<lparr>wr_id = im_next_wave_id s,
      wr_spec = spec, wr_state = wave_pending, wr_cancellation_requested = False,
      wr_has_started = False, wr_active_tasks = 0\<rparr> else find_core w s)" for w
    using fresh(2) by (simp add: find_core_def omap_find_emplace [OF waves] wave_core_def)
  have "inv_maps ?s"
    using inv(1) omap_inv_emplace [OF waves, unfolded omap_inv_def]
    by (auto simp: inv_maps_def core less_Suc_eq split: if_splits)
  moreover have "inv_tasks ?s"
    using inv(2) by (auto simp: inv_tasks_def task_ok_def core split: if_splits)
  moreover have "inv_counts ?s"
    using inv(3) count_active_in_absent [OF assms(1) fresh(2)]
    by (auto simp: inv_counts_def core split: if_splits)
  moreover have "inv_limits ?s"
    using inv(4) by (auto simp: inv_limits_def core split: if_splits)
  moreover have "inv_telemetry ?s"
    using inv(5) by (simp add: inv_telemetry_def)
  ultimately show ?thesis by (simp add: swarm_inv_def)
qed

lemma swarm_inv_create_wave: "swarm_inv s \<Longrightarrow> swarm_inv (snd (create_wave spec now s))"
  using swarm_inv_new_wave [of s spec] by (simp add: create_wave_def Let_def)

lemma submit_error_None:
  assumes "submit_error spec s = None"
  shows "0 < rp_max_attempts (ts_retry_policy spec)"
    and "ts_wave_id spec = Some w \<Longrightarrow> find_core w s \<noteq> None"
    and "cfg_max_queued_tasks (im_config s) = Some limit \<Longrightarrow> omap_count waiting (im_tasks s) < limit"
  using assms
  by (auto simp: submit_error_def Let_def find_core_def queued_task_count_def waiting_def [abs_def]
      split: if_splits option.splits)

lemma swarm_inv_new_task:
  assumes "swarm_inv s" and "submit_error spec s = None"
  defines "t \<equiv> \<lparr>tr_id = im_next_task_id s, tr_spec = spec, tr_state = task_queued,
    tr_queue_sequence = im_next_queue_sequence s, tr_attempts_started = 0, tr_tokens_used = 0,
    tr_tokens_used_total = 0, tr_agent_id = None, tr_cancellation_requested = False,
    tr_admitted_at = None, tr_deadline = None, tr_retry_not_before = None, tr_terminal_reason = []\<rparr>"
  shows "swarm_inv (upd_telemetry (\<lambda>tl. tl\<lparr>tl_tasks_submitted := Suc (tl_tasks_submitted tl)\<rparr>)
    (s\<lparr>im_next_task_id := Suc (im_next_task_id s),
       im_next_queue_sequence := Suc (im_next_queue_sequence s),
       im_tasks := omap_emplace (im_next_task_id s) t (im_tasks s)\<rparr>))"
    (is "swarm_inv ?s")
proof -
  note inv = swarm_invD [OF assms(1)]
  note fresh = fresh_keys [OF inv(1)]
  note ok = submit_error_None [OF assms(2)]
  note find = omap_find_emplace [OF inv(6)]
  note count = omap_count_emplace [OF inv(6) fresh(3)]
  have core: "find_core w (s\<lparr>im_next_task_id := i, im_next_queue_sequence := q, im_tasks := m\<rparr>) =
      find_core w s" for w i q m
    by (simp add: find_core_def)
  have t: "waiting t" "\<not> running t" "\<not> on_agent a t" "\<not> active_in w t" "tr_state t = task_queued"
    "tr_id t = im_next_task_id s" for a w
    by (simp_all add: t_def task_preds)
  have "inv_maps ?s"
    using inv(1) omap_inv_emplace [OF inv(6)]
    by (auto simp: inv_maps_def core find t less_Suc_eq split: if_splits)
  moreover have "task_ok ?s t"
    using t ok(1,2) by (simp add: task_ok_def core) (simp add: t_def max_attempts_def in_wave_def)
  then have "inv_tasks ?s"
    using inv(2) by (auto simp: inv_tasks_def task_ok_def core find less_Suc_eq split: if_splits)
  moreover have "inv_counts ?s"
    using inv(3) by (simp add: inv_counts_def count t core)
  moreover have "inv_limits ?s"
  proof -
    have "Suc (omap_count waiting (im_tasks s) + im_active_tasks s)
        \<le> limit + cfg_max_concurrent (im_config s)"
      if "cfg_max_queued_tasks (im_config s) = Some limit" for limit
      using ok(3) [OF that] inv(4) by (simp add: inv_limits_def)
    with inv(4) show ?thesis
      by (simp add: inv_limits_def count t core)
  qed
  moreover have "inv_telemetry ?s"
    using inv(5) fresh(3)
    by (auto simp: inv_telemetry_def count t omap_length_emplace inv(6) is_terminal_def finals_def)
  ultimately show ?thesis by (simp add: swarm_inv_def)
qed

lemma swarm_inv_submit:
  assumes "swarm_inv s"
  shows "swarm_inv (snd (submit spec now s))"
proof (cases "submit_error spec s")
  case None
  then show ?thesis
    using swarm_inv_new_task [OF assms None] by (simp add: submit_def Let_def)
next
  case (Some err)
  have "finals (tl\<lparr>tl_tasks_rejected := n\<rparr>) = finals tl" for tl :: swarm_telemetry and n
    by (simp add: finals_def fun_eq_iff split: swarm_task_state.split)
  with Some assms show ?thesis
    by (simp add: submit_def swarm_inv_upd_telemetry)
qed

section \<open>Attempts\<close>

lemma swarm_inv_admit_next:
  assumes "swarm_inv s0"
  shows "swarm_inv (snd (admit_next now s0))"
proof -
  define s where "s = snd (expire_running now s0)"
  have s: "swarm_inv s"
    using assms by (simp add: s_def swarm_inv_expire_running)
  have "swarm_inv (admit_task now aid tid t s)"
    if free: "im_active_tasks s < cfg_max_concurrent (im_config s)"
      and agent: "select_agent (im_agents s) = Some aid"
      and task: "select_task now s (im_tasks s) None = Some (tid, t)"
    for aid tid t
  proof -
    obtain ag where "omap_find aid (im_agents s) = Some ag" "agent_available ag"
      using select_agent_Some [OF agent] swarm_invD(1,7) [OF s] by (auto simp: inv_maps_def)
    moreover have "omap_find tid (im_tasks s) = Some t" "task_eligible now s t"
      using select_task_Some [OF task] swarm_invD(6) [OF s] by (auto simp: om.find_iff_entry)
    ultimately show ?thesis
      using swarm_inv_admit_task [OF s] free by blast
  qed
  then show ?thesis
    using s by (auto simp: admit_next_def Let_def not_le simp flip: s_def split: option.split)
qed

lemma swarm_inv_report_progress:
  assumes "swarm_inv s0"
  shows "swarm_inv (snd (report_progress tid tk now s0))"
proof -
  define s where "s = snd (expire_running now s0)"
  have s: "swarm_inv s"
    using assms by (simp add: s_def swarm_inv_expire_running)
  have fin: "finals (tl\<lparr>tl_progress_reports := n\<rparr>) = finals tl" for tl :: swarm_telemetry and n
    by (simp add: finals_def fun_eq_iff split: swarm_task_state.split)
  have upd: "swarm_inv (upd_task tid (\<lambda>t. t\<lparr>tr_tokens_used := tk\<rparr>) s)"
    using s by (rule swarm_inv_minor_update) (simp add: minor_update_def)
  show ?thesis
  proof (cases "omap_find tid (im_tasks s)")
    case None
    then show ?thesis using s by (simp add: report_progress_def Let_def flip: s_def)
  next
    case (Some t)
    show ?thesis
      using s Some upd
      by (auto simp: report_progress_def Let_def swarm_inv_upd_telemetry fin running_def omap_simps
          simp flip: s_def intro!: swarm_inv_finish_attempt)
  qed
qed

lemma swarm_inv_complete_task:
  assumes "swarm_inv s0"
  shows "swarm_inv (snd (complete_task tid c now s0))"
proof -
  define s where "s = snd (expire_running now s0)"
  have s: "swarm_inv s"
    using assms by (simp add: s_def swarm_inv_expire_running)
  have upd: "swarm_inv (upd_task tid (\<lambda>t. t\<lparr>tr_tokens_used := tc_tokens_used c\<rparr>) s)"
    using s by (rule swarm_inv_minor_update) (simp add: minor_update_def)
  show ?thesis
  proof (cases "omap_find tid (im_tasks s)")
    case None
    then show ?thesis using s by (simp add: complete_task_def Let_def flip: s_def)
  next
    case (Some t)
    show ?thesis
      using s Some upd
      by (auto simp: complete_task_def Let_def case_prod_beta running_def omap_simps
          simp flip: s_def intro!: swarm_inv_finish_attempt)
  qed
qed

section \<open>Cancellation, time and agents\<close>

lemma swarm_inv_cancel_task:
  "swarm_inv s \<Longrightarrow> swarm_inv (snd (cancel_task tid reason now s))"
  by (auto simp: cancel_task_def Let_def case_prod_beta swarm_inv_expire_running
      swarm_inv_cancel_task_locked split: option.split)

lemma swarm_inv_cancel_wave:
  "swarm_inv s \<Longrightarrow> swarm_inv (snd (cancel_wave wid reason now desc s))"
  by (auto simp: cancel_wave_def Let_def case_prod_beta swarm_inv_expire_running
      intro!: swarm_inv_cancel_wave_tasks swarm_inv_fold swarm_inv_request_wave_cancel)

lemma swarm_inv_set_agent_state:
  assumes "swarm_inv s"
  shows "swarm_inv (snd (set_agent_state aid st now reason s))"
proof -
  let ?s = "upd_agent aid (\<lambda>a. a\<lparr>ar_administrative_state := st\<rparr>) s"
  note inv = swarm_invD [OF assms]
  have "inv_maps ?s"
    using inv(1) by (auto simp: inv_maps_def omap_simps split: if_splits)
  moreover have "inv_tasks ?s"
    using inv(2) by (fastforce simp: inv_tasks_def task_ok_def omap_simps split: if_splits)
  moreover have "inv_counts ?s"
    using inv(3) by (auto simp: inv_counts_def omap_simps split: if_splits)
  moreover have "inv_limits ?s"
    using inv(4) by (auto simp: inv_limits_def omap_simps split: if_splits)
  moreover have "inv_telemetry ?s"
    using inv(5) by (simp add: inv_telemetry_def)
  ultimately have "swarm_inv ?s"
    by (simp add: swarm_inv_def)
  with assms show ?thesis
    by (simp add: set_agent_state_def Let_def split: option.split)
qed

section \<open>Reachable states\<close>

lemma swarm_inv_init: "swarm_init s \<Longrightarrow> swarm_inv s"
  by (auto simp: swarm_init_def swarm_new_def swarm_inv_def inv_parts find_core_def omap_find_def
      omap_inv_def empty_telemetry_def finals_def split: if_splits swarm_task_state.split)

lemma swarm_inv_step:
  assumes "swarm_inv s" and "swarm_step s s'"
  shows "swarm_inv s'"
  using assms(2,1)
  by (induction rule: swarm_step.induct)
    (simp_all add: swarm_inv_register_agent swarm_inv_create_wave swarm_inv_submit
      swarm_inv_admit_next swarm_inv_report_progress swarm_inv_complete_task swarm_inv_cancel_task
      swarm_inv_cancel_wave tick_def swarm_inv_expire_running swarm_inv_set_agent_state)

interpretation swarm: invariant_system swarm_init swarm_step swarm_inv
  by unfold_locales (auto intro: swarm_inv_init swarm_inv_step)

end
