(* ===== verification/SwarmMono.thy ===== *)
theory SwarmMono
  imports SwarmReach
begin

text \<open>
  What a single task may go through between two states of a run: terminal records are final,
  attempts only grow, and a running task whose cancellation was requested can only end cancelled.
  The relation is shown for every operation and lifted to runs by \<open>monotone_system\<close>.
\<close>

section \<open>The relation\<close>

definition task_evolves :: "task_record \<Rightarrow> task_record \<Rightarrow> bool" where
  "task_evolves t t' \<longleftrightarrow>
     tr_id t' = tr_id t \<and> tr_spec t' = tr_spec t \<and>
     tr_attempts_started t \<le> tr_attempts_started t' \<and>
     (is_terminal (tr_state t) \<longrightarrow> t' = t) \<and>
     (tr_state t = task_running \<and> tr_cancellation_requested t \<longrightarrow>
        tr_attempts_started t' = tr_attempts_started t \<and> tr_cancellation_requested t' \<and>
        (tr_state t' = task_running \<or> tr_state t' = task_cancelled))"

definition tasks_evolve :: "swarm_impl \<Rightarrow> swarm_impl \<Rightarrow> bool" where
  "tasks_evolve s s' \<longleftrightarrow>
     (\<forall>k t. omap_find k (im_tasks s) = Some t \<longrightarrow>
        (\<exists>t'. omap_find k (im_tasks s') = Some t' \<and> task_evolves t t'))"

lemma task_evolves_refl [simp]: "task_evolves t t"
  by (simp add: task_evolves_def)

lemma task_evolves_trans: "task_evolves t u \<Longrightarrow> task_evolves u v \<Longrightarrow> task_evolves t v"
  unfolding task_evolves_def by (auto simp: is_terminal_def)

lemma tasks_evolve_refl: "tasks_evolve s s"
  by (simp add: tasks_evolve_def)

lemma tasks_evolve_trans: "tasks_evolve s s' \<Longrightarrow> tasks_evolve s' s'' \<Longrightarrow> tasks_evolve s s''"
  unfolding tasks_evolve_def by (meson task_evolves_trans)

lemma tasks_evolve_same: "im_tasks s' = im_tasks s \<Longrightarrow> tasks_evolve s s'"
  by (simp add: tasks_evolve_def)

lemma tasks_evolve_modify:
  assumes "im_tasks s' = omap_modify tid f (im_tasks s)"
    and "\<And>t. omap_find tid (im_tasks s) = Some t \<Longrightarrow> task_evolves t (f t)"
  shows "tasks_evolve s s'"
  using assms by (auto simp: tasks_evolve_def omap_simps)

lemma tasks_evolve_new:
  assumes "omap_inv (im_tasks s)" and "omap_find tid (im_tasks s) = None"
    and "im_tasks s' = omap_emplace tid t (im_tasks s)"
  shows "tasks_evolve s s'"
  using assms by (auto simp: tasks_evolve_def omap_find_emplace)

section \<open>The operations\<close>

lemma finished_task_evolves:
  assumes "running t" and "tr_cancellation_requested t \<Longrightarrow> oc = outcome_cancelled"
  shows "task_evolves t (finished_task oc now r q t)"
  using assms by (auto simp: task_evolves_def is_terminal_def running_def finished_task_def Let_def
      should_retry_def split: if_splits)

lemma finish_attempt_tasks:
  assumes "omap_inv (im_tasks s)" and "omap_find tid (im_tasks s) = Some t"
  shows "im_tasks (snd (finish_attempt tid oc now r s)) =
    omap_modify tid (\<lambda>_. finished_task oc now r (im_next_queue_sequence s) t) (im_tasks s)"
  by (simp add: finish_attempt_split [OF assms(2)] finish_core_tasks [OF assms])

lemma finish_attempt_evolves:
  assumes "swarm_inv s" and "omap_find tid (im_tasks s) = Some t" and "running t"
    and "tr_cancellation_requested t \<Longrightarrow> oc = outcome_cancelled"
  shows "tasks_evolve s (snd (finish_attempt tid oc now r s))"
  using finish_attempt_tasks [OF swarm_invD(6) [OF assms(1)] assms(2)]
proof (rule tasks_evolve_modify)
  fix u
  assume "omap_find tid (im_tasks s) = Some u"
  with assms show "task_evolves u (finished_task oc now r (im_next_queue_sequence s) t)"
    by (simp add: finished_task_evolves)
qed

lemma expire_candidates_evolves:
  "swarm_inv s \<Longrightarrow> tasks_evolve s (snd (expire_candidates now tids s))"
proof (induction now tids s rule: expire_candidates.induct)
  case (1 now s)
  then show ?case by (simp add: tasks_evolve_refl)
next
  case (2 now tid tids s)
  show ?case
  proof (cases "omap_find tid (im_tasks s)")
    case None
    with 2 show ?thesis by simp
  next
    case (Some t)
    show ?thesis
    proof (cases "running t")
      case True
      let ?oc = "if tr_cancellation_requested t then outcome_cancelled else outcome_timed_out"
      let ?s1 = "snd (finish_attempt tid ?oc now (if ?oc = outcome_cancelled
        then ''cancelled at deadline'' else ''task deadline exceeded'') s)"
      have "tasks_evolve s ?s1"
        using 2 Some True by (intro finish_attempt_evolves) auto
      moreover have "tasks_evolve ?s1 (snd (expire_candidates now tids ?s1))"
        using 2(3) [OF Some _ refl refl] swarm_inv_finish_attempt [OF "2.prems" Some True] True
        by (simp add: running_def)
      ultimately show ?thesis
        using Some True by (auto simp: Let_def case_prod_beta running_def intro: tasks_evolve_trans)
    next
      case False
      with 2 Some show ?thesis by (simp add: running_def)
    qed
  qed
qed

lemma expire_running_evolves: "swarm_inv s \<Longrightarrow> tasks_evolve s (snd (expire_running now s))"
  by (simp add: expire_running_def expire_candidates_evolves)

lemma after_expiry_evolves:
  assumes "swarm_inv s" and "tasks_evolve (snd (expire_running now s)) s'"
  shows "tasks_evolve s s'"
  using expire_running_evolves [OF assms(1)] assms(2) by (rule tasks_evolve_trans)

lemma cancel_task_locked_evolves: "tasks_evolve s (snd (cancel_task_locked tid reason now s))"
proof (cases "omap_find tid (im_tasks s)")
  case None
  then show ?thesis by (simp add: cancel_task_locked_def tasks_evolve_refl)
next
  case (Some t)
  then show ?thesis
    by (auto simp: cancel_task_locked_def Let_def tasks_evolve_refl is_terminal_def task_evolves_def
        intro!: tasks_evolve_modify split: option.split)
qed

lemma cancel_wave_tasks_evolves:
  "tasks_evolve s (snd (cancel_wave_tasks ws wid desc reason now tids s))"
proof (induction tids arbitrary: s)
  case Nil
  then show ?case by (simp add: tasks_evolve_refl)
next
  case (Cons tid tids)
  then show ?case
    using tasks_evolve_trans [OF cancel_task_locked_evolves Cons.IH]
    by (simp add: Let_def case_prod_beta split: option.split)
qed

lemma fold_same_tasks:
  assumes "\<And>x s. im_tasks (f x s) = im_tasks s"
  shows "im_tasks (fold f xs s) = im_tasks s"
  by (induction xs arbitrary: s) (simp_all add: assms)

lemma request_wave_cancel_tasks [simp]: "im_tasks (request_wave_cancel reason now wid s) = im_tasks s"
  by (simp add: request_wave_cancel_def Let_def split: option.split)

lemma cancel_wave_evolves:
  assumes "swarm_inv s0"
  shows "tasks_evolve s0 (snd (cancel_wave wid reason now desc s0))"
proof (rule after_expiry_evolves [OF assms])
  let ?s = "snd (expire_running now s0)"
  let ?ws = "selected_waves ?s wid desc"
  let ?s1 = "fold (request_wave_cancel reason now) ?ws ?s"
  let ?s2 = "snd (cancel_wave_tasks ?ws wid desc reason now (map fst (im_tasks ?s1)) ?s1)"
  have "tasks_evolve ?s ?s1"
    by (rule tasks_evolve_same) (simp add: fold_same_tasks)
  moreover have "tasks_evolve ?s1 ?s2"
    by (rule cancel_wave_tasks_evolves)
  ultimately have "tasks_evolve ?s ?s2"
    by (rule tasks_evolve_trans)
  moreover have "tasks_evolve ?s2 (fold (\<lambda>w. recompute_wave w now) ?ws ?s2)"
    by (rule tasks_evolve_same) (simp add: fold_same_tasks)
  ultimately have "tasks_evolve ?s (fold (\<lambda>w. recompute_wave w now) ?ws ?s2)"
    by (rule tasks_evolve_trans)
  then show "tasks_evolve ?s (snd (cancel_wave wid reason now desc s0))"
    by (simp add: cancel_wave_def Let_def case_prod_beta tasks_evolve_refl)
qed

lemma admit_task_evolves:
  assumes "omap_inv (im_tasks s)" and "omap_find tid (im_tasks s) = Some t" and "task_eligible now s t"
  shows "tasks_evolve s (admit_task now aid tid t s)"
  using admit_task_effect(1) [OF assms(1,2)]
proof (rule tasks_evolve_modify)
  fix u
  assume "omap_find tid (im_tasks s) = Some u"
  with assms(2) show "task_evolves u (admitted_task now aid t)"
    using task_eligible_waiting [OF assms(3)]
    by (auto simp: task_evolves_def waiting_def is_terminal_def)
qed

lemma admit_next_evolves:
  assumes "swarm_inv s0"
  shows "tasks_evolve s0 (snd (admit_next now s0))"
proof (rule after_expiry_evolves [OF assms])
  define s where "s = snd (expire_running now s0)"
  have inv: "omap_inv (im_tasks s)"
    using assms by (simp add: s_def swarm_invD swarm_inv_expire_running)
  have "tasks_evolve s (admit_task now aid tid t s)"
    if "select_task now s (im_tasks s) None = Some (tid, t)" for aid tid t
    using select_task_Some [OF that] inv by (auto simp: om.find_iff_entry intro!: admit_task_evolves)
  then show "tasks_evolve s (snd (admit_next now s0))"
    by (auto simp: admit_next_def Let_def tasks_evolve_refl simp flip: s_def split: option.split)
qed

lemma report_progress_evolves:
  assumes "swarm_inv s0"
  shows "tasks_evolve s0 (snd (report_progress tid tk now s0))"
proof (rule after_expiry_evolves [OF assms])
  define s where "s = snd (expire_running now s0)"
  let ?s1 = "\<lambda>t. emit ev_task_progress now (tr_id t) (value_or (ts_wave_id (tr_spec t)) 0)
      (value_or (tr_agent_id t) 0) (tr_attempts_started t) (Some (tr_state t)) None None tk 0
      ''progress'' (upd_telemetry (\<lambda>tl. tl\<lparr>tl_progress_reports := tl_progress_reports tl + 1\<rparr>)
        (upd_task tid (\<lambda>t. t\<lparr>tr_tokens_used := tk\<rparr>) s))"
  have s: "swarm_inv s"
    using assms by (simp add: s_def swarm_inv_expire_running)
  have fin: "finals (tl\<lparr>tl_progress_reports := n\<rparr>) = finals tl" for tl :: swarm_telemetry and n
    by (simp add: finals_def fun_eq_iff split: swarm_task_state.split)
  have upd: "swarm_inv (?s1 t)" for t
    using swarm_inv_minor_update [OF s, of tid "\<lambda>t. t\<lparr>tr_tokens_used := tk\<rparr>"]
    by (simp add: minor_update_def swarm_inv_upd_telemetry fin)
  have ev: "tasks_evolve s (?s1 t)" if "omap_find tid (im_tasks s) = Some t" "running t" for t
    by (rule tasks_evolve_modify [of _ tid "\<lambda>t. t\<lparr>tr_tokens_used := tk\<rparr>"])
      (use that in \<open>auto simp: task_evolves_def is_terminal_def running_def\<close>)
  have "tasks_evolve (?s1 t) (snd (finish_attempt tid oc now r (?s1 t)))"
    if "omap_find tid (im_tasks s) = Some t" "running t" "\<not> tr_cancellation_requested t" for t oc r
    using upd by (rule finish_attempt_evolves [where t = "t\<lparr>tr_tokens_used := tk\<rparr>"])
      (use that in \<open>auto simp: omap_simps running_def\<close>)
  then show "tasks_evolve s (snd (report_progress tid tk now s0))"
    using ev tasks_evolve_trans
    by (auto simp: report_progress_def Let_def tasks_evolve_refl running_def simp flip: s_def
        split: option.split)
qed

lemma complete_task_evolves:
  assumes "swarm_inv s0"
  shows "tasks_evolve s0 (snd (complete_task tid c now s0))"
proof (rule after_expiry_evolves [OF assms])
  define s where "s = snd (expire_running now s0)"
  let ?f = "\<lambda>t. t\<lparr>tr_tokens_used := tc_tokens_used c\<rparr>"
  have s: "swarm_inv s"
    using assms by (simp add: s_def swarm_inv_expire_running)
  have upd: "swarm_inv (upd_task tid ?f s)"
    using s by (rule swarm_inv_minor_update) (simp add: minor_update_def)
  have "tasks_evolve s (snd (finish_attempt tid (completion_outcome t c) now r (upd_task tid ?f s)))"
    if t: "omap_find tid (im_tasks s) = Some t" "running t" for t r
  proof (rule tasks_evolve_trans)
    show "tasks_evolve s (upd_task tid ?f s)"
      by (rule tasks_evolve_modify [of _ tid ?f])
        (use t in \<open>auto simp: task_evolves_def is_terminal_def running_def\<close>)
    show "tasks_evolve (upd_task tid ?f s)
        (snd (finish_attempt tid (completion_outcome t c) now r (upd_task tid ?f s)))"
      using upd by (rule finish_attempt_evolves [where t = "?f t"])
        (use t in \<open>auto simp: omap_simps running_def completion_outcome_def\<close>)
  qed
  then show "tasks_evolve s (snd (complete_task tid c now s0))"
    by (auto simp: complete_task_def Let_def case_prod_beta tasks_evolve_refl running_def
        simp flip: s_def split: option.split)
qed

lemma submit_evolves:
  assumes "swarm_inv s"
  shows "tasks_evolve s (snd (submit spec now s))"
proof (cases "submit_error spec s")
  case None
  note inv = swarm_invD [OF assms]
  show ?thesis
    by (rule tasks_evolve_new [OF inv(6) fresh_keys(3) [OF inv(1)]])
      (simp add: submit_def None Let_def)
next
  case (Some err)
  then show ?thesis by (simp add: submit_def tasks_evolve_same)
qed

lemma cancel_task_evolves:
  assumes "swarm_inv s"
  shows "tasks_evolve s (snd (cancel_task tid reason now s))"
proof (rule after_expiry_evolves [OF assms])
  show "tasks_evolve (snd (expire_running now s)) (snd (cancel_task tid reason now s))"
    by (simp add: cancel_task_def Let_def case_prod_beta cancel_task_locked_evolves
        tasks_evolve_refl split: option.split)
qed

lemma tasks_evolve_step:
  assumes "swarm_inv s" and "swarm_step s s'"
  shows "tasks_evolve s s'"
  using assms(2,1)
  by (induction rule: swarm_step.induct)
    (simp_all add: submit_evolves admit_next_evolves report_progress_evolves complete_task_evolves
      cancel_task_evolves cancel_wave_evolves tick_def expire_running_evolves register_agent_def
      create_wave_def set_agent_state_def Let_def tasks_evolve_same split: option.split)

interpretation swarm_tasks: monotone_system swarm_init swarm_step swarm_inv tasks_evolve
  by unfold_locales (auto intro: tasks_evolve_refl tasks_evolve_trans tasks_evolve_step)

end
