(* ===== verification/SwarmTree.thy ===== *)
theory SwarmTree
  imports SwarmMono
begin

text \<open>
  The forest of waves and tasks that \<open>cancel_wave\<close> walks. The two loops that follow parent
  links and remember the identifiers they have seen terminate on every state and decide
  reachability along the links. They only read the specifications of waves and tasks, which no
  operation changes (\<open>keeps\<close>).
\<close>

section \<open>Ancestors\<close>

definition parent_of :: "swarm_impl \<Rightarrow> swarm_wave_id \<Rightarrow> swarm_wave_id \<Rightarrow> bool" where
  "parent_of s w p \<longleftrightarrow> wave_parent s w = Some p"

interpretation wave_links: linked_walk "set (map fst (im_waves s))" "wave_parent s"
  "\<lambda>w. wave_parent s w = Some a" "\<lambda>visited w. wave_walk s visited w a" for s a
proof unfold_locales
  fix w p visited
  show "finite (set (map fst (im_waves s)))"
    by simp
  show "w \<in> set (map fst (im_waves s))" if "wave_parent s w = Some p"
    using that by (rule wave_parent_key)
  show "wave_walk s visited w a \<longleftrightarrow> w \<notin> visited \<and> (wave_parent s w = Some a \<or>
      (case wave_parent s w of None \<Rightarrow> False | Some y \<Rightarrow> wave_walk s (insert w visited) y a))"
    by (subst wave_walk.simps) (auto split: option.split)
qed

lemma wave_walk_iff: "wave_walk s {} w a \<longleftrightarrow> (parent_of s)\<^sup>+\<^sup>+ w a"
proof -
  have "wave_walk s {} w a \<longleftrightarrow> (\<exists>y. (parent_of s)\<^sup>*\<^sup>* w y \<and> parent_of s y a)"
    by (simp add: wave_links.walk_iff parent_of_def [abs_def])
  then show ?thesis
    by (metis rtranclp_into_tranclp1 tranclp.cases tranclp_into_rtranclp rtranclp.rtrancl_refl)
qed

lemma wave_is_descendant_iff:
  "wave_is_descendant s w a incl \<longleftrightarrow> incl \<and> w = a \<or> (parent_of s)\<^sup>+\<^sup>+ w a"
  by (auto simp: wave_is_descendant_def wave_walk_iff)

section \<open>Operations keep the specifications\<close>

definition keeps :: "swarm_impl \<Rightarrow> swarm_impl \<Rightarrow> bool" where
  "keeps s s' \<longleftrightarrow>
     (\<forall>k. map_option tr_spec (omap_find k (im_tasks s')) =
          map_option tr_spec (omap_find k (im_tasks s))) \<and>
     (\<forall>w. map_option wr_spec (find_core w s') = map_option wr_spec (find_core w s))"

lemma keeps_refl [simp]: "keeps s s"
  by (simp add: keeps_def)

lemma keeps_trans: "keeps s s' \<Longrightarrow> keeps s' s'' \<Longrightarrow> keeps s s''"
  by (simp add: keeps_def)

lemma keeps_same:
  "im_tasks s' = im_tasks s \<Longrightarrow> (\<And>w. find_core w s' = find_core w s) \<Longrightarrow> keeps s s'"
  by (simp add: keeps_def)

text \<open>The loops read the maps through these views only.\<close>

definition wave_spec_at :: "swarm_impl \<Rightarrow> swarm_wave_id \<Rightarrow> swarm_wave_spec option" where
  "wave_spec_at s w = map_option wr_spec (omap_find w (im_waves s))"

definition task_spec_at :: "swarm_impl \<Rightarrow> swarm_task_id \<Rightarrow> swarm_task_spec option" where
  "task_spec_at s k = map_option tr_spec (omap_find k (im_tasks s))"

lemma keeps_views:
  assumes "keeps s s'"
  shows "wave_spec_at s' = wave_spec_at s" and "task_spec_at s' = task_spec_at s"
  using assms
  by (simp_all add: keeps_def fun_eq_iff wave_spec_at_def task_spec_at_def find_core_def
      option.map_comp comp_def)

lemma wave_parent_view:
  "wave_parent s w =
     (case wave_spec_at s w of None \<Rightarrow> None
      | Some sp \<Rightarrow>
          (case pm_parent_wave_id (ws_parent sp) of Some p \<Rightarrow> Some p
           | None \<Rightarrow>
               (case pm_parent_task_id (ws_parent sp) of None \<Rightarrow> None
                | Some t \<Rightarrow> (case task_spec_at s t of None \<Rightarrow> None | Some tsp \<Rightarrow> ts_wave_id tsp))))"
  by (auto simp: wave_parent_def wave_spec_at_def task_spec_at_def Let_def split: option.split)

lemma task_tree_walk_view:
  "task_tree_walk s visited k a =
     (if k \<in> visited then False
      else case task_spec_at s k of None \<Rightarrow> False
        | Some sp \<Rightarrow>
            (if (case pm_parent_wave_id (ts_parent sp) of None \<Rightarrow> False
                 | Some w \<Rightarrow> wave_is_descendant s w a True) then True
             else case pm_parent_task_id (ts_parent sp) of None \<Rightarrow> False
               | Some p \<Rightarrow>
                   (case task_spec_at s p of None \<Rightarrow> False
                    | Some psp \<Rightarrow>
                        if (case ts_wave_id psp of None \<Rightarrow> False
                            | Some w \<Rightarrow> wave_is_descendant s w a True) then True
                        else task_tree_walk s (insert k visited) p a)))"
  by (subst task_tree_walk.simps)
    (simp add: task_spec_at_def Let_def split: option.split)

lemma keeps_descendant:
  assumes "keeps s s'"
  shows "wave_is_descendant s' w a incl = wave_is_descendant s w a incl"
proof -
  have "parent_of s' = parent_of s"
    unfolding fun_eq_iff parent_of_def wave_parent_view keeps_views [OF assms] by simp
  then show ?thesis by (simp add: wave_is_descendant_iff)
qed

definition task_link :: "swarm_impl \<Rightarrow> swarm_task_id \<Rightarrow> swarm_task_id option" where
  "task_link s k =
     (case task_spec_at s k of None \<Rightarrow> None
      | Some sp \<Rightarrow>
          (case pm_parent_task_id (ts_parent sp) of None \<Rightarrow> None
           | Some p \<Rightarrow> if task_spec_at s p = None then None else Some p))"

text \<open>The task names a parent wave of the tree, or its parent task belongs to one.\<close>

definition task_hit :: "swarm_impl \<Rightarrow> swarm_wave_id \<Rightarrow> swarm_task_id \<Rightarrow> bool" where
  "task_hit s a k \<longleftrightarrow>
     (\<exists>sp w. task_spec_at s k = Some sp \<and> pm_parent_wave_id (ts_parent sp) = Some w \<and>
        wave_is_descendant s w a True) \<or>
     (\<exists>p psp w. task_link s k = Some p \<and> task_spec_at s p = Some psp \<and> ts_wave_id psp = Some w \<and>
        wave_is_descendant s w a True)"

interpretation task_links: linked_walk "set (map fst (im_tasks s))" "task_link s" "task_hit s a"
  "\<lambda>visited k. task_tree_walk s visited k a" for s a
proof unfold_locales
  fix k p visited
  show "finite (set (map fst (im_tasks s)))"
    by simp
  show "k \<in> set (map fst (im_tasks s))" if "task_link s k = Some p"
    using that by (auto simp: task_link_def task_spec_at_def split: option.splits dest: omap_find_key)
  show "task_tree_walk s visited k a \<longleftrightarrow> k \<notin> visited \<and> (task_hit s a k \<or>
      (case task_link s k of None \<Rightarrow> False | Some y \<Rightarrow> task_tree_walk s (insert k visited) y a))"
    by (subst task_tree_walk_view) (auto simp: task_hit_def task_link_def split: option.split)
qed

lemma keeps_tree_walk:
  assumes "keeps s s'"
  shows "task_tree_walk s' {} k a = task_tree_walk s {} k a"
proof -
  have "task_link s' = task_link s" "task_hit s' a = task_hit s a"
    unfolding fun_eq_iff task_link_def task_hit_def keeps_views [OF assms] keeps_descendant [OF assms]
    by simp_all
  then show ?thesis by (simp add: task_links.walk_iff)
qed

lemma keeps_belongs:
  assumes "keeps s s'" and "tr_spec t' = tr_spec t" and "tr_id t' = tr_id t"
  shows "task_belongs_to_wave_tree s' t' a incl = task_belongs_to_wave_tree s t a incl"
  unfolding task_belongs_to_wave_tree_def keeps_descendant [OF assms(1)] keeps_tree_walk [OF assms(1)]
    assms(2,3) by (rule refl)

lemma keeps_cancel_selects:
  assumes "keeps s s'" and "tr_spec t' = tr_spec t" and "tr_id t' = tr_id t"
  shows "cancel_selects s' ws wid desc t' = cancel_selects s ws wid desc t"
  using assms(2) by (simp add: cancel_selects_def keeps_belongs [OF assms])

end
