(* ===== verification/SwarmWaves.thy ===== *)
theory SwarmWaves
  imports SwarmTree
begin

text \<open>
  The state of a wave is maintained step by step (\<open>set_wave_state\<close>, \<open>recompute_wave\<close>). This
  theory shows that between two operations it equals a function of the wave's tasks and of its
  cancellation flag, \<open>wave_state_spec\<close>, and that a cancelled wave holds no task that could still
  be admitted.
\<close>

section \<open>Specification\<close>

definition wave_task :: "swarm_impl \<Rightarrow> swarm_wave_id \<Rightarrow> (task_record \<Rightarrow> bool) \<Rightarrow> bool" where
  "wave_task s w P \<longleftrightarrow> (\<exists>k t. omap_find k (im_tasks s) = Some t \<and> in_wave w t \<and> P t)"

abbreviation unfinished :: "task_record \<Rightarrow> bool" where
  "unfinished t \<equiv> \<not> is_terminal (tr_state t)"

abbreviation attempted :: "task_record \<Rightarrow> bool" where
  "attempted t \<equiv> 0 < tr_attempts_started t"

definition wave_state_spec :: "swarm_impl \<Rightarrow> swarm_wave_id \<Rightarrow> bool \<Rightarrow> swarm_wave_state" where
  "wave_state_spec s w cancelled =
     (if cancelled then if wave_task s w unfinished then wave_cancelling else wave_cancelled
      else if wave_task s w unfinished
        then if wave_task s w attempted then wave_running else wave_pending
      else if \<not> wave_task s w (\<lambda>_. True) then wave_pending
      else if wave_task s w (\<lambda>t. tr_state t = task_failed) then wave_failed
      else if wave_task s w (\<lambda>t. tr_state t = task_timed_out) then wave_timed_out
      else if wave_task s w (\<lambda>t. tr_state t = task_budget_exhausted) then wave_budget_exhausted
      else if wave_task s w (\<lambda>t. tr_state t = task_cancelled) then wave_cancelled
      else wave_succeeded)"

definition wave_flags :: "swarm_wave_id \<Rightarrow> swarm_impl \<Rightarrow> (swarm_wave_state \<times> bool \<times> bool) option" where
  "wave_flags w s =
     map_option (\<lambda>r. (wr_state r, wr_cancellation_requested r, wr_has_started r)) (omap_find w (im_waves s))"

text \<open>With \<open>lax\<close> the state of a wave under cancellation may be out of date, as it is inside
  \<open>cancel_wave\<close> before its last loop.\<close>

definition wave_ok :: "bool \<Rightarrow> swarm_impl \<Rightarrow> swarm_wave_id \<Rightarrow> bool" where
  "wave_ok lax s w \<longleftrightarrow> (\<forall>st c b. wave_flags w s = Some (st, c, b) \<longrightarrow>
     b = wave_task s w attempted \<and> (lax \<and> c \<or> st = wave_state_spec s w c))"

definition settled :: "task_record \<Rightarrow> bool" where
  "settled t \<longleftrightarrow> is_terminal (tr_state t) \<or> (tr_state t = task_running \<and> tr_cancellation_requested t)"

definition cancel_ok :: "swarm_impl \<Rightarrow> swarm_wave_id \<Rightarrow> bool" where
  "cancel_ok s w \<longleftrightarrow> (\<forall>r k t. find_core w s = Some r \<longrightarrow> wr_cancellation_requested r \<longrightarrow>
     omap_find k (im_tasks s) = Some t \<longrightarrow> in_wave w t \<longrightarrow> settled t)"

definition swarm_wave_inv :: "swarm_impl \<Rightarrow> bool" where
  "swarm_wave_inv s \<longleftrightarrow> swarm_inv s \<and> (\<forall>w. wave_ok False s w \<and> cancel_ok s w)"

section \<open>Frames\<close>

lemma wave_task_has: "omap_inv (im_tasks s) \<Longrightarrow> wave_has s w P \<longleftrightarrow> wave_task s w (\<lambda>t. P (tr_state t))"
  by (auto simp: wave_has_def wave_task_def list_ex_iff om.find_iff_entry)

lemma wave_task_any: "wave_task s w P \<Longrightarrow> wave_task s w (\<lambda>_. True)"
  by (auto simp: wave_task_def)

lemma wave_task_cong: "im_tasks s' = im_tasks s \<Longrightarrow> wave_task s' w P = wave_task s w P"
  by (simp add: wave_task_def)

lemma wave_state_spec_cong:
  "im_tasks s' = im_tasks s \<Longrightarrow> wave_state_spec s' w c = wave_state_spec s w c"
  by (simp add: wave_state_spec_def wave_task_cong [of s' s])

lemma wave_ok_eqI:
  assumes "\<And>P. wave_task s' w P = wave_task s w P" and "wave_flags w s' = wave_flags w s"
  shows "wave_ok lax s' w = wave_ok lax s w"
  unfolding wave_ok_def wave_state_spec_def assms by (rule refl)

lemma wave_ok_cong:
  assumes "im_tasks s' = im_tasks s" and "wave_flags w s' = wave_flags w s"
  shows "wave_ok lax s' w = wave_ok lax s w"
  by (rule wave_ok_eqI [OF wave_task_cong [OF assms(1)] assms(2)])

lemma wave_flags_frame [simp]:
  "wave_flags w (emit ty now tid wid aid at tst wst ast tk dl msg s) = wave_flags w s"
  "wave_flags w (upd_task k f s) = wave_flags w s"
  "wave_flags w (upd_agent k h s) = wave_flags w s"
  "wave_flags w (upd_telemetry g s) = wave_flags w s"
  "wave_flags w (finish_emit oc now r t s) = wave_flags w s"
  by (simp_all add: wave_flags_def)

lemma wave_flags_set_wave_state:
  "wave_flags w (set_wave_state wid st now r s) =
     (if w = wid then map_option (\<lambda>(_, x). (st, x)) (wave_flags w s) else wave_flags w s)"
  by (simp add: wave_flags_def set_wave_state_find option.map_comp comp_def)

lemma wave_flags_recompute_other [simp]:
  "w \<noteq> wid \<Longrightarrow> wave_flags w (recompute_wave wid now s) = wave_flags w s"
  by (simp add: wave_flags_def recompute_wave_find)

text \<open>Replacing a task that is not of the wave.\<close>

lemma wave_task_modify:
  assumes "im_tasks s' = omap_modify tid (\<lambda>_. u) (im_tasks s)"
    and "omap_find tid (im_tasks s) = Some t"
  shows "wave_task s' w P \<longleftrightarrow>
    in_wave w u \<and> P u \<or> (\<exists>k t. k \<noteq> tid \<and> omap_find k (im_tasks s) = Some t \<and> in_wave w t \<and> P t)"
  using assms by (auto simp: wave_task_def omap_simps)

lemma wave_task_split:
  assumes "omap_find tid (im_tasks s) = Some t"
  shows "wave_task s w P \<longleftrightarrow>
    in_wave w t \<and> P t \<or> (\<exists>k t. k \<noteq> tid \<and> omap_find k (im_tasks s) = Some t \<and> in_wave w t \<and> P t)"
proof -
  have "wave_task s w P \<longleftrightarrow>
      (\<exists>t. omap_find tid (im_tasks s) = Some t \<and> in_wave w t \<and> P t) \<or>
      (\<exists>k t. k \<noteq> tid \<and> omap_find k (im_tasks s) = Some t \<and> in_wave w t \<and> P t)"
    unfolding wave_task_def by metis
  with assms show ?thesis by simp
qed

lemma wave_task_other:
  assumes "im_tasks s' = omap_modify tid (\<lambda>_. u) (im_tasks s)"
    and "omap_find tid (im_tasks s) = Some t" and "\<not> in_wave w t" and "tr_spec u = tr_spec t"
  shows "wave_task s' w P = wave_task s w P"
  using assms(3,4) by (simp add: wave_task_modify [OF assms(1,2)] wave_task_split [OF assms(2)] in_wave_def)

lemma wave_ok_other:
  assumes "im_tasks s' = omap_modify tid (\<lambda>_. u) (im_tasks s)"
    and "omap_find tid (im_tasks s) = Some t" and "\<not> in_wave w t" and "tr_spec u = tr_spec t"
    and "wave_flags w s' = wave_flags w s"
  shows "wave_ok lax s' w = wave_ok lax s w"
  using wave_task_other [OF assms(1-4)] assms(5) by (rule wave_ok_eqI)

section \<open>Recomputation\<close>

lemma recompute_wave_ok:
  assumes "omap_inv (im_tasks s)"
    and "\<And>st c b. wave_flags w s = Some (st, c, b) \<Longrightarrow> b = wave_task s w attempted \<and>
      (\<not> c \<and> (\<not> wave_task s w (\<lambda>_. True) \<or> wave_task s w unfinished \<and> \<not> b) \<longrightarrow> st = wave_pending)"
  shows "wave_ok lax (recompute_wave w now s) w"
proof -
  have "st = wave_state_spec s w c \<and> b = wave_task s w attempted"
    if f: "wave_flags w (recompute_wave w now s) = Some (st, c, b)" for st c b
  proof -
    obtain r where r: "omap_find w (im_waves s) = Some r" "st = wave_target s w r"
      "c = wr_cancellation_requested r" "b = wr_has_started r"
      using f by (auto simp: wave_flags_def recompute_wave_find)
    then have pre: "b = wave_task s w attempted"
      "\<not> c \<and> (\<not> wave_task s w (\<lambda>_. True) \<or> wave_task s w unfinished \<and> \<not> b) \<longrightarrow> wr_state r = wave_pending"
      using assms(2) [of "wr_state r" c b] by (simp_all add: wave_flags_def)
    then show ?thesis
      unfolding r(2) wave_target_def recompute_target_def Let_def wave_state_spec_def
        wave_task_has [OF assms(1)] r(3,4)
      using wave_task_any [of s w unfinished] by simp
  qed
  then show ?thesis
    unfolding wave_ok_def wave_state_spec_cong [OF recompute_wave_frame(3)]
      wave_task_cong [OF recompute_wave_frame(3)] by blast
qed

lemma wave_ok_recompute_ok:
  assumes "omap_inv (im_tasks s)" and "wave_ok True s w"
  shows "wave_ok lax (recompute_wave w now s) w"
proof (rule recompute_wave_ok [OF assms(1)])
  fix st c b
  assume "wave_flags w s = Some (st, c, b)"
  with assms(2) have "b = wave_task s w attempted" "c \<or> st = wave_state_spec s w c"
    by (auto simp: wave_ok_def)
  then show "b = wave_task s w attempted \<and>
      (\<not> c \<and> (\<not> wave_task s w (\<lambda>_. True) \<or> wave_task s w unfinished \<and> \<not> b) \<longrightarrow> st = wave_pending)"
    using wave_task_any [of s w unfinished] by (auto simp: wave_state_spec_def)
qed

lemma wave_ok_lax: "wave_ok False s w \<Longrightarrow> wave_ok lax s w"
  by (auto simp: wave_ok_def)

lemma wave_ok_recompute:
  assumes "omap_inv (im_tasks s)" and "wave_ok lax s w"
  shows "wave_ok lax (recompute_wave wid now s) w"
proof (cases "w = wid")
  case True
  have "wave_ok True s w"
    using assms(2) by (auto simp: wave_ok_def)
  with True assms(1) show ?thesis
    by (simp add: wave_ok_recompute_ok)
next
  case False
  then show ?thesis
    using assms(2) wave_ok_cong [of "recompute_wave wid now s" s w lax] by simp
qed

text \<open>A task that is not terminal is replaced, and its wave recomputed.\<close>

lemma wave_ok_replace:
  assumes "omap_inv (im_tasks s)" and "omap_find tid (im_tasks s) = Some t" and "unfinished t"
    and "im_tasks c = omap_modify tid (\<lambda>_. u) (im_tasks s)" and "tr_spec u = tr_spec t"
    and "tr_attempts_started u = tr_attempts_started t"
    and "wave_flags w c = wave_flags w s" and "wave_ok lax s w"
  shows "wave_ok lax (recompute_of t now c) w"
proof (cases "in_wave w t")
  case True
  have inv: "omap_inv (im_tasks c)"
    using assms(1,4) by (simp add: omap_simps)
  have att: "wave_task c w attempted = wave_task s w attempted"
    using assms(5,6) True
    by (simp add: wave_task_modify [OF assms(4,2)] wave_task_split [OF assms(2)] in_wave_def)
  have nt: "wave_task s w unfinished" "wave_task c w (\<lambda>_. True)"
    using assms(3,5) True
    by (simp_all add: wave_task_modify [OF assms(4,2)] wave_task_split [OF assms(2)] in_wave_def)
  have "wave_ok lax (recompute_wave w now c) w"
  proof (rule recompute_wave_ok [OF inv])
    fix st c' b
    assume "wave_flags w c = Some (st, c', b)"
    then have "wave_flags w s = Some (st, c', b)"
      using assms(7) by simp
    then have "b = wave_task s w attempted" "c' \<or> st = wave_state_spec s w c'"
      using assms(8) by (auto simp: wave_ok_def)
    then show "b = wave_task c w attempted \<and>
      (\<not> c' \<and> (\<not> wave_task c w (\<lambda>_. True) \<or> wave_task c w unfinished \<and> \<not> b) \<longrightarrow> st = wave_pending)"
      using att nt by (auto simp: wave_state_spec_def)
  qed
  with True show ?thesis
    by (simp add: recompute_of_def in_wave_def)
next
  case False
  have "wave_flags w (recompute_of t now c) = wave_flags w s"
    using False assms(7) by (auto simp: recompute_of_def in_wave_def split: option.split)
  then show ?thesis
    using wave_ok_other [OF _ assms(2) False assms(5), of "recompute_of t now c"] assms(4,8) by simp
qed

section \<open>The operations keep the specification\<close>

lemma wave_flags_finish_core:
  assumes "omap_find tid (im_tasks s) = Some t"
  shows "wave_flags w (finish_core tid oc now r t s) = wave_flags w s"
proof -
  let ?s = "upd_task tid (\<lambda>t'. t'\<lparr>tr_tokens_used_total := tr_tokens_used_total t' + tr_tokens_used t\<rparr>) s"
  have f: "omap_find tid (im_tasks ?s) = Some (t\<lparr>tr_tokens_used_total := tr_tokens_used_total t + tr_tokens_used t\<rparr>)"
    using assms by (simp add: omap_simps)
  have "wr_state (dec_wave x) = wr_state x" for x
    by (simp add: dec_wave_def)
  moreover have "im_waves (finish_core tid oc now r t s) = im_waves (release_resources tid ?s)"
    by (simp add: finish_core_def Let_def)
  ultimately show ?thesis
    by (simp add: wave_flags_def release_resources_effect [OF f] omap_simps option.map_comp comp_def
        split: option.split)
qed

lemma running_unfinished: "running t \<Longrightarrow> unfinished t"
  by (simp add: running_def is_terminal_def)

lemma waiting_unfinished: "waiting t \<Longrightarrow> unfinished t"
  by (auto simp: waiting_def is_terminal_def)

lemma wave_ok_finish_attempt:
  assumes "swarm_inv s" and "omap_find tid (im_tasks s) = Some t" and "running t" and "wave_ok lax s w"
  shows "wave_ok lax (snd (finish_attempt tid oc now r s)) w"
  unfolding finish_attempt_split [OF assms(2)]
proof (rule wave_ok_replace [OF swarm_invD(6) [OF assms(1)] assms(2) running_unfinished [OF assms(3)]])
  show "im_tasks (finish_emit oc now r t (finish_core tid oc now r t s)) =
      omap_modify tid (\<lambda>_. finished_task oc now r (im_next_queue_sequence s) t) (im_tasks s)"
    by (simp add: finish_core_tasks [OF swarm_invD(6) [OF assms(1)] assms(2)])
qed (simp_all add: wave_flags_finish_core [OF assms(2)] assms(4))

lemma wave_ok_minor_update:
  assumes "swarm_inv s" and "\<And>t. omap_find tid (im_tasks s) = Some t \<Longrightarrow> minor_update t (f t)"
    and "im_tasks s' = omap_modify tid f (im_tasks s)" and "wave_flags w s' = wave_flags w s"
  shows "wave_ok lax s' w = wave_ok lax s w"
proof -
  have "wave_task s' w P = wave_task s w P" if "\<And>t t'. minor_update t t' \<Longrightarrow> P t' = P t" for P
  proof (cases "omap_find tid (im_tasks s)")
    case None
    then have "im_tasks s' = im_tasks s"
      using assms(3) by (simp add: omap_modify_absent omap_find_def map_of_eq_None_iff)
    then show ?thesis by (rule wave_task_cong)
  next
    case (Some t)
    then have "im_tasks s' = omap_modify tid (\<lambda>_. f t) (im_tasks s)"
      unfolding assms(3) by (rule omap_modify_const [OF swarm_invD(6) [OF assms(1)]])
    then show ?thesis
      using Some assms(2) [OF Some] that [OF assms(2) [OF Some]]
      by (simp add: wave_task_modify wave_task_split in_wave_def minor_update_def)
  qed
  then show ?thesis
    using assms(4) by (simp add: wave_ok_def wave_state_spec_def minor_update_def)
qed

lemma wave_ok_cancel_task_locked:
  assumes "swarm_inv s" and "wave_ok lax s w"
  shows "wave_ok lax (snd (cancel_task_locked tid reason now s)) w"
proof (cases "omap_find tid (im_tasks s)")
  case None
  then show ?thesis using assms by (simp add: cancel_task_locked_def)
next
  case (Some t)
  consider (fin) "is_terminal (tr_state t)" | (wait) "\<not> is_terminal (tr_state t)" "waiting t"
    | (run) "\<not> is_terminal (tr_state t)" "\<not> waiting t" by blast
  then show ?thesis
  proof cases
    case fin
    then show ?thesis using Some assms by (simp add: cancel_task_locked_def)
  next
    case wait
    let ?f = "\<lambda>t. t\<lparr>tr_cancellation_requested := True, tr_state := task_cancelled,
      tr_retry_not_before := None, tr_terminal_reason := reason\<rparr>"
    let ?c = "emit ev_task_cancelled now (tr_id t) (value_or (ts_wave_id (tr_spec t)) 0) 0
      (tr_attempts_started t) (Some task_cancelled) None None (tr_tokens_used t) 0 reason
      (upd_telemetry (\<lambda>tl. tl\<lparr>tl_final_cancelled := tl_final_cancelled tl + 1\<rparr>) (upd_task tid ?f s))"
    have "wave_ok lax (recompute_of t now ?c) w"
    proof (rule wave_ok_replace [OF swarm_invD(6) [OF assms(1)] Some wait(1)])
      show "im_tasks ?c = omap_modify tid (\<lambda>_. ?f t) (im_tasks s)"
        by simp (rule omap_modify_const [OF swarm_invD(6) [OF assms(1)] Some])
    qed (simp_all add: assms(2))
    then show ?thesis
      using Some wait
      by (simp add: cancel_task_locked_def Let_def waiting_def recompute_of_def split: option.splits)
  next
    case run
    let ?f = "\<lambda>t. t\<lparr>tr_cancellation_requested := True\<rparr>"
    have "wave_ok lax (snd (cancel_task_locked tid reason now s)) w = wave_ok lax s w"
      if "\<not> tr_cancellation_requested t"
      by (rule wave_ok_minor_update [OF assms(1), of tid ?f])
        (use Some run that in \<open>auto simp: minor_update_def cancel_task_locked_def Let_def waiting_def\<close>)
    with run show ?thesis
      using Some assms(2) by (auto simp: cancel_task_locked_def Let_def waiting_def)
  qed
qed

lemma wave_ok_expire_candidates:
  "swarm_inv s \<Longrightarrow> wave_ok lax s w \<Longrightarrow> wave_ok lax (snd (expire_candidates now tids s)) w"
proof (induction now tids s rule: expire_candidates.induct)
  case (1 now s)
  then show ?case by simp
next
  case (2 now tid tids s)
  show ?case
  proof (cases "omap_find tid (im_tasks s)")
    case None
    with 2 show ?thesis by simp
  next
    case (Some t)
    show ?thesis
    proof (cases "running t")
      case True
      then show ?thesis
        using 2(3) [OF Some _ refl refl] swarm_inv_finish_attempt [OF "2.prems"(1) Some True] Some
          wave_ok_finish_attempt [OF "2.prems"(1) Some True "2.prems"(2)]
        by (simp add: Let_def case_prod_beta running_def)
    next
      case False
      with 2 Some show ?thesis by (simp add: running_def)
    qed
  qed
qed

lemma wave_ok_expire_running:
  "swarm_inv s \<Longrightarrow> wave_ok lax s w \<Longrightarrow> wave_ok lax (snd (expire_running now s)) w"
  by (simp add: expire_running_def wave_ok_expire_candidates)

lemma wave_flags_admit_task:
  "wave_flags w (admit_task now aid tid t s) =
     (if in_wave w t then map_option (\<lambda>(st, c, b). (wave_running, c, True)) (wave_flags w s)
      else wave_flags w s)"
  by (auto simp: admit_task_def Let_def in_wave_def wave_flags_def set_wave_state_find omap_simps
      option.map_comp comp_def split: option.split)

lemma wave_ok_admit_task:
  assumes "swarm_inv s" and "omap_find tid (im_tasks s) = Some t" and "task_eligible now s t"
    and "wave_ok lax s w"
  shows "wave_ok lax (admit_task now aid tid t s) w"
proof -
  let ?s = "admit_task now aid tid t s"
  note tasks = admit_task_effect(1) [OF swarm_invD(6) [OF assms(1)] assms(2), of now aid]
  have own: "wave_ok False ?s w" if w: "in_wave w t"
  proof -
    have "\<not> c" if "wave_flags w s = Some (st, c, b)" for st c b
      using assms(3) that w
      by (auto simp: task_eligible_def in_wave_def wave_flags_def split: option.splits)
    moreover have "wave_task ?s w unfinished" "wave_task ?s w attempted"
      using w by (simp_all add: wave_task_modify [OF tasks assms(2)] in_wave_def is_terminal_def)
    ultimately show ?thesis
      using w by (auto simp: wave_ok_def wave_flags_admit_task wave_state_spec_def)
  qed
  show ?thesis
  proof (cases "in_wave w t")
    case True
    then show ?thesis using own wave_ok_lax by blast
  next
    case False
    then show ?thesis
      using wave_ok_other [OF tasks assms(2) False, of lax] assms(4) by (simp add: wave_flags_admit_task)
  qed
qed

section \<open>What operations leave alone\<close>

definition wave_view :: "swarm_wave_id \<Rightarrow> swarm_impl \<Rightarrow> (swarm_wave_spec \<times> bool) option" where
  "wave_view w s = map_option (\<lambda>r. (wr_spec r, wr_cancellation_requested r)) (find_core w s)"

definition steady :: "swarm_impl \<Rightarrow> swarm_impl \<Rightarrow> bool" where
  "steady s s' \<longleftrightarrow> task_spec_at s' = task_spec_at s \<and> (\<forall>w. wave_view w s' = wave_view w s)"

lemma steady_refl [simp]: "steady s s"
  by (simp add: steady_def)

lemma steady_trans: "steady s s' \<Longrightarrow> steady s' s'' \<Longrightarrow> steady s s''"
  by (simp add: steady_def)

lemma steady_modify:
  assumes "im_tasks s' = omap_modify tid f (im_tasks s)"
    and "\<And>t. omap_find tid (im_tasks s) = Some t \<Longrightarrow> tr_spec (f t) = tr_spec t"
    and "\<And>w. wave_view w s' = wave_view w s"
  shows "steady s s'"
  using assms by (auto simp: steady_def task_spec_at_def fun_eq_iff omap_simps option.map_comp comp_def
      intro: option.map_cong)

lemma steady_same: "im_tasks s' = im_tasks s \<Longrightarrow> (\<And>w. wave_view w s' = wave_view w s) \<Longrightarrow> steady s s'"
  by (simp add: steady_def task_spec_at_def fun_eq_iff)

lemma steady_keeps:
  assumes "steady s s'"
  shows "keeps s s'"
proof -
  have "map_option wr_spec (find_core w x) = map_option fst (wave_view w x)" for w x
    by (simp add: wave_view_def option.map_comp comp_def)
  with assms show ?thesis
    by (simp add: steady_def keeps_def task_spec_at_def fun_eq_iff)
qed

lemma settled_evolves: "task_evolves t t' \<Longrightarrow> settled t \<Longrightarrow> settled t'"
  by (auto simp: task_evolves_def settled_def is_terminal_def)

lemma cancel_ok_view:
  "cancel_ok s w \<longleftrightarrow> (\<forall>sp k t. wave_view w s = Some (sp, True) \<longrightarrow>
     omap_find k (im_tasks s) = Some t \<longrightarrow> in_wave w t \<longrightarrow> settled t)"
  by (auto simp: cancel_ok_def wave_view_def)

lemma cancel_ok_steady:
  assumes "steady s s'" and "tasks_evolve s s'" and "cancel_ok s w"
  shows "cancel_ok s' w"
  unfolding cancel_ok_def
proof (intro allI impI)
  fix r k t'
  assume r: "find_core w s' = Some r" "wr_cancellation_requested r"
    and t': "omap_find k (im_tasks s') = Some t'" "in_wave w t'"
  obtain q where q: "find_core w s = Some q" "wr_cancellation_requested q"
    using assms(1) r unfolding steady_def wave_view_def by (metis (mono_tags, lifting) map_option_eq_Some snd_conv)
  have "task_spec_at s k = Some (tr_spec t')"
    using assms(1) t'(1) by (metis steady_def task_spec_at_def option.simps(9))
  then obtain t where t: "omap_find k (im_tasks s) = Some t" "tr_spec t = tr_spec t'"
    by (auto simp: task_spec_at_def)
  then have "settled t"
    using assms(3) q t' by (auto simp: cancel_ok_def in_wave_def)
  moreover have "task_evolves t t'"
    using assms(2) t(1) t'(1) by (fastforce simp: tasks_evolve_def)
  ultimately show "settled t'"
    by (blast intro: settled_evolves)
qed

lemma wave_view_frame [simp]:
  "wave_view w (emit ty now tid wid aid at tst wst ast tk dl msg s) = wave_view w s"
  "wave_view w (upd_task k f s) = wave_view w s"
  "wave_view w (upd_agent k h s) = wave_view w s"
  "wave_view w (upd_telemetry g s) = wave_view w s"
  "wave_view w (finish_emit oc now r t s) = wave_view w s"
  "wave_view w (recompute_of t now s) = wave_view w s"
  "wave_view w (recompute_wave wid now s) = wave_view w s"
  "wave_view w (set_wave_state wid st now r s) = wave_view w s"
  by (simp_all add: wave_view_def)

lemma steady_finish_attempt:
  assumes "swarm_inv s" and "omap_find tid (im_tasks s) = Some t"
  shows "steady s (snd (finish_attempt tid oc now r s))"
proof (rule steady_modify [OF finish_attempt_tasks [OF swarm_invD(6) [OF assms(1)] assms(2)]])
  show "wave_view w (snd (finish_attempt tid oc now r s)) = wave_view w s" for w
    unfolding finish_attempt_split [OF assms(2)]
    by (simp add: wave_view_def finish_core_effect [OF assms(2)] option.map_comp comp_def)
qed (use assms(2) in auto)

lemma steady_expire_candidates:
  "swarm_inv s \<Longrightarrow> steady s (snd (expire_candidates now tids s))"
proof (induction now tids s rule: expire_candidates.induct)
  case (1 now s)
  then show ?case by simp
next
  case (2 now tid tids s)
  show ?case
  proof (cases "omap_find tid (im_tasks s)")
    case None
    with 2 show ?thesis by simp
  next
    case (Some t)
    show ?thesis
    proof (cases "running t")
      case True
      then show ?thesis
        using 2(3) [OF Some _ refl refl] swarm_inv_finish_attempt [OF "2.prems"(1) Some True] Some
          steady_trans [OF steady_finish_attempt [OF "2.prems" Some]]
        by (simp add: Let_def case_prod_beta running_def)
    next
      case False
      with 2 Some show ?thesis by (simp add: running_def)
    qed
  qed
qed

lemma steady_expire_running: "swarm_inv s \<Longrightarrow> steady s (snd (expire_running now s))"
  by (simp add: expire_running_def steady_expire_candidates)

lemma steady_cancel_task_locked: "steady s (snd (cancel_task_locked tid reason now s))"
proof (cases "omap_find tid (im_tasks s)")
  case None
  then show ?thesis by (simp add: cancel_task_locked_def)
next
  case (Some t)
  then show ?thesis
    by (auto simp: cancel_task_locked_def Let_def intro!: steady_modify split: option.split)
qed

lemma steady_cancel_wave_tasks:
  "steady s (snd (cancel_wave_tasks ws wid desc reason now tids s))"
proof (induction tids arbitrary: s)
  case Nil
  then show ?case by simp
next
  case (Cons tid tids)
  then show ?case
    using steady_trans [OF steady_cancel_task_locked Cons.IH]
    by (simp add: Let_def case_prod_beta split: option.split)
qed

lemma steady_admit_task:
  assumes "swarm_inv s" and "omap_find tid (im_tasks s) = Some t"
  shows "steady s (admit_task now aid tid t s)"
  by (rule steady_modify [OF admit_task_effect(1) [OF swarm_invD(6) [OF assms(1)] assms(2)]])
    (use assms(2) in \<open>auto simp: wave_view_def admit_task_effect(3) [OF swarm_invD(6) [OF assms(1)] assms(2)]
       option.map_comp comp_def\<close>)

lemma swarm_inv_task_wave:
  assumes "swarm_inv s" and "omap_find k (im_tasks s) = Some t" and "in_wave w t"
  shows "find_core w s \<noteq> None"
  using swarm_inv_task(1) [OF assms(1,2)] assms(3) unfolding task_ok_def by blast

section \<open>Cancelling a wave\<close>

lemma wave_view_request:
  "wave_view w (request_wave_cancel reason now wid s) =
     (if w = wid then map_option (\<lambda>x. (fst x, True)) (wave_view w s) else wave_view w s)"
  by (auto simp: request_wave_cancel_def Let_def wave_view_def find_core_def set_wave_state_find
      omap_simps option.map_comp comp_def split: option.split)

lemma wave_ok_request:
  assumes "wave_ok lax s w"
  shows "wave_ok (lax \<or> w = wid) (request_wave_cancel reason now wid s) w"
proof -
  have flags: "\<exists>st'. wave_flags w (request_wave_cancel reason now wid s) =
      (if w = wid then map_option (\<lambda>(st, c, b). (st', True, b)) (wave_flags w s) else wave_flags w s)"
    by (auto simp: request_wave_cancel_def Let_def wave_flags_def set_wave_state_find omap_simps
        option.map_comp comp_def split: option.split)
  show ?thesis
    unfolding wave_ok_def wave_task_cong [OF request_wave_cancel_tasks]
      wave_state_spec_cong [OF request_wave_cancel_tasks]
  proof (intro allI impI)
    fix st c b
    assume "wave_flags w (request_wave_cancel reason now wid s) = Some (st, c, b)"
    with flags obtain st0 c0 where f: "wave_flags w s = Some (st0, c0, b)"
      and eq: "w = wid \<longrightarrow> c" "w \<noteq> wid \<longrightarrow> st0 = st \<and> c0 = c"
      by (cases "w = wid"; cases "wave_flags w s") auto
    have "b = wave_task s w attempted" "lax \<and> c0 \<or> st0 = wave_state_spec s w c0"
      using assms f unfolding wave_ok_def by blast+
    with eq show "b = wave_task s w attempted \<and> ((lax \<or> w = wid) \<and> c \<or> st = wave_state_spec s w c)"
      by blast
  qed
qed

lemma request_fold:
  fixes reason now
  assumes "swarm_inv s"
  defines "s' \<equiv> \<lambda>ws. fold (request_wave_cancel reason now) ws s"
  shows "swarm_inv (s' ws)" and "im_tasks (s' ws) = im_tasks s"
    and "wave_view w (s' ws) =
      (if w \<in> set ws then map_option (\<lambda>x. (fst x, True)) (wave_view w s) else wave_view w s)"
    and "wave_ok False s w \<Longrightarrow> wave_ok (w \<in> set ws) (s' ws) w"
proof -
  show "swarm_inv (s' ws)"
    using assms(1) unfolding s'_def by (intro swarm_inv_fold swarm_inv_request_wave_cancel)
  show "im_tasks (s' ws) = im_tasks s"
    unfolding s'_def by (simp add: fold_same_tasks)
  show "wave_view w (s' ws) =
      (if w \<in> set ws then map_option (\<lambda>x. (fst x, True)) (wave_view w s) else wave_view w s)"
    unfolding s'_def
    by (induction ws rule: rev_induct)
      (auto simp: wave_view_request option.map_comp comp_def case_prod_beta)
  show "wave_ok False s w \<Longrightarrow> wave_ok (w \<in> set ws) (s' ws) w"
    unfolding s'_def
  proof (induction ws rule: rev_induct)
    case (snoc x xs)
    then show ?case
      using wave_ok_request [of "w \<in> set xs" "fold (request_wave_cancel reason now) xs s" w x reason now]
      by (simp add: disj_commute)
  qed simp
qed

lemma wave_ok_cancel_wave_tasks:
  "swarm_inv s \<Longrightarrow> wave_ok lax s w \<Longrightarrow>
   wave_ok lax (snd (cancel_wave_tasks ws wid desc reason now tids s)) w"
  by (induction tids arbitrary: s)
    (auto simp: Let_def case_prod_beta swarm_inv_cancel_task_locked wave_ok_cancel_task_locked
      split: option.split)

lemma cancel_task_locked_settles:
  assumes "swarm_inv s" and "omap_find tid (im_tasks s) = Some t"
  shows "\<exists>t'. omap_find tid (im_tasks (snd (cancel_task_locked tid reason now s))) = Some t' \<and> settled t'"
proof -
  have "tr_state t = task_queued \<or> tr_state t = task_retry_wait \<or> tr_state t = task_running \<or>
      is_terminal (tr_state t)"
    by (cases "tr_state t") (simp_all add: is_terminal_def)
  then show ?thesis
    using assms(2)
    by (auto simp: cancel_task_locked_def Let_def omap_simps settled_def is_terminal_def
        split: option.split)
qed

lemma cancel_wave_tasks_settles:
  "swarm_inv s \<Longrightarrow> k \<in> set tids \<Longrightarrow> omap_find k (im_tasks s) = Some t \<Longrightarrow>
   cancel_selects s ws wid desc t \<Longrightarrow>
   \<exists>t'. omap_find k (im_tasks (snd (cancel_wave_tasks ws wid desc reason now tids s))) = Some t' \<and> settled t'"
proof (induction tids arbitrary: s t)
  case Nil
  then show ?case by simp
next
  case (Cons tid tids)
  let ?s1 = "snd (cancel_task_locked tid reason now s)"
  have inv1: "swarm_inv ?s1"
    using Cons.prems(1) by (rule swarm_inv_cancel_task_locked)
  obtain t1 where t1: "omap_find k (im_tasks ?s1) = Some t1" "task_evolves t t1"
    using cancel_task_locked_evolves Cons.prems(3) unfolding tasks_evolve_def by blast
  then have sel1: "cancel_selects ?s1 ws wid desc t1"
    using keeps_cancel_selects [OF steady_keeps [OF steady_cancel_task_locked], of t1 t] Cons.prems(4)
    by (simp add: task_evolves_def)
  show ?case
  proof (cases "k = tid")
    case True
    then have "settled t1"
      using cancel_task_locked_settles [OF Cons.prems(1,3), of reason now] t1(1) by auto
    moreover obtain t2 where "omap_find k (im_tasks (snd (cancel_wave_tasks ws wid desc reason now tids ?s1))) = Some t2"
      "task_evolves t1 t2"
      using cancel_wave_tasks_evolves t1(1) unfolding tasks_evolve_def by blast
    ultimately show ?thesis
      using True Cons.prems(3,4) settled_evolves by (auto simp: Let_def case_prod_beta)
  next
    case False
    then have k: "k \<in> set tids"
      using Cons.prems(2) by simp
    show ?thesis
      using Cons.IH [OF inv1 k t1(1) sel1] Cons.IH [OF Cons.prems(1) k Cons.prems(3,4)]
      by (simp add: Let_def case_prod_beta split: option.split)
  qed
qed

lemma recompute_fold:
  assumes "omap_inv (im_tasks s)"
  shows "im_tasks (fold (\<lambda>w. recompute_wave w now) ws s) = im_tasks s"
    and "find_core w (fold (\<lambda>w. recompute_wave w now) ws s) = find_core w s"
    and "wave_ok (w \<in> set ws) s w \<Longrightarrow> wave_ok False (fold (\<lambda>w. recompute_wave w now) ws s) w"
proof -
  show tasks: "im_tasks (fold (\<lambda>w. recompute_wave w now) ws s) = im_tasks s" for ws
    by (simp add: fold_same_tasks)
  show "find_core w (fold (\<lambda>w. recompute_wave w now) ws s) = find_core w s"
    by (induction ws rule: rev_induct) simp_all
  have keep: "wave_ok lax (fold (\<lambda>w. recompute_wave w now) ws s) w" if "wave_ok lax s w" for lax ws
    by (induction ws rule: rev_induct) (use that assms tasks in \<open>simp_all add: wave_ok_recompute\<close>)
  show "wave_ok (w \<in> set ws) s w \<Longrightarrow> wave_ok False (fold (\<lambda>w. recompute_wave w now) ws s) w"
  proof (induction ws rule: rev_induct)
    case (snoc x xs)
    let ?s = "fold (\<lambda>w. recompute_wave w now) xs s"
    show ?case
    proof (cases "w = x")
      case True
      then have "wave_ok True ?s w"
        using snoc.prems keep [of True xs] by simp
      then show ?thesis
        using True tasks [of xs] assms by (simp add: wave_ok_recompute_ok)
    next
      case False
      then show ?thesis
        using snoc tasks [of xs] assms by (simp add: wave_ok_recompute)
    qed
  qed simp
qed

lemma cancel_wave_split:
  fixes desc reason
  assumes "omap_find wid (im_waves (snd (expire_running now s0))) \<noteq> None"
  defines "s \<equiv> snd (expire_running now s0)"
  defines "ws \<equiv> selected_waves s wid desc"
  defines "s1 \<equiv> fold (request_wave_cancel reason now) ws s"
  defines "s2 \<equiv> snd (cancel_wave_tasks ws wid desc reason now (map fst (im_tasks s1)) s1)"
  shows "snd (cancel_wave wid reason now desc s0) = fold (\<lambda>w. recompute_wave w now) ws s2"
  using assms by (auto simp: cancel_wave_def Let_def case_prod_beta)

text \<open>After \<open>cancel_wave\<close> every task that the call selects is settled.\<close>

lemma cancel_wave_settles:
  assumes "swarm_inv s0" and "omap_find wid (im_waves (snd (expire_running now s0))) \<noteq> None"
  defines "s \<equiv> snd (expire_running now s0)"
  assumes "omap_find k (im_tasks s) = Some t"
    and "cancel_selects s (selected_waves s wid desc) wid desc t"
  shows "\<exists>t'. omap_find k (im_tasks (snd (cancel_wave wid reason now desc s0))) = Some t' \<and> settled t'"
proof -
  let ?ws = "selected_waves s wid desc"
  let ?s1 = "fold (request_wave_cancel reason now) ?ws s"
  have inv: "swarm_inv s"
    using assms(1) by (simp add: s_def swarm_inv_expire_running)
  note req = request_fold [OF inv, where reason = reason and now = now and ws = ?ws]
  have fst_eq: "map_option wr_spec (find_core w x) = map_option fst (wave_view w x)" for w x
    by (simp add: wave_view_def option.map_comp comp_def)
  have "keeps s ?s1"
    by (simp add: keeps_def req fst_eq option.map_comp comp_def)
  then have "cancel_selects ?s1 ?ws wid desc t"
    using assms(5) keeps_cancel_selects by blast
  moreover have "k \<in> set (map fst (im_tasks ?s1))"
    using assms(4) req(2) omap_find_key by metis
  ultimately show ?thesis
    using cancel_wave_tasks_settles [OF req(1)] assms(4)
    by (simp add: cancel_wave_split [OF assms(2)] recompute_fold(1) fold_same_tasks req(2) flip: s_def)
qed

lemma swarm_wave_inv_cancel_wave:
  assumes "swarm_wave_inv s0"
  shows "swarm_wave_inv (snd (cancel_wave wid reason now desc s0))"
proof -
  define s where "s = snd (expire_running now s0)"
  let ?ws = "selected_waves s wid desc"
  let ?s1 = "fold (request_wave_cancel reason now) ?ws s"
  let ?s2 = "snd (cancel_wave_tasks ?ws wid desc reason now (map fst (im_tasks ?s1)) ?s1)"
  have inv0: "swarm_inv s0" and ok0: "\<And>w. wave_ok False s0 w" "\<And>w. cancel_ok s0 w"
    using assms by (simp_all add: swarm_wave_inv_def)
  have inv: "swarm_inv s"
    using inv0 by (simp add: s_def swarm_inv_expire_running)
  have ok: "wave_ok False s w" "cancel_ok s w" for w
    using inv0 ok0 cancel_ok_steady [OF steady_expire_running expire_running_evolves]
    by (auto simp: s_def wave_ok_expire_running)
  note req = request_fold [OF inv, where reason = reason and now = now and ws = ?ws]
  show ?thesis
  proof (cases "omap_find wid (im_waves s) = None")
    case True
    then show ?thesis
      using inv ok by (simp add: cancel_wave_def Let_def swarm_wave_inv_def flip: s_def)
  next
    case False
    have res: "snd (cancel_wave wid reason now desc s0) = fold (\<lambda>w. recompute_wave w now) ?ws ?s2"
      using cancel_wave_split [of wid now s0] False by (simp add: s_def)
    have inv2: "omap_inv (im_tasks ?s2)"
      using req(1) swarm_inv_cancel_wave_tasks swarm_invD(6) by blast
    have "wave_ok False (fold (\<lambda>w. recompute_wave w now) ?ws ?s2) w" for w
      by (intro recompute_fold(3) inv2 wave_ok_cancel_wave_tasks req(1) req(4) ok)
    moreover have "cancel_ok (fold (\<lambda>w. recompute_wave w now) ?ws ?s2) w" for w
    proof (cases "w \<in> set ?ws")
      case True
      have "settled t" if t: "omap_find k (im_tasks ?s2) = Some t" "in_wave w t" for k t
      proof -
        have "task_spec_at s = task_spec_at ?s2"
          using steady_cancel_wave_tasks req(2) by (simp add: steady_def task_spec_at_def fun_eq_iff)
        then have "task_spec_at s k = Some (tr_spec t)"
          using t(1) by (simp add: task_spec_at_def)
        then obtain t0 where t0: "omap_find k (im_tasks s) = Some t0" "tr_spec t0 = tr_spec t"
          by (auto simp: task_spec_at_def)
        then have "cancel_selects s ?ws wid desc t0"
          using True t(2) by (simp add: cancel_selects_def in_wave_def)
        then show ?thesis
          using cancel_wave_settles [OF inv0, of wid now k t0 desc reason] False t0(1) t(1)
          by (simp add: res recompute_fold(1) inv2 flip: s_def)
      qed
      then show ?thesis
        by (simp add: cancel_ok_def recompute_fold(1) inv2)
    next
      case False
      then have "cancel_ok ?s1 w"
        using ok(2) [of w] by (simp add: cancel_ok_view req(2,3))
      then have "cancel_ok ?s2 w"
        by (rule cancel_ok_steady [OF steady_cancel_wave_tasks cancel_wave_tasks_evolves])
      then show ?thesis
        by (simp add: cancel_ok_def recompute_fold(1,2) inv2)
    qed
    moreover have "swarm_inv (snd (cancel_wave wid reason now desc s0))"
      using inv0 by (rule swarm_inv_cancel_wave)
    ultimately show ?thesis
      by (simp add: swarm_wave_inv_def res)
  qed
qed

section \<open>Every operation\<close>

lemma swarm_wave_invI:
  assumes "swarm_wave_inv s" and "swarm_inv s'" and "steady s s'" and "tasks_evolve s s'"
    and "\<And>w. wave_ok False s w \<Longrightarrow> wave_ok False s' w"
  shows "swarm_wave_inv s'"
  using assms cancel_ok_steady [OF assms(3,4)] by (simp add: swarm_wave_inv_def)

lemma swarm_wave_inv_same:
  assumes "swarm_wave_inv s" and "swarm_inv s'" and "im_tasks s' = im_tasks s"
    and "im_waves s' = im_waves s"
  shows "swarm_wave_inv s'"
  using assms(1,2)
proof (rule swarm_wave_invI)
  show "steady s s'"
    using assms(3,4) by (intro steady_same) (simp_all add: wave_view_def find_core_def)
  show "tasks_evolve s s'"
    using assms(3) by (rule tasks_evolve_same)
  show "wave_ok False s w \<Longrightarrow> wave_ok False s' w" for w
    using wave_ok_cong [OF assms(3)] assms(4) by (simp add: wave_flags_def)
qed

lemma swarm_wave_invD: "swarm_wave_inv s \<Longrightarrow> swarm_inv s"
  by (simp add: swarm_wave_inv_def)

lemma swarm_wave_inv_emit [simp]:
  "swarm_wave_inv (emit ty now tid wid aid at tst wst ast tk dl msg s) = swarm_wave_inv s"
  (is "?l = ?r")
proof
  show "?l \<Longrightarrow> ?r"
    by (rule swarm_wave_inv_same [of "emit ty now tid wid aid at tst wst ast tk dl msg s"])
      (auto dest: swarm_wave_invD)
  show "?r \<Longrightarrow> ?l"
    by (rule swarm_wave_inv_same [of s]) (auto dest: swarm_wave_invD)
qed

lemma swarm_wave_inv_finish_attempt:
  assumes "swarm_wave_inv s" and "omap_find tid (im_tasks s) = Some t" and "running t"
    and "tr_cancellation_requested t \<Longrightarrow> oc = outcome_cancelled"
  shows "swarm_wave_inv (snd (finish_attempt tid oc now r s))"
proof -
  note inv = swarm_wave_invD [OF assms(1)]
  show ?thesis
    using assms(1) swarm_inv_finish_attempt [OF inv assms(2,3)] steady_finish_attempt [OF inv assms(2)]
      finish_attempt_evolves [OF inv assms(2-4)] wave_ok_finish_attempt [OF inv assms(2,3)]
    by (rule swarm_wave_invI)
qed

lemma swarm_wave_inv_expire_running:
  assumes "swarm_wave_inv s"
  shows "swarm_wave_inv (snd (expire_running now s))"
proof -
  note inv = swarm_wave_invD [OF assms]
  show ?thesis
    using assms swarm_inv_expire_running [OF inv] steady_expire_running [OF inv]
      expire_running_evolves [OF inv] wave_ok_expire_running [OF inv]
    by (rule swarm_wave_invI)
qed

lemma swarm_wave_inv_tokens:
  assumes "swarm_wave_inv s" and "omap_find tid (im_tasks s) = Some t" and "running t"
  shows "swarm_wave_inv (upd_task tid (\<lambda>t. t\<lparr>tr_tokens_used := n\<rparr>) s)" (is "swarm_wave_inv ?s")
  using assms(1)
proof (rule swarm_wave_invI)
  have minor: "minor_update u (u\<lparr>tr_tokens_used := n\<rparr>)" for u
    by (simp add: minor_update_def)
  show "swarm_inv ?s"
    using swarm_wave_invD [OF assms(1)] minor by (rule swarm_inv_minor_update)
  show "steady s ?s"
    by (rule steady_modify [of _ tid "\<lambda>t. t\<lparr>tr_tokens_used := n\<rparr>"]) simp_all
  show "tasks_evolve s ?s"
    by (rule tasks_evolve_modify [of _ tid "\<lambda>t. t\<lparr>tr_tokens_used := n\<rparr>"])
      (use assms in \<open>auto simp: task_evolves_def is_terminal_def running_def\<close>)
  show "wave_ok False s w \<Longrightarrow> wave_ok False ?s w" for w
    using wave_ok_minor_update [where tid = tid and s' = ?s and w = w,
        OF swarm_wave_invD [OF assms(1)] minor] by simp
qed

lemma swarm_wave_inv_telemetry:
  assumes "swarm_wave_inv s" and "finals (g (im_telemetry s)) = finals (im_telemetry s)"
    and "tl_tasks_submitted (g (im_telemetry s)) = tl_tasks_submitted (im_telemetry s)"
  shows "swarm_wave_inv (upd_telemetry g s)"
  using assms(1) by (rule swarm_wave_inv_same)
    (use swarm_wave_invD [OF assms(1)] assms(2,3) in \<open>simp_all add: swarm_inv_upd_telemetry\<close>)

lemma swarm_wave_inv_cancel_task:
  assumes "swarm_wave_inv s"
  shows "swarm_wave_inv (snd (cancel_task tid reason now s))"
proof -
  let ?s = "snd (expire_running now s)"
  have s: "swarm_wave_inv ?s"
    using assms by (rule swarm_wave_inv_expire_running)
  have "swarm_wave_inv (snd (cancel_task_locked tid reason now ?s))"
    using s swarm_inv_cancel_task_locked [OF swarm_wave_invD [OF s]] steady_cancel_task_locked
      cancel_task_locked_evolves wave_ok_cancel_task_locked [OF swarm_wave_invD [OF s]]
    by (rule swarm_wave_invI)
  with s show ?thesis
    by (simp add: cancel_task_def Let_def case_prod_beta split: option.split)
qed

lemma swarm_wave_inv_admit_next:
  assumes "swarm_wave_inv s0"
  shows "swarm_wave_inv (snd (admit_next now s0))"
proof -
  define s where "s = snd (expire_running now s0)"
  have s: "swarm_wave_inv s"
    using assms unfolding s_def by (rule swarm_wave_inv_expire_running)
  note inv = swarm_wave_invD [OF s]
  have keep: "steady s (admit_task now aid tid t s)" "tasks_evolve s (admit_task now aid tid t s)"
    "wave_ok False s w \<Longrightarrow> wave_ok False (admit_task now aid tid t s) w"
    if "select_task now s (im_tasks s) None = Some (tid, t)" for aid tid t w
    using select_task_Some [OF that] swarm_invD(6) [OF inv] inv
    by (auto simp: om.find_iff_entry intro!: steady_admit_task admit_task_evolves wave_ok_admit_task)
  have "swarm_inv (snd (admit_next now s0))"
    using assms swarm_wave_invD swarm_inv_admit_next by blast
  with s show ?thesis
    using keep
    by (auto simp: admit_next_def Let_def simp flip: s_def split: option.split if_splits
        intro: swarm_wave_invI)
qed

lemma swarm_wave_inv_report_progress:
  assumes "swarm_wave_inv s0"
  shows "swarm_wave_inv (snd (report_progress tid tk now s0))"
proof -
  define s where "s = snd (expire_running now s0)"
  have s: "swarm_wave_inv s"
    using assms unfolding s_def by (rule swarm_wave_inv_expire_running)
  have fin: "finals (tl\<lparr>tl_progress_reports := n\<rparr>) = finals tl" for tl :: swarm_telemetry and n
    by (simp add: finals_def fun_eq_iff split: swarm_task_state.split)
  show ?thesis
  proof (cases "omap_find tid (im_tasks s)")
    case None
    then show ?thesis using s by (simp add: report_progress_def Let_def flip: s_def)
  next
    case (Some t)
    show ?thesis
      using s Some swarm_wave_inv_tokens [OF s Some, of tk]
      by (auto simp: report_progress_def Let_def swarm_wave_inv_telemetry fin running_def omap_simps
          simp flip: s_def intro!: swarm_wave_inv_finish_attempt)
  qed
qed

lemma swarm_wave_inv_complete_task:
  assumes "swarm_wave_inv s0"
  shows "swarm_wave_inv (snd (complete_task tid c now s0))"
proof -
  define s where "s = snd (expire_running now s0)"
  have s: "swarm_wave_inv s"
    using assms unfolding s_def by (rule swarm_wave_inv_expire_running)
  show ?thesis
  proof (cases "omap_find tid (im_tasks s)")
    case None
    then show ?thesis using s by (simp add: complete_task_def Let_def flip: s_def)
  next
    case (Some t)
    show ?thesis
      using s Some swarm_wave_inv_tokens [OF s Some, of "tc_tokens_used c"]
      by (auto simp: complete_task_def Let_def case_prod_beta running_def omap_simps
          completion_outcome_def simp flip: s_def intro!: swarm_wave_inv_finish_attempt)
  qed
qed

lemma swarm_wave_inv_create_wave:
  assumes "swarm_wave_inv s"
  shows "swarm_wave_inv (snd (create_wave spec now s))"
proof -
  let ?w = "\<lparr>wr_id = im_next_wave_id s, wr_spec = spec, wr_state = wave_pending,
    wr_cancellation_requested = False, wr_has_started = False, wr_active_tasks = 0\<rparr>"
  let ?s = "s\<lparr>im_next_wave_id := Suc (im_next_wave_id s),
    im_waves := omap_emplace (im_next_wave_id s) ?w (im_waves s)\<rparr>"
  note inv = swarm_wave_invD [OF assms]
  note fresh = fresh_keys(2) [OF swarm_invD(1) [OF inv]]
  have find: "omap_find w (omap_emplace (im_next_wave_id s) ?w (im_waves s)) =
      (if w = im_next_wave_id s then Some ?w else omap_find w (im_waves s))" for w
    using fresh omap_find_emplace [of "im_waves s"] swarm_invD(1) [OF inv]
    by (simp add: find_core_def inv_maps_def omap_inv_def)
  have none: "\<not> wave_task s (im_next_wave_id s) P" for P
    using swarm_inv_task_wave [OF inv] fresh unfolding wave_task_def by blast
  have tasks: "wave_task ?s w P = wave_task s w P" for w P
    by (simp add: wave_task_def)
  have "wave_ok False ?s w \<and> cancel_ok ?s w" for w
  proof (cases "w = im_next_wave_id s")
    case True
    then show ?thesis
      by (simp add: wave_ok_def cancel_ok_def wave_flags_def find_core_def find wave_state_spec_def
          tasks none)
  next
    case False
    then have "wave_ok False ?s w = wave_ok False s w" "cancel_ok ?s w = cancel_ok s w"
      using wave_ok_eqI [of ?s w s False] tasks
      by (simp_all add: wave_flags_def find cancel_ok_def find_core_def)
    with assms show ?thesis by (simp add: swarm_wave_inv_def)
  qed
  then have "swarm_wave_inv ?s"
    using swarm_inv_new_wave [OF inv, of spec] by (simp add: swarm_wave_inv_def)
  with assms show ?thesis
    by (simp add: create_wave_def Let_def)
qed

lemma wave_task_new:
  assumes "omap_inv (im_tasks s)" and "omap_find tid (im_tasks s) = None"
    and "im_tasks s' = omap_emplace tid t (im_tasks s)"
  shows "wave_task s' w P \<longleftrightarrow> in_wave w t \<and> P t \<or> wave_task s w P"
proof -
  have "wave_task s' w P \<longleftrightarrow> (\<exists>k u. (if k = tid then u = t else omap_find k (im_tasks s) = Some u) \<and>
      in_wave w u \<and> P u)"
    using assms by (simp add: wave_task_def omap_find_emplace) (metis option.inject)
  then show ?thesis
    using assms(2) unfolding wave_task_def by (metis option.distinct(1))
qed

lemma swarm_wave_inv_new_task:
  assumes "swarm_wave_inv s" and "submit_error spec s = None" and "swarm_inv s'"
    and "im_tasks s' = omap_emplace (im_next_task_id s) t (im_tasks s)" and "im_waves s' = im_waves s"
    and "tr_spec t = spec" and "tr_state t = task_queued" and "tr_attempts_started t = 0"
  shows "swarm_wave_inv s'"
proof -
  note inv = swarm_invD [OF swarm_wave_invD [OF assms(1)]]
  note new = wave_task_new [OF inv(6) fresh_keys(3) [OF inv(1)] assms(4)]
  have own: "\<not> wr_cancellation_requested r \<and> \<not> is_terminal_wave (wr_state r)"
    if "in_wave w t" "omap_find w (im_waves s) = Some r" for w r
    using assms(2,6) that
    by (auto simp: submit_error_def Let_def in_wave_def split: if_splits option.splits)
  have "wave_ok False s' w" for w
  proof (cases "in_wave w t")
    case True
    have ok: "wave_ok False s w"
      using assms(1) by (simp add: swarm_wave_inv_def)
    have st: "wave_task s' w unfinished" "wave_task s' w attempted = wave_task s w attempted"
      using True assms(7,8) by (auto simp: new is_terminal_def)
    have "wr_state r = wave_state_spec s' w (wr_cancellation_requested r) \<and>
        wr_has_started r = wave_task s' w attempted" if r: "omap_find w (im_waves s) = Some r" for r
    proof -
      have "wr_state r = wave_state_spec s w False" "wr_has_started r = wave_task s w attempted"
        using ok r own [OF True r] by (auto simp: wave_ok_def wave_flags_def)
      then show ?thesis
        using st own [OF True r] wave_task_any [of s w attempted]
        by (auto simp: wave_state_spec_def is_terminal_wave_def split: if_splits)
    qed
    then show ?thesis
      using assms(5) by (auto simp: wave_ok_def wave_flags_def)
  next
    case False
    have "wave_ok False s w"
      using assms(1) by (simp add: swarm_wave_inv_def)
    moreover have "wave_ok False s' w = wave_ok False s w"
      using False assms(5) by (intro wave_ok_eqI) (simp_all add: new wave_flags_def)
    ultimately show ?thesis by simp
  qed
  moreover have "cancel_ok s' w" for w
  proof -
    have "cancel_ok s w"
      using assms(1) by (simp add: swarm_wave_inv_def)
    moreover have "\<not> wr_cancellation_requested r"
      if "in_wave w t" "find_core w s' = Some r" for r
      using own that assms(5) by (auto simp: find_core_def)
    moreover have "find_core w s' = find_core w s"
      using assms(5) by (simp add: find_core_def)
    ultimately show ?thesis
      using fresh_keys(3) [OF inv(1)]
      by (auto simp: cancel_ok_def assms(4) omap_find_emplace [OF inv(6)] split: if_splits)
  qed
  ultimately show ?thesis
    using assms(3) by (simp add: swarm_wave_inv_def)
qed

lemma swarm_wave_inv_submit:
  assumes "swarm_wave_inv s"
  shows "swarm_wave_inv (snd (submit spec now s))"
proof (cases "submit_error spec s")
  case None
  show ?thesis
    by (rule swarm_wave_inv_new_task [OF assms None swarm_inv_submit [OF swarm_wave_invD [OF assms]]],
        simp_all add: submit_def None Let_def) simp_all
next
  case (Some err)
  show ?thesis
    using assms swarm_inv_submit [OF swarm_wave_invD [OF assms]]
    by (rule swarm_wave_inv_same) (simp_all add: submit_def Some)
qed

lemma swarm_wave_inv_init:
  assumes "swarm_init s"
  shows "swarm_wave_inv s"
  using swarm_inv_init [OF assms] assms
  by (auto simp: swarm_init_def swarm_new_def swarm_wave_inv_def wave_ok_def cancel_ok_def
      wave_flags_def find_core_def omap_find_def split: if_splits)

lemma swarm_wave_inv_step:
  assumes "swarm_wave_inv s" and "swarm_step s s'"
  shows "swarm_wave_inv s'"
proof -
  have "swarm_inv s'"
    using swarm_inv_step swarm_wave_invD assms by blast
  with assms(2,1) show ?thesis
  proof (induction rule: swarm_step.induct)
    case (step_register_agent s aspec now)
    then show ?case
      by (auto simp: register_agent_def Let_def intro: swarm_wave_inv_same)
  next
    case (step_set_agent_state s aid st now reason)
    then show ?case
      by (auto simp: set_agent_state_def Let_def intro: swarm_wave_inv_same split: option.splits if_splits)
  qed (simp_all add: swarm_wave_inv_create_wave swarm_wave_inv_submit swarm_wave_inv_admit_next
      swarm_wave_inv_report_progress swarm_wave_inv_complete_task swarm_wave_inv_cancel_task
      swarm_wave_inv_cancel_wave tick_def swarm_wave_inv_expire_running)
qed

interpretation swarm_waves: invariant_system swarm_init swarm_step swarm_wave_inv
  by unfold_locales (auto intro: swarm_wave_inv_init swarm_wave_inv_step)

end
