(* ===== verification/SwarmEvents.thy ===== *)
theory SwarmEvents
  imports SwarmReach
begin

text \<open>
  The event history: sequence numbers are handed out without gaps, the history holds the newest
  events in order and never more than \<open>max_event_history\<close>, and the revision and the telemetry
  count every event that was ever emitted, kept or not.
\<close>

lemma trim_events_drop: "trim_events limit es = drop (length es - limit) es"
proof (induction limit es rule: trim_events.induct)
  case (2 limit e es)
  then show ?case
    by (cases "limit < length (e # es)") (simp_all add: Suc_diff_le)
qed simp

lemma trim_events_seq:
  assumes "map f es = [Suc n - min l n ..< Suc n]" and "f e = Suc n" and "0 < l"
  shows "map f (trim_events l (es @ [e])) = [Suc (Suc n) - min l (Suc n) ..< Suc (Suc n)]"
proof -
  have len: "length es = min l n"
    using arg_cong [OF assms(1), of length] by (simp del: upt_Suc)
  have "map f (es @ [e]) = [Suc n - min l n ..< Suc (Suc n)]"
    using assms(1,2) by simp
  then have "map f (trim_events l (es @ [e])) = drop (Suc (min l n) - l) [Suc n - min l n ..< Suc (Suc n)]"
    by (simp only: trim_events_drop drop_map [symmetric] length_append_singleton len)
  also have "\<dots> = [Suc (Suc n) - min l (Suc n) ..< Suc (Suc n)]"
    unfolding drop_upt using assms(3) by (intro arg_cong2 [where f = upt]) (auto simp: min_def)
  finally show ?thesis .
qed

definition ev_inv :: "swarm_impl \<Rightarrow> bool" where
  "ev_inv s \<longleftrightarrow>
     im_next_event_sequence s = Suc (im_revision s) \<and>
     tl_events_emitted (im_telemetry s) = im_revision s \<and>
     map ev_sequence (im_events s) =
       [Suc (im_revision s) - min (cfg_max_event_history (im_config s)) (im_revision s)
        ..< Suc (im_revision s)]"

lemma ev_inv_length:
  assumes "ev_inv s"
  shows "length (im_events s) = min (cfg_max_event_history (im_config s)) (im_revision s)"
proof -
  have "length (map ev_sequence (im_events s)) =
      min (cfg_max_event_history (im_config s)) (im_revision s)"
    using assms unfolding ev_inv_def by (simp add: min_def del: upt_Suc)
  then show ?thesis by simp
qed

lemma ev_inv_emit [simp, intro]:
  assumes "ev_inv s"
  shows "ev_inv (emit ty now tid wid aid at tst wst ast tk dl msg s)"
proof (cases "cfg_max_event_history (im_config s) = 0")
  case True
  with assms show ?thesis
    by (simp add: ev_inv_def emit_def Let_def)
next
  case False
  then show ?thesis
    using assms trim_events_seq [of ev_sequence "im_events s" "im_revision s"]
    by (simp add: ev_inv_def emit_def Let_def del: upt_Suc)
qed

lemma ev_inv_frame [simp]:
  "ev_inv (upd_task k f s) = ev_inv s"
  "ev_inv (upd_wave k g s) = ev_inv s"
  "ev_inv (upd_agent k h s) = ev_inv s"
  "ev_inv (s\<lparr>im_active_tasks := n\<rparr>) = ev_inv s"
  "ev_inv (s\<lparr>im_next_queue_sequence := n\<rparr>) = ev_inv s"
  "ev_inv (s\<lparr>im_next_agent_id := n, im_agents := as\<rparr>) = ev_inv s"
  "ev_inv (s\<lparr>im_next_wave_id := n, im_waves := ws\<rparr>) = ev_inv s"
  "ev_inv (s\<lparr>im_next_task_id := n, im_next_queue_sequence := m, im_tasks := ts\<rparr>) = ev_inv s"
  by (simp_all add: ev_inv_def)

lemma ev_inv_upd_telemetry:
  "tl_events_emitted (g (im_telemetry s)) = tl_events_emitted (im_telemetry s) \<Longrightarrow>
   ev_inv (upd_telemetry g s) = ev_inv s"
  by (simp add: ev_inv_def)

lemma bump_final_emitted [simp]: "tl_events_emitted (bump_final st tel) = tl_events_emitted tel"
  by (cases st) auto

lemma ev_inv_set_wave_state [simp, intro]: "ev_inv s \<Longrightarrow> ev_inv (set_wave_state wid st now r s)"
  by (auto simp: set_wave_state_def split: option.split)

lemma ev_inv_recompute_wave [simp, intro]: "ev_inv s \<Longrightarrow> ev_inv (recompute_wave wid now s)"
  by (auto simp: recompute_wave_def split: option.split)

lemma ev_inv_release_resources [simp]: "ev_inv (release_resources tid s) = ev_inv s"
  by (simp add: release_resources_def Let_def split: option.split)

lemma ev_inv_finish_attempt [simp, intro]:
  "ev_inv s \<Longrightarrow> ev_inv (snd (finish_attempt tid oc now r s))"
  by (simp add: finish_attempt_def Let_def ev_inv_upd_telemetry split: option.split)

lemma ev_inv_cancel_task_locked [simp, intro]:
  "ev_inv s \<Longrightarrow> ev_inv (snd (cancel_task_locked tid reason now s))"
  by (simp add: cancel_task_locked_def Let_def ev_inv_upd_telemetry split: option.split)

lemma ev_inv_expire_candidates: "ev_inv s \<Longrightarrow> ev_inv (snd (expire_candidates now tids s))"
  by (induction now tids s rule: expire_candidates.induct)
    (simp_all add: Let_def case_prod_beta split: option.split)

lemma ev_inv_expire_running [simp, intro]: "ev_inv s \<Longrightarrow> ev_inv (snd (expire_running now s))"
  by (simp add: expire_running_def ev_inv_expire_candidates)

lemma ev_inv_cancel_wave_tasks:
  "ev_inv s \<Longrightarrow> ev_inv (snd (cancel_wave_tasks ws wid desc reason now tids s))"
  by (induction tids arbitrary: s) (simp_all add: Let_def case_prod_beta split: option.split)

lemma ev_inv_request: "ev_inv s \<Longrightarrow> ev_inv (request_wave_cancel reason now wid s)"
  by (simp add: request_wave_cancel_def Let_def split: option.split)

lemma ev_inv_fold:
  assumes "\<And>x s. ev_inv s \<Longrightarrow> ev_inv (f x s)"
  shows "ev_inv s \<Longrightarrow> ev_inv (fold f xs s)"
  by (induction xs arbitrary: s) (simp_all add: assms)

lemma ev_inv_cancel_wave: "ev_inv s \<Longrightarrow> ev_inv (snd (cancel_wave wid reason now desc s))"
  by (simp add: cancel_wave_def Let_def case_prod_beta ev_inv_fold ev_inv_request
      ev_inv_cancel_wave_tasks)

lemma ev_inv_admit_task: "ev_inv s \<Longrightarrow> ev_inv (admit_task now aid tid t s)"
  by (simp add: admit_task_def Let_def ev_inv_upd_telemetry split: option.split)

lemma ev_inv_init: "swarm_init s \<Longrightarrow> ev_inv s"
  by (auto simp: swarm_init_def swarm_new_def ev_inv_def empty_telemetry_def split: if_splits)

lemma ev_inv_step:
  assumes "ev_inv s" and "swarm_step s s'"
  shows "ev_inv s'"
  using assms(2,1)
proof (induction rule: swarm_step.induct)
  case (step_admit_next now s)
  then show ?case
    by (simp add: admit_next_def Let_def ev_inv_admit_task split: option.split)
next
  case (step_report_progress tid tokens_used now s)
  then show ?case
    by (simp add: report_progress_def Let_def ev_inv_upd_telemetry split: option.split)
next
  case (step_complete tid completion now s)
  then show ?case
    by (simp add: complete_task_def Let_def case_prod_beta split: option.split)
next
  case (step_cancel_task tid reason now s)
  then show ?case
    by (simp add: cancel_task_def Let_def case_prod_beta split: option.split)
qed (simp_all add: register_agent_def create_wave_def submit_def set_agent_state_def tick_def Let_def
    ev_inv_cancel_wave ev_inv_upd_telemetry split: option.split)

interpretation swarm_events: invariant_system swarm_init swarm_step ev_inv
  by unfold_locales (auto intro: ev_inv_init ev_inv_step)

end
