(* ===== verification/SwarmChoice.thy ===== *)
theory SwarmChoice
  imports SwarmReach
begin

text \<open>
  Lemmas on the loops of the scheduler: which agent and which task \<open>admit_next\<close> selects, and
  what \<open>expire_running\<close> does to the tasks whose deadline has passed.
\<close>

section \<open>Selection\<close>

lemma select_agent_None: "select_agent m = None \<longleftrightarrow> (\<forall>(k, r) \<in> set m. \<not> agent_available r)"
  by (induction m rule: select_agent.induct) auto

lemma select_agent_least:
  assumes "select_agent m = Some a" and "omap_inv m" and "\<And>k r. omap_find k m = Some r \<Longrightarrow> ar_id r = k"
    and "omap_find b m = Some r" and "agent_available r"
  shows "a \<le> b"
proof -
  have ids: "\<forall>(k, r) \<in> set m. ar_id r = k"
    using assms(2,3) by (auto simp: om.find_iff_entry)
  have "(b, r) \<in> set m"
    using assms(2,4) by (simp add: om.find_iff_entry)
  then show ?thesis
    using assms(1,2,5) ids
  proof (induction m rule: select_agent.induct)
    case (2 k agent rest)
    then show ?case
      by (cases "agent_available agent") (force simp: omap_inv_def)+
  qed simp
qed

text \<open>The result is eligible, and no eligible entry is preferred to it.\<close>

lemma task_preferred_order:
  shows "\<not> task_preferred t t"
    and "task_preferred t u \<Longrightarrow> \<not> task_preferred u t"
    and "task_preferred t u \<Longrightarrow> task_preferred u v \<Longrightarrow> task_preferred t v"
    and "\<not> task_preferred u t \<Longrightarrow> \<not> task_preferred v u \<Longrightarrow> \<not> task_preferred v t"
  by (auto simp: task_preferred_def)

lemma select_task_best:
  assumes "select_task now s es sel = Some (k, t)"
    and "(j, u) \<in> set es \<and> task_eligible now s u \<or> sel = Some (j, u)"
  shows "\<not> task_preferred u t"
  using assms
proof (induction now s es sel arbitrary: u j rule: select_task.induct)
  case (1 now s sel)
  then show ?case by (simp add: task_preferred_order)
next
  case (2 now s k' t' rest sel)
  show ?case
  proof (cases "task_eligible now s t'")
    case False
    with 2 show ?thesis by auto
  next
    case el: True
    show ?thesis
    proof (cases "case sel of None \<Rightarrow> True | Some (_, t0) \<Rightarrow> task_preferred t' t0")
      case True
      then have res: "select_task now s rest (Some (k', t')) = Some (k, t)"
        using "2.prems"(1) el by simp
      have best: "\<not> task_preferred t' t"
        using 2(2) [where u = t' and j = k'] el True res by simp
      show ?thesis
      proof (cases "(j, u) \<in> set rest \<and> task_eligible now s u \<or> (j, u) = (k', t')")
        case True
        then show ?thesis
          using 2(2) [where u = u and j = j] el \<open>case sel of None \<Rightarrow> True | Some (_, t0) \<Rightarrow> task_preferred t' t0\<close> res
          by auto
      next
        case False
        then have "sel = Some (j, u)"
          using "2.prems"(2) by auto
        then have "\<not> task_preferred u t'"
          using True by (auto dest: task_preferred_order(2))
        with best show ?thesis
          by (rule task_preferred_order(4))
      qed
    next
      case False
      then obtain k0 t0 where sel: "sel = Some (k0, t0)" "\<not> task_preferred t' t0"
        by (auto split: option.splits)
      have res: "select_task now s rest sel = Some (k, t)"
        using "2.prems"(1) el False by simp
      have best: "\<not> task_preferred t0 t"
        using 2(3) [where u = t0 and j = k0] el False res sel(1) by simp
      show ?thesis
      proof (cases "(j, u) = (k', t')")
        case True
        with sel(2) best show ?thesis
          using task_preferred_order(4) by blast
      next
        case neq: False
        then show ?thesis
          using 2(3) [where u = u and j = j] "2.prems"(2) el False res by auto
      qed
    qed
  qed
qed

lemma select_task_None:
  "select_task now s es sel = None \<longleftrightarrow> sel = None \<and> (\<forall>(k, t) \<in> set es. \<not> task_eligible now s t)"
  by (induction now s es sel rule: select_task.induct) (auto split: option.splits)

section \<open>Expiry\<close>

lemma finish_attempt_find:
  assumes "omap_inv (im_tasks s)" and "omap_find tid (im_tasks s) = Some t"
  shows "omap_find k (im_tasks (snd (finish_attempt tid oc now r s))) =
    (if k = tid then Some (finished_task oc now r (im_next_queue_sequence s) t)
     else omap_find k (im_tasks s))"
  using assms by (simp add: finish_attempt_split finish_core_tasks omap_simps)

lemma finished_task_not_running: "tr_state (finished_task oc now r q t) \<noteq> task_running"
  by (cases oc) simp_all

text \<open>The reason an attempt that ends at its deadline is given.\<close>

definition expiry_reason :: "swarm_task_outcome \<Rightarrow> string" where
  "expiry_reason oc = (if oc = outcome_cancelled then ''cancelled at deadline'' else ''task deadline exceeded'')"

lemma expire_candidates_effect:
  assumes "swarm_inv s" and "distinct tids"
    and "\<And>k. k \<in> set tids \<Longrightarrow> \<exists>t. omap_find k (im_tasks s) = Some t \<and> running t"
  shows "fst (expire_candidates now tids s) = tids \<and>
    (\<forall>k. k \<notin> set tids \<longrightarrow>
       omap_find k (im_tasks (snd (expire_candidates now tids s))) = omap_find k (im_tasks s)) \<and>
    (\<forall>k \<in> set tids. \<exists>t oc r q. omap_find k (im_tasks s) = Some t \<and>
       oc = (if tr_cancellation_requested t then outcome_cancelled else outcome_timed_out) \<and> r = expiry_reason oc \<and>
       omap_find k (im_tasks (snd (expire_candidates now tids s))) = Some (finished_task oc now r q t))"
  using assms
proof (induction tids arbitrary: s)
  case Nil
  then show ?case by simp
next
  case (Cons tid tids)
  then obtain t where t: "omap_find tid (im_tasks s) = Some t" "running t"
    by fastforce
  define oc where "oc = (if tr_cancellation_requested t then outcome_cancelled else outcome_timed_out)"
  define r where "r = expiry_reason oc"
  define s1 where "s1 = snd (finish_attempt tid oc now r s)"
  have inv1: "swarm_inv s1"
    unfolding s1_def using Cons.prems(1) t by (rule swarm_inv_finish_attempt)
  have find1: "omap_find k (im_tasks s1) = (if k = tid
      then Some (finished_task oc now r (im_next_queue_sequence s) t) else omap_find k (im_tasks s))" for k
    unfolding s1_def using swarm_invD(6) [OF Cons.prems(1)] t(1) by (rule finish_attempt_find)
  have run: "expire_candidates now (tid # tids) s =
      (tid # fst (expire_candidates now tids s1), snd (expire_candidates now tids s1))"
    using t by (simp add: running_def Let_def case_prod_beta s1_def r_def oc_def expiry_reason_def)
  have "\<exists>t. omap_find k (im_tasks s1) = Some t \<and> running t" if "k \<in> set tids" for k
    using Cons.prems(2,3) that by (auto simp: find1)
  then have IH: "fst (expire_candidates now tids s1) = tids"
    "\<And>k. k \<notin> set tids \<Longrightarrow>
       omap_find k (im_tasks (snd (expire_candidates now tids s1))) = omap_find k (im_tasks s1)"
    "\<And>k. k \<in> set tids \<Longrightarrow> \<exists>t oc r q. omap_find k (im_tasks s1) = Some t \<and>
       oc = (if tr_cancellation_requested t then outcome_cancelled else outcome_timed_out) \<and> r = expiry_reason oc \<and>
       omap_find k (im_tasks (snd (expire_candidates now tids s1))) = Some (finished_task oc now r q t)"
    using Cons.IH [OF inv1] Cons.prems(2) by simp_all
  have "tid \<notin> set tids"
    using Cons.prems(2) by simp
  then have head: "omap_find tid (im_tasks (snd (expire_candidates now tids s1))) =
      Some (finished_task oc now r (im_next_queue_sequence s) t)"
    using IH(2) find1 by simp
  have tail: "\<exists>t oc r q. omap_find k (im_tasks s) = Some t \<and>
       oc = (if tr_cancellation_requested t then outcome_cancelled else outcome_timed_out) \<and> r = expiry_reason oc \<and>
       omap_find k (im_tasks (snd (expire_candidates now tids s1))) = Some (finished_task oc now r q t)"
    if "k \<in> set tids" for k
  proof -
    have "omap_find k (im_tasks s1) = omap_find k (im_tasks s)"
      using that \<open>tid \<notin> set tids\<close> find1 [of k] by auto
    then show ?thesis using IH(3) [OF that] by simp
  qed
  show ?case
    unfolding run using IH(1,2) head tail t(1) oc_def r_def by (auto simp: find1)
qed

lemma expire_running_effect:
  fixes now
  assumes "swarm_inv s"
  defines "overdue \<equiv> map fst (filter (\<lambda>(k, t). deadline_passed now t) (im_tasks s))"
  shows "fst (expire_running now s) = overdue \<and>
    (\<forall>k. k \<notin> set overdue \<longrightarrow>
       omap_find k (im_tasks (snd (expire_running now s))) = omap_find k (im_tasks s)) \<and>
    (\<forall>k \<in> set overdue. \<exists>t oc r q. omap_find k (im_tasks s) = Some t \<and>
       oc = (if tr_cancellation_requested t then outcome_cancelled else outcome_timed_out) \<and> r = expiry_reason oc \<and>
       omap_find k (im_tasks (snd (expire_running now s))) = Some (finished_task oc now r q t))"
proof -
  have inv: "omap_inv (im_tasks s)"
    using swarm_invD(6) [OF assms(1)] .
  have "tr_id t = k" if "(k, t) \<in> set (im_tasks s)" for k t
    using that swarm_inv_task(2) [OF assms(1)] inv by (simp add: om.find_iff_entry)
  then have ids: "map (\<lambda>(k, task). tr_id task) (filter (\<lambda>(k, task). deadline_passed now task) (im_tasks s)) = overdue"
    unfolding overdue_def by (intro map_cong) auto
  have "distinct overdue"
    unfolding overdue_def using om.keys_distinct [OF inv] by (rule distinct_map_filter)
  moreover have "\<exists>t. omap_find k (im_tasks s) = Some t \<and> running t" if "k \<in> set overdue" for k
    using that by (auto simp: overdue_def om.find_iff_entry [OF inv] deadline_passed_def running_def)
  ultimately show ?thesis
    unfolding expire_running_def ids by (intro expire_candidates_effect assms(1))
qed

end
