(* ===== verification/SwarmProps.thy ===== *)
theory SwarmProps
  imports SwarmWaves SwarmEvents SwarmChoice
begin

text \<open>
  The properties of the swarm scheduler, each over the definitions of \<open>SwarmCore\<close> and
  \<open>SwarmApi\<close>, with a concrete run (\<open>demo_0\<close> to \<open>demo_5\<close>) on which their hypotheses hold.
\<close>

section \<open>A concrete run\<close>

definition demo_config :: swarm_scheduler_config where
  "demo_config = \<lparr>cfg_max_concurrent = 2, cfg_max_queued_tasks = Some 4, cfg_max_event_history = 3\<rparr>"

definition no_parent :: swarm_parent_metadata where
  "no_parent = \<lparr>pm_parent_task_id = None, pm_parent_wave_id = None, pm_child_index = 0,
     pm_relation = []\<rparr>"

definition demo_policy :: swarm_retry_policy where
  "demo_policy = \<lparr>rp_max_attempts = 2, rp_retry_on_failure = True, rp_retry_on_timeout = True,
     rp_retry_on_budget_exhausted = False, rp_backoff_strategy = backoff_exponential,
     rp_backoff = 10, rp_max_backoff = 0\<rparr>"

definition demo_task :: "int \<Rightarrow> swarm_wave_id \<Rightarrow> swarm_task_spec" where
  "demo_task prio wave = \<lparr>ts_name = ''task'', ts_priority = prio, ts_wave_id = Some wave,
     ts_parent = no_parent, ts_budget = \<lparr>bu_max_tokens = Some 100, bu_max_duration = Some 5\<rparr>,
     ts_retry_policy = demo_policy\<rparr>"

definition demo_wave :: "swarm_wave_id option \<Rightarrow> swarm_wave_spec" where
  "demo_wave parent = \<lparr>ws_name = ''wave'', ws_max_concurrent = Some 2,
     ws_parent = no_parent\<lparr>pm_parent_wave_id := parent\<rparr>\<rparr>"

definition demo_0 :: swarm_impl where
  "demo_0 = (case swarm_new demo_config of Inl err \<Rightarrow> undefined | Inr s \<Rightarrow> s)"

definition demo_1 :: swarm_impl where
  "demo_1 = snd (register_agent \<lparr>as_name = ''agent'', as_max_concurrent = 1\<rparr> 0 demo_0)"

text \<open>Two waves, the second below the first, with a task of priority 3 and one of priority 7.\<close>

definition demo_2 :: swarm_impl where
  "demo_2 = snd (create_wave (demo_wave (Some 1)) 0 (snd (create_wave (demo_wave None) 0 demo_1)))"

definition demo_3 :: swarm_impl where
  "demo_3 = snd (submit (demo_task 7 2) 2 (snd (submit (demo_task 3 1) 1 demo_2)))"

definition demo_4 :: swarm_impl where
  "demo_4 = snd (admit_next 3 demo_3)"

definition demo_5 :: swarm_impl where
  "demo_5 = snd (cancel_wave 1 ''stop'' 4 True demo_4)"

lemma demo_init: "swarm_init demo_0"
  unfolding swarm_init_def demo_0_def by (rule exI [of _ demo_config]) code_simp

lemma demo_steps:
  "swarm_step\<^sup>*\<^sup>* demo_0 demo_3" "swarm_step demo_3 demo_4" "swarm_step demo_4 demo_5"
proof -
  have "swarm_step demo_0 demo_1"
    unfolding demo_1_def by (rule step_register_agent)
  then have 1: "swarm_step\<^sup>*\<^sup>* demo_0 demo_1" by blast
  have 2: "swarm_step\<^sup>*\<^sup>* demo_1 demo_2"
    unfolding demo_2_def
    by (rule rtranclp.rtrancl_into_rtrancl [OF r_into_rtranclp [of swarm_step, OF step_create_wave]
          step_create_wave])
  have 3: "swarm_step\<^sup>*\<^sup>* demo_2 demo_3"
    unfolding demo_3_def
    by (rule rtranclp.rtrancl_into_rtrancl [OF r_into_rtranclp [of swarm_step, OF step_submit]
          step_submit])
  show "swarm_step\<^sup>*\<^sup>* demo_0 demo_3"
    using 1 2 3 by (meson rtranclp_trans)
  show "swarm_step demo_3 demo_4"
    unfolding demo_4_def by (rule step_admit_next)
  show "swarm_step demo_4 demo_5"
    unfolding demo_5_def by (rule step_cancel_wave)
qed

lemma demo_run: "swarm_step\<^sup>*\<^sup>* demo_0 demo_4" "swarm_step\<^sup>*\<^sup>* demo_0 demo_5" "swarm_step\<^sup>*\<^sup>* demo_4 demo_5"
  using demo_steps by (meson rtranclp.rtrancl_into_rtrancl r_into_rtranclp)+

section \<open>Accounting and limits\<close>

text \<open>C1. In every reachable state the scheduler's counter of active tasks, the counter of each
  agent and the counter of each wave are the numbers of running tasks they stand for, and none
  exceeds its limit: \<open>max_concurrent\<close> of the scheduler, of the agent, of the wave. With a queue
  limit, the waiting and running tasks together never exceed \<open>max_queued_tasks\<close> plus
  \<open>max_concurrent\<close>, retries included.\<close>

theorem swarm_accounting:
  assumes "swarm_init s0" and "swarm_step\<^sup>*\<^sup>* s0 s"
  shows "im_active_tasks s = omap_count (\<lambda>t. tr_state t = task_running) (im_tasks s) \<and>
    im_active_tasks s \<le> cfg_max_concurrent (im_config s) \<and>
    (\<forall>a r. omap_find a (im_agents s) = Some r \<longrightarrow>
       ar_active_tasks r =
         omap_count (\<lambda>t. tr_state t = task_running \<and> tr_agent_id t = Some a) (im_tasks s) \<and>
       ar_active_tasks r \<le> as_max_concurrent (ar_spec r)) \<and>
    (\<forall>w r. omap_find w (im_waves s) = Some r \<longrightarrow>
       wr_active_tasks r =
         omap_count (\<lambda>t. tr_state t = task_running \<and> ts_wave_id (tr_spec t) = Some w) (im_tasks s) \<and>
       (\<forall>limit. ws_max_concurrent (wr_spec r) = Some limit \<longrightarrow> wr_active_tasks r \<le> limit)) \<and>
    (\<forall>limit. cfg_max_queued_tasks (im_config s) = Some limit \<longrightarrow>
       queued_task_count s + im_active_tasks s \<le> limit + cfg_max_concurrent (im_config s))"
proof -
  have eqs: "running = (\<lambda>t. tr_state t = task_running)"
    "on_agent a = (\<lambda>t. tr_state t = task_running \<and> tr_agent_id t = Some a)"
    "active_in w = (\<lambda>t. tr_state t = task_running \<and> ts_wave_id (tr_spec t) = Some w)"
    "omap_count waiting (im_tasks s) = queued_task_count s" for a w
    by (simp_all add: fun_eq_iff task_preds queued_task_count_def waiting_def [abs_def])
  have inv: "inv_counts s" "inv_limits s"
    using swarm.reachable_inv [OF assms] by (simp_all add: swarm_invD)
  note counts = inv(1) [unfolded inv_counts_def eqs] and limits = inv(2) [unfolded inv_limits_def eqs]
  have wave: "wr_active_tasks r =
        omap_count (\<lambda>t. tr_state t = task_running \<and> ts_wave_id (tr_spec t) = Some w) (im_tasks s) \<and>
      (\<forall>limit. ws_max_concurrent (wr_spec r) = Some limit \<longrightarrow> wr_active_tasks r \<le> limit)"
    if "omap_find w (im_waves s) = Some r" for w r
  proof -
    have "find_core w s = Some (wave_core r)"
      using that by (simp add: find_core_def)
    then show ?thesis
      using counts limits by fastforce
  qed
  show ?thesis
    using counts limits wave by (intro conjI) blast+
qed

theorem swarm_accounting_witness:
  "swarm_init demo_0 \<and> swarm_step\<^sup>*\<^sup>* demo_0 demo_4 \<and>
   im_active_tasks demo_4 = 1 \<and>
   omap_count (\<lambda>t. tr_state t = task_running) (im_tasks demo_4) = 1 \<and>
   queued_task_count demo_4 + im_active_tasks demo_4 \<le> 4 + 2"
proof -
  have "im_active_tasks demo_4 = 1" "cfg_max_queued_tasks (im_config demo_4) = Some 4"
    "cfg_max_concurrent (im_config demo_4) = 2"
    by code_simp+
  then show ?thesis
    using swarm_accounting [OF demo_init demo_run(1)] demo_init demo_run(1) by auto
qed

text \<open>C2. In every reachable state the state of a wave is the function \<open>wave_state_spec\<close> of its
  tasks and its cancellation flag: pending, running, cancelling, cancelled, or the aggregate of its
  terminal tasks in the order failed, timed out, budget exhausted, cancelled, succeeded. The
  incremental updates never let it go stale.\<close>

theorem swarm_wave_state:
  assumes "swarm_init s0" and "swarm_step\<^sup>*\<^sup>* s0 s" and "omap_find w (im_waves s) = Some r"
  shows "wr_state r = wave_state_spec s w (wr_cancellation_requested r)"
proof -
  have "wave_ok False s w"
    using swarm_waves.reachable_inv [OF assms(1,2)] by (simp add: swarm_wave_inv_def)
  with assms(3) show ?thesis
    by (simp add: wave_ok_def wave_flags_def)
qed

theorem swarm_wave_state_witness:
  "map_option wr_state (omap_find 2 (im_waves demo_4)) = Some wave_running \<and>
   wave_state_spec demo_4 2 False = wave_running"
proof -
  obtain r where r: "omap_find 2 (im_waves demo_4) = Some r"
  proof (cases "omap_find 2 (im_waves demo_4)")
    case None
    moreover have "omap_find 2 (im_waves demo_4) \<noteq> None"
      by code_simp
    ultimately show ?thesis by simp
  qed
  have "map_option (\<lambda>r. (wr_state r, wr_cancellation_requested r)) (omap_find 2 (im_waves demo_4)) =
      Some (wave_running, False)"
    by code_simp
  with r show ?thesis
    using swarm_wave_state [OF demo_init demo_run(1) r] by auto
qed

text \<open>C3. In every reachable state a task of a wave whose cancellation was requested is terminal,
  or it is running and has been asked to stop: no such task waits in the queue, so none is ever
  admitted again.\<close>

theorem swarm_cancelled_wave_settled:
  assumes "swarm_init s0" and "swarm_step\<^sup>*\<^sup>* s0 s"
    and "omap_find w (im_waves s) = Some r" and "wr_cancellation_requested r"
    and "omap_find k (im_tasks s) = Some t" and "ts_wave_id (tr_spec t) = Some w"
  shows "is_terminal (tr_state t) \<or> (tr_state t = task_running \<and> tr_cancellation_requested t)"
proof -
  have "cancel_ok s w"
    using swarm_waves.reachable_inv [OF assms(1,2)] by (simp add: swarm_wave_inv_def)
  with assms(3-6) show ?thesis
    by (auto simp: cancel_ok_def find_core_def settled_def in_wave_def)
qed

theorem swarm_cancelled_wave_settled_witness:
  "\<exists>t r. omap_find 2 (im_tasks demo_5) = Some t \<and> omap_find 2 (im_waves demo_5) = Some r \<and>
     wr_cancellation_requested r \<and>
     (is_terminal (tr_state t) \<or> (tr_state t = task_running \<and> tr_cancellation_requested t))"
proof -
  have "map_option (\<lambda>t. ts_wave_id (tr_spec t)) (omap_find 2 (im_tasks demo_5)) = Some (Some 2)"
    "map_option wr_cancellation_requested (omap_find 2 (im_waves demo_5)) = Some True"
    by code_simp+
  then obtain t r where "omap_find 2 (im_tasks demo_5) = Some t" "ts_wave_id (tr_spec t) = Some 2"
    "omap_find 2 (im_waves demo_5) = Some r" "wr_cancellation_requested r"
    by auto
  then show ?thesis
    using swarm_cancelled_wave_settled [OF demo_init demo_run(2)] by blast
qed

text \<open>C4. The life of one task along a run from a reachable state: it is never removed, its
  specification never changes, its attempts only grow and never pass \<open>max_attempts\<close>; a terminal
  record never changes again; and a running task whose cancellation was requested gets no further
  attempt and can only end cancelled.\<close>

theorem swarm_task_history:
  assumes "swarm_init s0" and "swarm_step\<^sup>*\<^sup>* s0 s" and "swarm_step\<^sup>*\<^sup>* s s'"
    and "omap_find k (im_tasks s) = Some t"
  shows "\<exists>t'. omap_find k (im_tasks s') = Some t' \<and> tr_spec t' = tr_spec t \<and>
    tr_attempts_started t \<le> tr_attempts_started t' \<and>
    tr_attempts_started t' \<le> rp_max_attempts (ts_retry_policy (tr_spec t)) \<and>
    (is_terminal (tr_state t) \<longrightarrow> t' = t) \<and>
    (tr_state t = task_running \<and> tr_cancellation_requested t \<longrightarrow>
       tr_attempts_started t' = tr_attempts_started t \<and>
       (tr_state t' = task_running \<and> tr_cancellation_requested t' \<or> tr_state t' = task_cancelled))"
proof -
  have inv: "swarm_inv s" "swarm_inv s'"
    using swarm.reachable_inv [OF assms(1,2)] swarm.inv_run [OF assms(3)] by blast+
  obtain t' where t': "omap_find k (im_tasks s') = Some t'" "task_evolves t t'"
    using swarm_tasks.rel_run [OF assms(3) inv(1)] assms(4) by (auto simp: tasks_evolve_def)
  have "task_ok s' t'"
    using inv(2) t'(1) by (rule swarm_inv_task)
  with t' show ?thesis
    by (auto simp: task_evolves_def task_ok_def max_attempts_def)
qed

theorem swarm_task_history_witness:
  "\<exists>t t'. omap_find 2 (im_tasks demo_4) = Some t \<and> omap_find 2 (im_tasks demo_5) = Some t' \<and>
     tr_attempts_started t = 1 \<and> tr_attempts_started t \<le> tr_attempts_started t' \<and>
     tr_attempts_started t' \<le> 2"
proof -
  have "map_option (\<lambda>t. (tr_attempts_started t, rp_max_attempts (ts_retry_policy (tr_spec t))))
      (omap_find 2 (im_tasks demo_4)) = Some (1, 2)"
    by code_simp
  then obtain t where "omap_find 2 (im_tasks demo_4) = Some t" "tr_attempts_started t = 1"
    "rp_max_attempts (ts_retry_policy (tr_spec t)) = 2"
    by auto
  then show ?thesis
    using swarm_task_history [OF demo_init demo_run(1,3)] by fastforce
qed

section \<open>Admission\<close>

text \<open>C5. When \<open>admit_next\<close> grants a lease in a reachable state, the task of the lease was eligible
  and no other eligible task has a higher priority, nor the same priority and an earlier place in
  the queue; the agent is the one with the smallest identifier among those that are idle with a
  free slot; and afterwards the task is running on that agent with one more attempt.\<close>

theorem admit_next_choice:
  assumes "swarm_init s0" and "swarm_step\<^sup>*\<^sup>* s0 s" and "admit_next now s = (Some lease, s')"
  defines "e \<equiv> snd (expire_running now s)"
  shows "\<exists>t. omap_find (le_task_id lease) (im_tasks e) = Some t \<and> task_eligible now e t \<and>
    (\<forall>k u. omap_find k (im_tasks e) = Some u \<and> task_eligible now e u \<longrightarrow>
       ts_priority (tr_spec u) < ts_priority (tr_spec t) \<or>
       ts_priority (tr_spec u) = ts_priority (tr_spec t) \<and> tr_queue_sequence t \<le> tr_queue_sequence u) \<and>
    (\<exists>r. omap_find (le_agent_id lease) (im_agents e) = Some r \<and> agent_available r) \<and>
    (\<forall>a r. omap_find a (im_agents e) = Some r \<and> agent_available r \<longrightarrow> le_agent_id lease \<le> a) \<and>
    (\<exists>t'. omap_find (le_task_id lease) (im_tasks s') = Some t' \<and> tr_state t' = task_running \<and>
       tr_agent_id t' = Some (le_agent_id lease) \<and>
       tr_attempts_started t' = tr_attempts_started t + 1 \<and> le_attempt lease = tr_attempts_started t')"
proof -
  have inv: "swarm_inv e"
    using swarm.reachable_inv [OF assms(1,2)] by (simp add: e_def swarm_inv_expire_running)
  note tasks = swarm_invD(6) [OF inv] and agents = swarm_invD(7) [OF inv]
  obtain aid tid t where sel: "select_agent (im_agents e) = Some aid"
    "select_task now e (im_tasks e) None = Some (tid, t)"
    and res: "s' = admit_task now aid tid t e" "le_task_id lease = tr_id t" "le_agent_id lease = aid"
      "le_attempt lease = tr_attempts_started t + 1"
    using assms(3) by (auto simp: admit_next_def Let_def e_def split: if_splits option.splits)
  have t: "omap_find tid (im_tasks e) = Some t" "task_eligible now e t"
    using select_task_Some [OF sel(2)] tasks by (auto simp: om.find_iff_entry)
  have id: "tr_id t = tid"
    using inv t(1) by (rule swarm_inv_task)
  have best: "\<not> task_preferred u t"
    if "omap_find k (im_tasks e) = Some u" "task_eligible now e u" for k u
    using select_task_best [OF sel(2), of k u] that tasks by (simp add: om.find_iff_entry)
  have ids: "ar_id r = k" if "omap_find k (im_agents e) = Some r" for k r
    using swarm_invD(1) [OF inv] that by (simp add: inv_maps_def)
  have "omap_find tid (im_tasks s') = Some (admitted_task now aid t)"
    by (simp add: res(1) admit_task_effect(1) [OF tasks t(1)] omap_simps t(1))
  then show ?thesis
    using t best select_agent_Some [OF sel(1) agents ids] select_agent_least [OF sel(1) agents ids]
    by (intro exI [of _ t]) (force simp: res id task_preferred_def not_less)
qed

theorem admit_next_choice_witness:
  "\<exists>lease s'. admit_next 3 demo_3 = (Some lease, s') \<and> le_task_id lease = 2 \<and> le_agent_id lease = 1 \<and>
     (\<exists>t'. omap_find 2 (im_tasks s') = Some t' \<and> tr_state t' = task_running)"
proof -
  have "map_option (\<lambda>l. (le_task_id l, le_agent_id l)) (fst (admit_next 3 demo_3)) = Some (2, 1)"
    by code_simp
  then obtain lease s' where l: "admit_next 3 demo_3 = (Some lease, s')" "le_task_id lease = 2"
    "le_agent_id lease = 1"
    by (cases "admit_next 3 demo_3") auto
  show ?thesis
    using admit_next_choice [OF demo_init demo_steps(1) l(1)] l by auto
qed

text \<open>C6. \<open>admit_next\<close> is work conserving: it grants a lease exactly when, after the expiry of
  overdue tasks, a slot of the scheduler is free, some agent is idle with a free slot, and some task
  is eligible.\<close>

theorem admit_next_work_conserving:
  "fst (admit_next now s) \<noteq> None \<longleftrightarrow>
     (let e = snd (expire_running now s)
      in im_active_tasks e < cfg_max_concurrent (im_config e) \<and>
         list_ex (\<lambda>(k, a). agent_available a) (im_agents e) \<and>
         list_ex (\<lambda>(k, t). task_eligible now e t) (im_tasks e))"
proof -
  define e where "e = snd (expire_running now s)"
  have "select_agent (im_agents e) = None \<longleftrightarrow> \<not> list_ex (\<lambda>(k, a). agent_available a) (im_agents e)"
    "select_task now e (im_tasks e) None = None \<longleftrightarrow>
      \<not> list_ex (\<lambda>(k, t). task_eligible now e t) (im_tasks e)"
    by (auto simp: select_agent_None select_task_None list_ex_iff)
  then show ?thesis
    by (auto simp: admit_next_def Let_def not_le simp flip: e_def split: option.split)
qed

section \<open>Deadlines and cancellation\<close>

lemma expired_task:
  "should_retry t outcome_cancelled \<longleftrightarrow> False"
  "should_retry t outcome_timed_out \<longleftrightarrow> tr_attempts_started t < rp_max_attempts (ts_retry_policy (tr_spec t)) \<and>
     rp_retry_on_timeout (ts_retry_policy (tr_spec t))"
  "tr_terminal_reason (finished_task oc now r q t) = r"
  "tr_tokens_used_total (finished_task oc now r q t) = tr_tokens_used_total t + tr_tokens_used t"
  by (auto simp: finished_task_def should_retry_def Let_def)

text \<open>C7. \<open>tick\<close> returns the identifiers of exactly the running tasks whose deadline has passed, in
  ascending order, and ends each of their attempts: a task whose cancellation was requested becomes
  cancelled; any other waits for a retry when its policy retries timeouts and has attempts left, and is
  timed out otherwise. Its tokens are added to the total and it holds no agent and no deadline any more.
  Every other task record stays exactly as it was, no task appears or disappears, and no overdue task
  remains.\<close>

theorem tick_expires:
  fixes now :: swarm_time_point
  assumes "swarm_init s0" and "swarm_step\<^sup>*\<^sup>* s0 s"
  defines "overdue \<equiv> map fst (filter (\<lambda>(k, t). deadline_passed now t) (im_tasks s))"
  shows "fst (tick now s) = overdue \<and> sorted_wrt (<) overdue \<and>
    (\<forall>k. k \<notin> set overdue \<longrightarrow> omap_find k (im_tasks (snd (tick now s))) = omap_find k (im_tasks s)) \<and>
    (\<forall>k t. omap_find k (im_tasks s) = Some t \<and> k \<in> set overdue \<longrightarrow>
      (\<exists>t'. omap_find k (im_tasks (snd (tick now s))) = Some t' \<and>
        tr_state t' =
          (if tr_cancellation_requested t then task_cancelled
           else if tr_attempts_started t < rp_max_attempts (ts_retry_policy (tr_spec t)) \<and>
             rp_retry_on_timeout (ts_retry_policy (tr_spec t)) then task_retry_wait
           else task_timed_out) \<and>
        tr_terminal_reason t' =
          (if tr_cancellation_requested t then ''cancelled at deadline'' else ''task deadline exceeded'') \<and>
        tr_tokens_used_total t' = tr_tokens_used_total t + tr_tokens_used t \<and>
        tr_spec t' = tr_spec t \<and> tr_attempts_started t' = tr_attempts_started t \<and>
        tr_agent_id t' = None \<and> tr_deadline t' = None)) \<and>
    (\<forall>k t'. omap_find k (im_tasks (snd (tick now s))) = Some t' \<longrightarrow> \<not> deadline_passed now t')"
proof -
  have inv: "swarm_inv s"
    using assms(1,2) by (rule swarm.reachable_inv)
  note keys = swarm_invD(6) [OF inv]
  have eff: "fst (tick now s) = overdue"
    "\<And>k. k \<notin> set overdue \<Longrightarrow> omap_find k (im_tasks (snd (tick now s))) = omap_find k (im_tasks s)"
    "\<And>k. k \<in> set overdue \<Longrightarrow> \<exists>t oc r q. omap_find k (im_tasks s) = Some t \<and>
       oc = (if tr_cancellation_requested t then outcome_cancelled else outcome_timed_out) \<and> r = expiry_reason oc \<and>
       omap_find k (im_tasks (snd (tick now s))) = Some (finished_task oc now r q t)"
    using expire_running_effect [OF inv, of now] unfolding tick_def overdue_def by blast+
  have rest: "\<not> deadline_passed now t" if "omap_find k (im_tasks s) = Some t" "k \<notin> set overdue" for k t
    using that keys by (force simp: overdue_def om.find_iff_entry)
  have "\<not> deadline_passed now t'" if "omap_find k (im_tasks (snd (tick now s))) = Some t'" for k t'
    using that eff(2,3) [of k] rest [of k t'] finished_task_not_running by (cases "k \<in> set overdue") (auto simp: deadline_passed_def)
  moreover have "sorted_wrt (<) overdue"
    unfolding overdue_def using keys unfolding omap_inv_def sorted_wrt_map by (rule sorted_wrt_filter)
  moreover have "\<exists>t'. omap_find k (im_tasks (snd (tick now s))) = Some t' \<and> tr_state t' =
        (if tr_cancellation_requested t then task_cancelled
         else if tr_attempts_started t < rp_max_attempts (ts_retry_policy (tr_spec t)) \<and>
           rp_retry_on_timeout (ts_retry_policy (tr_spec t)) then task_retry_wait else task_timed_out) \<and>
      tr_terminal_reason t' = (if tr_cancellation_requested t then ''cancelled at deadline'' else ''task deadline exceeded'') \<and>
      tr_tokens_used_total t' = tr_tokens_used_total t + tr_tokens_used t \<and>
      tr_spec t' = tr_spec t \<and> tr_attempts_started t' = tr_attempts_started t \<and> tr_agent_id t' = None \<and> tr_deadline t' = None"
    if "omap_find k (im_tasks s) = Some t" "k \<in> set overdue" for k t
    using eff(3) [OF that(2)] that(1) by (auto simp: expired_task expiry_reason_def)
  ultimately show ?thesis
    using eff(1,2) by blast
qed

theorem tick_expires_witness:
  "fst (tick 100000000 demo_4) = [2] \<and>
   (\<exists>t. omap_find 2 (im_tasks (snd (tick 100000000 demo_4))) = Some t \<and>
      \<not> deadline_passed 100000000 t \<and> tr_agent_id t = None)"
proof -
  have "fst (tick 100000000 demo_4) = [2]" "omap_find 2 (im_tasks demo_4) \<noteq> None"
    by code_simp+
  then show ?thesis
    using tick_expires [OF demo_init demo_run(1), of 100000000] by auto
qed

text \<open>C8. The loop over parent links with a visited set terminates on every state, cyclic links
  included, and decides the transitive parent relation: \<open>wave_is_descendant\<close> holds exactly for the
  waves below the ancestor, and for the ancestor itself when it is to be included.\<close>

theorem wave_descendant_transitive:
  "wave_is_descendant s w a include_candidate \<longleftrightarrow>
     include_candidate \<and> w = a \<or> (\<lambda>x y. wave_parent s x = Some y)\<^sup>+\<^sup>+ w a"
  by (simp add: wave_is_descendant_iff parent_of_def [abs_def])

text \<open>C9. After \<open>cancel_wave\<close> with descendants on a wave that exists, every task of that wave or of
  a wave below it, and every task that hangs below the tree through its parent links, is terminal or
  is running with its cancellation requested.\<close>

theorem cancel_wave_tree:
  fixes now :: swarm_time_point
  assumes "swarm_init s0" and "swarm_step\<^sup>*\<^sup>* s0 s"
  defines "e \<equiv> snd (expire_running now s)"
  assumes "omap_find wid (im_waves e) \<noteq> None" and "omap_find k (im_tasks e) = Some t"
    and "(\<exists>w. ts_wave_id (tr_spec t) = Some w \<and> wave_is_descendant e w wid True) \<or>
         (\<exists>j. (\<lambda>x y. task_link e x = Some y)\<^sup>*\<^sup>* k j \<and> task_hit e wid j)"
  shows "\<exists>t'. omap_find k (im_tasks (snd (cancel_wave wid reason now True s))) = Some t' \<and>
    (is_terminal (tr_state t') \<or> tr_state t' = task_running \<and> tr_cancellation_requested t')"
proof -
  have inv: "swarm_inv s" "swarm_inv e"
    using swarm.reachable_inv [OF assms(1,2)] by (simp_all add: e_def swarm_inv_expire_running)
  have "tr_id t = k"
    using inv(2) assms(5) by (rule swarm_inv_task)
  then have "task_belongs_to_wave_tree e t wid True"
    using assms(6) by (auto simp: task_belongs_to_wave_tree_def task_links.walk_iff)
  then have "cancel_selects e (selected_waves e wid True) wid True t"
    by (simp add: cancel_selects_def)
  then show ?thesis
    using cancel_wave_settles [OF inv(1), of wid now k t True reason] assms(4,5)
    by (simp add: e_def settled_def)
qed

theorem cancel_wave_tree_witness:
  "\<exists>t'. omap_find 2 (im_tasks (snd (cancel_wave 1 ''stop'' 4 True demo_4))) = Some t' \<and>
     (is_terminal (tr_state t') \<or> tr_state t' = task_running \<and> tr_cancellation_requested t')"
proof -
  have "map_option (\<lambda>t. ts_wave_id (tr_spec t)) (omap_find 2 (im_tasks (snd (expire_running 4 demo_4)))) =
      Some (Some 2)"
    "wave_is_descendant (snd (expire_running 4 demo_4)) 2 1 True"
    "omap_find 1 (im_waves (snd (expire_running 4 demo_4))) \<noteq> None"
    by code_simp+
  then show ?thesis
    using cancel_wave_tree [OF demo_init demo_run(1), of 1 4 2] by auto
qed

section \<open>Events\<close>

text \<open>C10. In every reachable state the history holds the newest events, at most
  \<open>max_event_history\<close> of them, with consecutive sequence numbers up to the last one handed out, and
  the revision and the telemetry count all events ever emitted.\<close>

theorem swarm_event_history:
  assumes "swarm_init s0" and "swarm_step\<^sup>*\<^sup>* s0 s"
  shows "length (im_events s) = min (cfg_max_event_history (im_config s)) (im_revision s) \<and>
    map ev_sequence (im_events s) =
      [Suc (im_revision s) - length (im_events s) ..< Suc (im_revision s)] \<and>
    im_next_event_sequence s = Suc (im_revision s) \<and>
    tl_events_emitted (im_telemetry s) = im_revision s"
proof -
  have inv: "ev_inv s"
    using assms by (rule swarm_events.reachable_inv)
  show ?thesis
    unfolding ev_inv_length [OF inv] using inv by (simp add: ev_inv_def)
qed

theorem swarm_event_history_witness:
  "length (im_events demo_4) = 3 \<and> im_revision demo_4 = 8 \<and>
   map ev_sequence (im_events demo_4) = [6 ..< 9]"
proof -
  have "im_revision demo_4 = 8" "cfg_max_event_history (im_config demo_4) = 3"
    by code_simp+
  then show ?thesis
    using swarm_event_history [OF demo_init demo_run(1)] by simp
qed

section \<open>Retries\<close>

text \<open>C11. The delay before a retry is the base delay, doubled once per completed attempt after the
  first under exponential backoff, saturated at the largest 64-bit value instead of overflowing, and
  then cut to \<open>max_backoff\<close> when that is positive.\<close>

theorem retry_delay_value:
  assumes "0 < rp_backoff p" and "rp_backoff p \<le> int64_max"
  shows "retry_delay p n =
    (let doublings = (if rp_backoff_strategy p = backoff_exponential then n - 1 else 0);
         d = min int64_max (rp_backoff p * 2 ^ doublings)
     in if 0 < rp_max_backoff p then min (rp_max_backoff p) d else d)"
proof -
  have sat: "(if 63 \<le> k \<or> drop_bit k int64_max < b then int64_max else push_bit k b) =
      min int64_max (b * 2 ^ k)" if "0 < b" for b :: int and k
  proof (cases "63 \<le> k")
    case True
    have "int64_max < 2 ^ 63"
      by (simp add: int64_max_def)
    also have "\<dots> \<le> (2 :: int) ^ k"
      using True by (rule power_increasing) simp
    also have "\<dots> \<le> b * 2 ^ k"
      using that by simp
    finally show ?thesis using True by simp
  next
    case False
    have "drop_bit k int64_max < b \<longleftrightarrow> int64_max < b * 2 ^ k"
      by (simp add: drop_bit_eq_div int_div_less_iff)
    then show ?thesis
      using False by (simp add: push_bit_eq_mult min_def)
  qed
  have low: "n - 1 = 0" if "\<not> 1 < n"
    using that by simp
  show ?thesis
    unfolding retry_delay_def Let_def sat [OF assms(1)]
    using assms low by (cases "1 < n") (simp_all add: min_def)
qed

theorem retry_delay_value_witness:
  "retry_delay demo_policy 4 = 80 \<and> retry_delay demo_policy 70 = int64_max"
  using retry_delay_value [of demo_policy 4] retry_delay_value [of demo_policy 70]
  by (simp add: demo_policy_def int64_max_def)

section \<open>Completion and submission\<close>

text \<open>C13. Completing a running task with a token count that did not go backwards is accepted in
  every reachable state: the attempt ends with the outcome of \<open>completion_outcome\<close>, in which a
  pending cancellation overrides the report and an exceeded token budget overrides success; the task
  waits for a retry exactly when its policy allows one, its tokens are added to the total, and its
  agent and its slot are free again.\<close>

theorem complete_task_effect:
  fixes now :: swarm_time_point
  assumes "swarm_init s0" and "swarm_step\<^sup>*\<^sup>* s0 s"
  defines "e \<equiv> snd (expire_running now s)"
  assumes "omap_find tid (im_tasks e) = Some t" and "tr_state t = task_running"
    and "tr_tokens_used t \<le> tc_tokens_used c"
  defines "oc \<equiv> completion_outcome t c"
  shows "\<exists>t'. omap_find tid (im_tasks (snd (complete_task tid c now s))) = Some t' \<and>
    cr_accepted (fst (complete_task tid c now s)) \<and>
    cr_retry_scheduled (fst (complete_task tid c now s)) = should_retry t oc \<and>
    tr_state t' = (if should_retry t oc then task_retry_wait else task_state_for_outcome oc) \<and>
    (tr_cancellation_requested t \<longrightarrow> tr_state t' = task_cancelled) \<and>
    (tr_state t' = task_succeeded \<longrightarrow> tc_outcome c = outcome_succeeded \<and>
       (\<forall>limit. bu_max_tokens (ts_budget (tr_spec t)) = Some limit \<longrightarrow> tc_tokens_used c \<le> limit)) \<and>
    tr_tokens_used_total t' = tr_tokens_used_total t + tc_tokens_used c \<and>
    tr_agent_id t' = None \<and>
    im_active_tasks (snd (complete_task tid c now s)) + 1 = im_active_tasks e"
proof -
  have inv: "swarm_inv e"
    using swarm.reachable_inv [OF assms(1,2)] by (simp add: e_def swarm_inv_expire_running)
  let ?f = "\<lambda>t. t\<lparr>tr_tokens_used := tc_tokens_used c\<rparr>"
  let ?e1 = "upd_task tid ?f e"
  have f1: "omap_find tid (im_tasks ?e1) = Some (?f t)"
    using assms(4) by (simp add: omap_simps)
  have i1: "omap_inv (im_tasks ?e1)"
    using swarm_invD(6) [OF inv] by (simp add: omap_simps)
  define r where "r = (if tc_message c = [] then outcome_name oc else tc_message c)"
  define s2 where "s2 = snd (finish_attempt tid oc now r ?e1)"
  have "\<not> tc_tokens_used c < tr_tokens_used t"
    using assms(6) by (simp add: not_less)
  then have res: "snd (complete_task tid c now s) = s2" "cr_accepted (fst (complete_task tid c now s))"
    "cr_retry_scheduled (fst (complete_task tid c now s)) = should_retry (?f t) oc"
    using assms(4,5) fst_finish_attempt [OF f1]
    by (simp_all add: complete_task_def Let_def case_prod_beta s2_def r_def oc_def flip: e_def)
  have retry: "should_retry (?f t) oc = should_retry t oc"
    by (cases oc) (simp_all add: should_retry_def)
  have t2: "omap_find tid (im_tasks s2) = Some (finished_task oc now r (im_next_queue_sequence ?e1) (?f t))"
    unfolding s2_def using finish_attempt_find [OF i1 f1] by simp
  have "0 < im_active_tasks e"
    using swarm_invD(3) [OF inv] count_pos [OF assms(4), of running] assms(5)
    by (simp add: inv_counts_def running_def)
  then have active: "im_active_tasks s2 + 1 = im_active_tasks e"
    unfolding s2_def finish_attempt_split [OF f1]
    by (simp add: finish_core_effect(4) [OF f1])
  have "tr_state (finished_task oc now r q (?f t)) =
      (if should_retry t oc then task_retry_wait else task_state_for_outcome oc)" for q
    by (simp add: retry)
  moreover have "tr_cancellation_requested t \<Longrightarrow> oc = outcome_cancelled \<and> \<not> should_retry t oc"
    by (simp add: oc_def completion_outcome_def should_retry_def)
  moreover have "task_state_for_outcome oc = task_succeeded \<Longrightarrow> tc_outcome c = outcome_succeeded \<and>
      (\<forall>limit. bu_max_tokens (ts_budget (tr_spec t)) = Some limit \<longrightarrow> tc_tokens_used c \<le> limit)"
    by (cases "tc_outcome c") (auto simp: oc_def completion_outcome_def split: if_splits option.splits)
  moreover have "tr_tokens_used_total (finished_task oc now r q (?f t)) =
      tr_tokens_used_total t + tc_tokens_used c" for q
    by (simp add: finished_task_def Let_def)
  ultimately show ?thesis
    unfolding res(1) using t2 res(2,3) retry active by (auto split: if_splits)
qed

theorem complete_task_effect_witness:
  "\<exists>t'. omap_find 2 (im_tasks (snd (complete_task 2
       \<lparr>tc_outcome = outcome_succeeded, tc_tokens_used = 200, tc_message = []\<rparr> 4 demo_4))) = Some t' \<and>
     tr_state t' = task_budget_exhausted"
proof -
  let ?c = "\<lparr>tc_outcome = outcome_succeeded, tc_tokens_used = 200, tc_message = []\<rparr>"
  have "map_option (\<lambda>t. (tr_state t, tr_tokens_used t \<le> tc_tokens_used ?c, completion_outcome t ?c,
      should_retry t (completion_outcome t ?c))) (omap_find 2 (im_tasks (snd (expire_running 4 demo_4)))) =
      Some (task_running, True, outcome_budget_exhausted, False)"
    by code_simp
  then show ?thesis
    using complete_task_effect [OF demo_init demo_run(1), of 2 4 _ ?c] by force
qed

text \<open>C14. \<open>submit\<close> in a reachable state either rejects the specification, with the first failing
  check as its message and no change to agents, waves and tasks, or creates one queued task under an
  identifier that was not in use, behind all tasks in the queue, and leaves the others alone.\<close>

theorem submit_effect:
  assumes "swarm_init s0" and "swarm_step\<^sup>*\<^sup>* s0 s"
  shows "(case submit spec now s of
      (Inl err, s') \<Rightarrow> submit_error spec s = Some err \<and> im_tasks s' = im_tasks s \<and>
        im_waves s' = im_waves s \<and> im_agents s' = im_agents s
    | (Inr tid, s') \<Rightarrow> submit_error spec s = None \<and> omap_find tid (im_tasks s) = None \<and>
        (\<exists>t. omap_find tid (im_tasks s') = Some t \<and> tr_spec t = spec \<and> tr_state t = task_queued \<and>
           tr_attempts_started t = 0 \<and>
           (\<forall>k u. omap_find k (im_tasks s) = Some u \<longrightarrow> tr_queue_sequence u < tr_queue_sequence t)) \<and>
        (\<forall>k. k \<noteq> tid \<longrightarrow> omap_find k (im_tasks s') = omap_find k (im_tasks s)))"
proof -
  have inv: "swarm_inv s"
    using assms by (rule swarm.reachable_inv)
  have "tr_queue_sequence u < im_next_queue_sequence s" if "omap_find k (im_tasks s) = Some u" for k u
    using swarm_inv_task(1) [OF inv that] by (simp add: task_ok_def)
  then show ?thesis
    using fresh_keys(3) [OF swarm_invD(1) [OF inv]]
    by (simp add: submit_def Let_def omap_find_emplace [OF swarm_invD(6) [OF inv]] split: option.split)
qed

theorem submit_effect_witness:
  "fst (submit (demo_task 5 1) 3 demo_3) = Inr 3 \<and> omap_find 3 (im_tasks demo_3) = None"
proof -
  have "fst (submit (demo_task 5 1) 3 demo_3) = Inr 3"
    by code_simp
  then show ?thesis
    using submit_effect [OF demo_init demo_steps(1), of "demo_task 5 1" 3]
    by (simp split: prod.splits)
qed

end
