(* ===== verification/Bytes.thy ===== *)
theory Bytes
  imports Prelude
begin

text \<open>
  Bytes and machine words: the integer types of the C++ code, the little-endian memory image of a
  word and its inverse, cutting a byte string into fields, and writing a range of a byte string.
\<close>

unbundle bit_operations_syntax

type_synonym byte = "8 word"
type_synonym u32 = "32 word"
type_synonym u64 = "64 word"

lemma unat_less_2p: "unat w < 2 ^ LENGTH('a)" for w :: "'a::len word"
  by (rule unsigned_less)

lemma unat_u32_less: "unat w < 2 ^ 32" for w :: u32
  using unat_less_2p [of w] by simp

lemma unat_u64_less: "unat w < 2 ^ 64" for w :: u64
  using unat_less_2p [of w] by simp

lemma unat_ucast_u64 [simp]: "unat (ucast w :: u64) = unat w" for w :: u32
  using unat_u32_less [of w] by (simp add: unsigned_ucast_eq take_bit_nat_eq_self)

lemma unat_ucast_u32: "unat w < 2 ^ 32 \<Longrightarrow> unat (ucast w :: u32) = unat w" for w :: u64
  by (simp add: unsigned_ucast_eq take_bit_nat_eq_self)

section \<open>Little-endian words\<close>

primrec le_bytes :: "nat \<Rightarrow> 'a::len word \<Rightarrow> byte list" where
  "le_bytes 0 w = []"
| "le_bytes (Suc n) w = ucast w # le_bytes n (drop_bit 8 w)"

primrec le_word :: "byte list \<Rightarrow> 'a::len word" where
  "le_word [] = 0"
| "le_word (b # bs) = ucast b OR push_bit 8 (le_word bs)"

lemma length_le_bytes [simp]: "length (le_bytes n w) = n"
  by (induction n arbitrary: w) simp_all

lemma le_word_bytes: "le_word (le_bytes n w) = take_bit (8 * n) w"
proof (induction n arbitrary: w)
  case (Suc n)
  show ?case
    by (rule bit_word_eqI)
      (auto simp: Suc bit_or_iff bit_push_bit_iff bit_take_bit_iff bit_drop_bit_eq bit_ucast_iff
        dest: bit_imp_le_length)
qed simp

lemma le_word_bytes_full [simp]: "LENGTH('a) \<le> 8 * n \<Longrightarrow> le_word (le_bytes n w) = w" for w :: "'a::len word"
  by (simp add: le_word_bytes take_bit_word_eq_self)

lemma le_bytes_word: "8 * length bs \<le> LENGTH('a) \<Longrightarrow> le_bytes (length bs) (le_word bs :: 'a::len word) = bs"
proof (induction bs)
  case (Cons b bs)
  let ?w = "le_word bs :: 'a word"
  have "drop_bit 8 (ucast b OR push_bit 8 ?w) = take_bit (LENGTH('a) - 8) ?w"
    by (rule bit_word_eqI)
      (use bit_imp_le_length [of b] in \<open>auto simp: bit_or_iff bit_push_bit_iff bit_take_bit_iff bit_drop_bit_eq bit_ucast_iff\<close>)
  moreover have "le_bytes n (take_bit k w) = le_bytes n w" if "8 * n \<le> k" for n k and w :: "'a word"
    using that
  proof (induction n arbitrary: k w)
    case (Suc n)
    have "drop_bit 8 (take_bit k w) = take_bit (k - 8) (drop_bit 8 w)"
      by (simp add: drop_bit_take_bit)
    moreover have "ucast (take_bit k w) = (ucast w :: byte)"
      using Suc.prems by (intro bit_word_eqI) (auto simp: bit_ucast_iff bit_take_bit_iff)
    ultimately show ?case
      using Suc by simp
  qed simp
  moreover have "ucast (ucast b OR push_bit 8 ?w :: 'a word) = b"
    using Cons.prems by (intro bit_word_eqI) (auto simp: bit_or_iff bit_push_bit_iff bit_ucast_iff)
  ultimately show ?case
    using Cons by simp
qed simp

section \<open>Fields of a byte string\<close>

definition field_at :: "nat \<Rightarrow> nat \<Rightarrow> byte list \<Rightarrow> byte list" where
  "field_at offset count bs = take count (drop offset bs)"

lemma length_field_at: "offset + count \<le> length bs \<Longrightarrow> length (field_at offset count bs) = count"
  by (simp add: field_at_def)

lemma field_at_append:
  "offset = length before \<Longrightarrow> count = length f \<Longrightarrow> field_at offset count (before @ f @ after) = f"
  by (simp add: field_at_def)

section \<open>Writing a range\<close>

text \<open>The effect of \<open>pwrite\<close> on the bytes of a file: a gap before the range reads as zero bytes.\<close>

definition write_at :: "nat \<Rightarrow> byte list \<Rightarrow> byte list \<Rightarrow> byte list" where
  "write_at offset bs file = (if bs = [] then file else
     take offset file @ replicate (offset - length file) 0 @ bs @ drop (offset + length bs) file)"

lemma write_at_Nil [simp]: "write_at offset [] file = file"
  by (simp add: write_at_def)

lemma length_write_at: "offset + length bs \<le> length file \<Longrightarrow> length (write_at offset bs file) = length file"
  by (simp add: write_at_def)

lemma field_write_at_same:
  assumes "offset + length bs \<le> length file"
  shows "field_at offset (length bs) (write_at offset bs file) = bs"
  using assms by (simp add: write_at_def field_at_def)

lemma nth_write_at:
  assumes "offset + length bs \<le> length file" and "i < length file"
  shows "write_at offset bs file ! i =
    (if offset \<le> i \<and> i < offset + length bs then bs ! (i - offset) else file ! i)"
  using assms by (auto simp: write_at_def nth_append)

lemma field_write_at_other:
  assumes "offset + length bs \<le> length file"
    and "o2 + n2 \<le> offset \<or> offset + length bs \<le> o2" and "o2 + n2 \<le> length file"
  shows "field_at o2 n2 (write_at offset bs file) = field_at o2 n2 file"
proof (rule nth_equalityI)
  show "length (field_at o2 n2 (write_at offset bs file)) = length (field_at o2 n2 file)"
    using assms by (simp add: length_field_at length_write_at)
  fix i assume "i < length (field_at o2 n2 (write_at offset bs file))"
  then have "i < n2" by (simp add: field_at_def)
  then show "field_at o2 n2 (write_at offset bs file) ! i = field_at o2 n2 file ! i"
    using assms nth_write_at [OF assms(1), of "o2 + i"]
    by (auto simp: field_at_def length_write_at)
qed

lemma write_at_append:
  assumes "offset + length (xs @ ys) \<le> length file"
  shows "write_at (offset + length xs) ys (write_at offset xs file) = write_at offset (xs @ ys) file"
  using assms by (intro nth_equalityI) (auto simp: length_write_at nth_write_at nth_append)

end
