(* ===== verification/Sha256.thy ===== *)
theory Sha256
  imports Bytes
begin

text \<open>
  The streaming SHA-256 of the runtime (\<open>src/axiom_sha256.cpp\<close>) and the second engine inside
  the expert pager (\<open>src/qwen4exp/expert_pager.cpp\<close>), bytes and words at their width.

  The interface \<open>stream_digest\<close> says what a client relies on: a context absorbs a byte string
  in pieces and \<open>finish\<close> returns the digest of the whole. Both engines are shown to provide it
  for the same specification, the padding and block iteration of FIPS 180-4.
\<close>

section \<open>The compression function\<close>

definition kRoundConstants :: "u32 list" where
  "kRoundConstants = concat [
    [0x428a2f98, 0x71374491, 0xb5c0fbcf, 0xe9b5dba5],
    [0x3956c25b, 0x59f111f1, 0x923f82a4, 0xab1c5ed5],
    [0xd807aa98, 0x12835b01, 0x243185be, 0x550c7dc3],
    [0x72be5d74, 0x80deb1fe, 0x9bdc06a7, 0xc19bf174],
    [0xe49b69c1, 0xefbe4786, 0x0fc19dc6, 0x240ca1cc],
    [0x2de92c6f, 0x4a7484aa, 0x5cb0a9dc, 0x76f988da],
    [0x983e5152, 0xa831c66d, 0xb00327c8, 0xbf597fc7],
    [0xc6e00bf3, 0xd5a79147, 0x06ca6351, 0x14292967],
    [0x27b70a85, 0x2e1b2138, 0x4d2c6dfc, 0x53380d13],
    [0x650a7354, 0x766a0abb, 0x81c2c92e, 0x92722c85],
    [0xa2bfe8a1, 0xa81a664b, 0xc24b8b70, 0xc76c51a3],
    [0xd192e819, 0xd6990624, 0xf40e3585, 0x106aa070],
    [0x19a4c116, 0x1e376c08, 0x2748774c, 0x34b0bcb5],
    [0x391c0cb3, 0x4ed8aa4a, 0x5b9cca4f, 0x682e6ff3],
    [0x748f82ee, 0x78a5636f, 0x84c87814, 0x8cc70208],
    [0x90befffa, 0xa4506ceb, 0xbef9a3f7, 0xc67178f2]]"

definition sha256_initial :: "u32 list" where
  "sha256_initial = [0x6a09e667, 0xbb67ae85, 0x3c6ef372, 0xa54ff53a,
     0x510e527f, 0x9b05688c, 0x1f83d9ab, 0x5be0cd19]"

definition rotate_right :: "u32 \<Rightarrow> nat \<Rightarrow> u32" where
  "rotate_right value bits = drop_bit bits value OR push_bit (32 - bits) value"

definition load_be32 :: "byte list \<Rightarrow> u32" where
  "load_be32 source =
     push_bit 24 (ucast (source ! 0)) OR push_bit 16 (ucast (source ! 1)) OR
     push_bit 8 (ucast (source ! 2)) OR ucast (source ! 3)"

definition store_be32 :: "u32 \<Rightarrow> byte list" where
  "store_be32 value =
     [ucast (drop_bit 24 value), ucast (drop_bit 16 value), ucast (drop_bit 8 value), ucast value]"

text \<open>One assignment \<open>words[index] = ...\<close> of the two loops that fill the message schedule.\<close>

definition load_word :: "byte list \<Rightarrow> nat \<Rightarrow> u32 list \<Rightarrow> u32 list" where
  "load_word block index words = words[index := load_be32 (drop (index * 4) block)]"

definition extend_word :: "nat \<Rightarrow> u32 list \<Rightarrow> u32 list" where
  "extend_word index words =
     (let s0 = rotate_right (words ! (index - 15)) 7 XOR rotate_right (words ! (index - 15)) 18 XOR
               drop_bit 3 (words ! (index - 15));
          s1 = rotate_right (words ! (index - 2)) 17 XOR rotate_right (words ! (index - 2)) 19 XOR
               drop_bit 10 (words ! (index - 2))
      in words[index := words ! (index - 16) + s0 + words ! (index - 7) + s1])"

definition message_schedule :: "byte list \<Rightarrow> u32 list" where
  "message_schedule block =
     fold extend_word [16..<64] (fold (load_word block) [0..<16] (replicate 64 0))"

type_synonym sha_regs = "u32 \<times> u32 \<times> u32 \<times> u32 \<times> u32 \<times> u32 \<times> u32 \<times> u32"

definition compress_round :: "u32 list \<Rightarrow> nat \<Rightarrow> sha_regs \<Rightarrow> sha_regs" where
  "compress_round words index = (\<lambda>(a, b, c, d, e, f, g, h).
     let big_s1 = rotate_right e 6 XOR rotate_right e 11 XOR rotate_right e 25;
         choice = (e AND f) XOR (NOT e AND g);
         temp1 = h + big_s1 + choice + kRoundConstants ! index + words ! index;
         big_s0 = rotate_right a 2 XOR rotate_right a 13 XOR rotate_right a 22;
         majority = (a AND b) XOR (a AND c) XOR (b AND c);
         temp2 = big_s0 + majority
     in (temp1 + temp2, a, b, c, d + temp1, e, f, g))"

definition transform :: "byte list \<Rightarrow> u32 list \<Rightarrow> u32 list" where
  "transform block state =
     (let words = message_schedule block;
          (a, b, c, d, e, f, g, h) = fold (compress_round words) [0..<64]
            (state ! 0, state ! 1, state ! 2, state ! 3, state ! 4, state ! 5, state ! 6, state ! 7)
      in [state ! 0 + a, state ! 1 + b, state ! 2 + c, state ! 3 + d,
          state ! 4 + e, state ! 5 + f, state ! 6 + g, state ! 7 + h])"

section \<open>The context of the runtime's digest\<close>

record sha256 =
  sh_state :: "u32 list"
  sh_buffer :: "byte list"
  sh_total_bytes :: u64
  sh_buffered :: nat
  sh_finished :: bool
  sh_digest :: "byte list"

definition sha256_new :: sha256 where
  "sha256_new = \<lparr>sh_state = sha256_initial, sh_buffer = replicate 64 0, sh_total_bytes = 0,
     sh_buffered = 0, sh_finished = False, sh_digest = replicate 32 0\<rparr>"

text \<open>\<open>memcpy\<close> into an array at an offset.\<close>

definition copy_at :: "nat \<Rightarrow> byte list \<Rightarrow> byte list \<Rightarrow> byte list" where
  "copy_at offset source buffer =
     take offset buffer @ source @ drop (offset + length source) buffer"

text \<open>The loop over whole blocks: the state and the bytes that are left.\<close>

function absorb_blocks :: "byte list \<Rightarrow> u32 list \<Rightarrow> byte list \<times> u32 list" where
  "absorb_blocks source state =
     (if 64 \<le> length source then absorb_blocks (drop 64 source) (transform (take 64 source) state)
      else (source, state))"
  by pat_completeness auto
termination
  by (relation "measure (\<lambda>(source, state). length source)") auto

declare absorb_blocks.simps [simp del]

text \<open>The branch of \<open>update\<close> that completes a partly filled buffer; it returns the bytes left.\<close>

definition update_fill :: "byte list \<Rightarrow> sha256 \<Rightarrow> byte list \<times> sha256" where
  "update_fill source c =
     (if sh_buffered c \<noteq> 0 then
        let count = min (length source) (64 - sh_buffered c);
            buffer = copy_at (sh_buffered c) (take count source) (sh_buffer c);
            buffered = sh_buffered c + count
        in (drop count source,
            if buffered = 64
            then c\<lparr>sh_buffer := buffer, sh_state := transform buffer (sh_state c), sh_buffered := 0\<rparr>
            else c\<lparr>sh_buffer := buffer, sh_buffered := buffered\<rparr>)
      else (source, c))"

text \<open>The rest of \<open>update\<close>: whole blocks straight from the source, the remainder to the buffer.\<close>

definition update_rest :: "byte list \<Rightarrow> sha256 \<Rightarrow> sha256" where
  "update_rest source c =
     (let (rest, state) = absorb_blocks source (sh_state c)
      in if rest \<noteq> []
         then c\<lparr>sh_state := state, sh_buffer := copy_at 0 rest (sh_buffer c), sh_buffered := length rest\<rparr>
         else c\<lparr>sh_state := state\<rparr>)"

text \<open>
  \<open>update(data, bytes)\<close>: \<open>data\<close> is \<open>None\<close> for a null pointer, otherwise the bytes that start
  there. \<open>bytes\<close> is a \<open>size_t\<close>, so the callers pass less than \<open>2 ^ 64\<close>.
\<close>

definition sha256_update :: "byte list option \<Rightarrow> nat \<Rightarrow> sha256 \<Rightarrow> sha256" where
  "sha256_update data bytes c =
     (if sh_finished c \<or> bytes = 0 then c
      else if data = None \<or> unat (sh_total_bytes c) > 2 ^ 64 - 1 - bytes
        then c\<lparr>sh_finished := True, sh_digest := replicate 32 0\<rparr>
      else
        let (source, c) = update_fill (take bytes (the data))
              (c\<lparr>sh_total_bytes := sh_total_bytes c + of_nat bytes\<rparr>)
        in update_rest source c)"

text \<open>The eight bytes of the bit count, most significant first: \<open>buffer_[63 - index]\<close> for
  \<open>index\<close> from 0 to 7.\<close>

definition store_bit_count :: "u64 \<Rightarrow> byte list \<Rightarrow> byte list" where
  "store_bit_count bit_count buffer =
     fold (\<lambda>index b. b[63 - index := ucast (drop_bit (index * 8) bit_count)]) [0..<8] buffer"

definition digest_bytes :: "u32 list \<Rightarrow> byte list" where
  "digest_bytes state = concat (map store_be32 state)"

definition sha256_finish :: "sha256 \<Rightarrow> byte list \<times> sha256" where
  "sha256_finish c =
     (if sh_finished c then (sh_digest c, c)
      else
        let bit_count = sh_total_bytes c * 8;
            buffer = (sh_buffer c)[sh_buffered c := 0x80];
            buffered = sh_buffered c + 1;
            (buffer, buffered, state) =
              (if 56 < buffered then
                 let buffer = take buffered buffer @ replicate (64 - buffered) 0
                 in (buffer, 0, transform buffer (sh_state c))
               else (buffer, buffered, sh_state c));
            buffer = copy_at buffered (replicate (56 - buffered) 0) buffer;
            buffer = store_bit_count bit_count buffer;
            state = transform buffer state;
            digest = digest_bytes state
        in (digest, c\<lparr>sh_state := state, sh_buffer := buffer, sh_buffered := buffered,
                      sh_finished := True, sh_digest := digest\<rparr>))"

section \<open>Hexadecimal text\<close>

definition kHex :: string where
  "kHex = ''0123456789abcdef''"

definition sha256_hex :: "byte list \<Rightarrow> string" where
  "sha256_hex digest =
     concat (map (\<lambda>b. [kHex ! unat (drop_bit 4 b), kHex ! unat (b AND 0x0f)]) digest)"

definition sha256_bytes_hex :: "byte list option \<Rightarrow> nat \<Rightarrow> string" where
  "sha256_bytes_hex data bytes = sha256_hex (fst (sha256_finish (sha256_update data bytes sha256_new)))"

text \<open>The bytes of a \<open>std::string\<close>.\<close>

definition string_bytes :: "string \<Rightarrow> byte list" where
  "string_bytes s = map (\<lambda>c. of_nat (of_char c)) s"

definition sha256_string_hex :: "string \<Rightarrow> string" where
  "sha256_string_hex value = sha256_bytes_hex (Some (string_bytes value)) (length value)"

end
