(* ===== verification/Sha256Spec.thy ===== *)
theory Sha256Spec
  imports Sha256
begin

text \<open>
  The specification of the digest (padding and block iteration of FIPS 180-4 over the compression
  function), the interface \<open>stream_digest\<close>, and the proof that the runtime's context provides it.
\<close>

section \<open>Specification\<close>

definition be64 :: "u64 \<Rightarrow> byte list" where
  "be64 w = map (\<lambda>i. ucast (drop_bit (8 * (7 - i)) w)) [0..<8]"

text \<open>A one bit, then zero bits up to 56 bytes modulo 64, then the length in bits.\<close>

definition sha_pad :: "byte list \<Rightarrow> byte list" where
  "sha_pad msg = msg @ 0x80 # replicate ((119 - length msg mod 64) mod 64) 0 @
     be64 (of_nat (length msg) * 8)"

definition blocks :: "byte list \<Rightarrow> byte list list" where
  "blocks bs = map (\<lambda>i. take 64 (drop (64 * i) bs)) [0..<length bs div 64]"

definition sha_iterate :: "byte list \<Rightarrow> u32 list" where
  "sha_iterate bs = fold transform (blocks bs) sha256_initial"

definition sha256_spec :: "byte list \<Rightarrow> byte list" where
  "sha256_spec msg = digest_bytes (sha_iterate (sha_pad msg))"

section \<open>Interface\<close>

locale stream_digest =
  fixes new :: 'c
    and absorb :: "byte list \<Rightarrow> 'c \<Rightarrow> 'c"
    and finish :: "'c \<Rightarrow> byte list"
    and absorbed :: "'c \<Rightarrow> byte list \<Rightarrow> bool"
  assumes absorbed_new: "absorbed new []"
    and absorbed_absorb:
      "absorbed c m \<Longrightarrow> length (m @ bs) < 2 ^ 64 \<Longrightarrow> absorbed (absorb bs c) (m @ bs)"
    and finish_absorbed: "absorbed c m \<Longrightarrow> length m < 2 ^ 64 \<Longrightarrow> finish c = sha256_spec m"
begin

lemma absorbed_pieces:
  assumes "absorbed c m" and "length (m @ concat pieces) < 2 ^ 64"
  shows "absorbed (fold absorb pieces c) (m @ concat pieces)"
  using assms
proof (induction pieces arbitrary: c m)
  case (Cons p ps)
  then have "absorbed (absorb p c) (m @ p)"
    by (intro absorbed_absorb) simp_all
  from Cons.IH [OF this] Cons.prems show ?case by simp
qed simp

lemma digest_pieces:
  assumes "length (concat pieces) < 2 ^ 64"
  shows "finish (fold absorb pieces new) = sha256_spec (concat pieces)"
  using absorbed_pieces [OF absorbed_new, of pieces] assms by (simp add: finish_absorbed)

lemma digest_pieces_cong:
  assumes "concat ps = concat qs" and "length (concat ps) < 2 ^ 64"
  shows "finish (fold absorb ps new) = finish (fold absorb qs new)"
  using assms by (simp add: digest_pieces)

end

section \<open>Blocks\<close>

lemma blocks_Nil [simp]: "blocks [] = []"
  by (simp add: blocks_def)

lemma blocks_short [simp]: "length bs < 64 \<Longrightarrow> blocks bs = []"
  by (simp add: blocks_def)

lemma blocks_append:
  assumes "64 dvd length a"
  shows "blocks (a @ b) = blocks a @ blocks b"
proof -
  obtain q where q: "length a = 64 * q"
    using assms by (auto elim: dvdE)
  have len: "length (a @ b) div 64 = q + length b div 64" "length a div 64 = q"
    by (simp_all add: q)
  have "take 64 (drop (64 * i) (a @ b)) = take 64 (drop (64 * i) a)" if "i < q" for i
  proof -
    have "64 * i + 64 \<le> 64 * q"
      using that by simp
    then show ?thesis by (simp add: q)
  qed
  moreover have "take 64 (drop (64 * (q + i)) (a @ b)) = take 64 (drop (64 * i) b)" for i
    by (simp add: q distrib_left)
  moreover have "[0..<q + n] = [0..<q] @ map (\<lambda>i. q + i) [0..<n]" for n
    by (induction n) simp_all
  ultimately show ?thesis
    unfolding blocks_def len by (simp add: comp_def)
qed

lemma blocks_one: "length b = 64 \<Longrightarrow> blocks b = [b]"
  by (simp add: blocks_def)

lemma sha_iterate_append:
  "64 dvd length a \<Longrightarrow> sha_iterate (a @ b) = fold transform (blocks b) (sha_iterate a)"
  by (simp add: sha_iterate_def blocks_append)

lemma sha_iterate_block:
  "64 dvd length a \<Longrightarrow> length b = 64 \<Longrightarrow> sha_iterate (a @ b) = transform b (sha_iterate a)"
  by (simp add: sha_iterate_append blocks_one)

lemma absorb_blocks_spec:
  "\<exists>full rest. bs = full @ rest \<and> 64 dvd length full \<and> length rest < 64 \<and>
     absorb_blocks bs st = (rest, fold transform (blocks full) st)"
proof (induction bs st rule: absorb_blocks.induct)
  case (1 bs st)
  show ?case
  proof (cases "64 \<le> length bs")
    case True
    from 1 [OF True] obtain full rest where IH: "drop 64 bs = full @ rest" "64 dvd length full"
      "length rest < 64"
      "absorb_blocks (drop 64 bs) (transform (take 64 bs) st) =
         (rest, fold transform (blocks full) (transform (take 64 bs) st))"
      by blast
    have "bs = (take 64 bs @ full) @ rest"
      using IH(1) by (metis append_assoc append_take_drop_id)
    moreover have "blocks (take 64 bs @ full) = take 64 bs # blocks full"
      using True by (simp add: blocks_append blocks_one)
    ultimately show ?thesis
      using True IH
      by (intro exI [of _ "take 64 bs @ full"] exI [of _ rest]) (simp add: absorb_blocks.simps [of bs])
  next
    case False
    then show ?thesis
      by (intro exI [of _ "[]"] exI [of _ bs]) (simp add: absorb_blocks.simps [of bs])
  qed
qed

section \<open>The runtime's context\<close>

definition sha256_absorbed :: "sha256 \<Rightarrow> byte list \<Rightarrow> bool" where
  "sha256_absorbed c m \<longleftrightarrow>
     \<not> sh_finished c \<and> length (sh_buffer c) = 64 \<and> length m < 2 ^ 64 \<and>
     sh_total_bytes c = of_nat (length m) \<and>
     (\<exists>full rest. m = full @ rest \<and> 64 dvd length full \<and> length rest < 64 \<and>
        sh_buffered c = length rest \<and> take (length rest) (sh_buffer c) = rest \<and>
        sh_state c = sha_iterate full)"

lemma length_copy_at [simp]:
  "offset + length source \<le> length buffer \<Longrightarrow> length (copy_at offset source buffer) = length buffer"
  by (simp add: copy_at_def)

lemma take_copy_at:
  "offset \<le> length buffer \<Longrightarrow>
   take (offset + length source) (copy_at offset source buffer) = take offset buffer @ source"
  by (simp add: copy_at_def)

lemma sha256_absorbedI:
  assumes "\<not> sh_finished c" and "length (sh_buffer c) = 64" and "length (full @ rest) < 2 ^ 64"
    and "sh_total_bytes c = of_nat (length (full @ rest))" and "64 dvd length full"
    and "length rest < 64" and "sh_buffered c = length rest"
    and "take (length rest) (sh_buffer c) = rest" and "sh_state c = sha_iterate full"
  shows "sha256_absorbed c (full @ rest)"
  unfolding sha256_absorbed_def using assms by blast

lemma sha256_absorbed_new: "sha256_absorbed sha256_new []"
  by (simp add: sha256_absorbed_def sha256_new_def sha_iterate_def)

text \<open>The second half of \<open>update\<close>: the whole blocks and the bytes left over.\<close>

lemma sha256_absorbed_rest:
  assumes "64 dvd length full" and "length (sh_buffer c) = 64" and "sh_state c = sha_iterate full"
    and "sh_buffered c = 0" and "\<not> sh_finished c" and "length (full @ bs) < 2 ^ 64"
    and "sh_total_bytes c = of_nat (length (full @ bs))"
  shows "sha256_absorbed (update_rest bs c) (full @ bs)"
proof -
  obtain f r where split: "bs = f @ r" "64 dvd length f" "length r < 64"
    "absorb_blocks bs (sh_state c) = (r, fold transform (blocks f) (sh_state c))"
    using absorb_blocks_spec by blast
  have "64 dvd length (full @ f)" "fold transform (blocks f) (sha_iterate full) = sha_iterate (full @ f)"
    using assms(1) split(2) by (simp_all add: sha_iterate_append)
  moreover have "take (length r) (copy_at 0 r (sh_buffer c)) = r"
    using take_copy_at [of 0 "sh_buffer c" r] by simp
  ultimately have "sha256_absorbed (update_rest bs c) ((full @ f) @ r)"
    using assms split by (intro sha256_absorbedI) (simp_all add: update_rest_def)
  then show ?thesis by (simp add: split(1))
qed

text \<open>The first half, when a buffer was partly filled.\<close>

lemma sha256_absorbed_fill:
  assumes "64 dvd length full" and "length rest < 64" and "rest \<noteq> []" and "length (sh_buffer c) = 64"
    and "sh_state c = sha_iterate full" and "sh_buffered c = length rest"
    and "take (length rest) (sh_buffer c) = rest" and "\<not> sh_finished c"
    and "length (full @ rest @ bs) < 2 ^ 64" and "sh_total_bytes c = of_nat (length (full @ rest @ bs))"
  shows "sha256_absorbed (case update_fill bs c of (s, c') \<Rightarrow> update_rest s c') (full @ rest @ bs)"
proof -
  let ?n = "min (length bs) (64 - length rest)"
  let ?b = "copy_at (length rest) (take ?n bs) (sh_buffer c)"
  have len: "length ?b = 64"
    using assms(2,4) by (simp add: min_def)
  have pre: "take (length rest + ?n) ?b = rest @ take ?n bs"
    using take_copy_at [of "length rest" "sh_buffer c" "take ?n bs"] assms(2,4,7) by simp
  show ?thesis
  proof (cases "length rest + ?n = 64")
    case True
    let ?c = "c\<lparr>sh_buffer := ?b, sh_state := transform ?b (sh_state c), sh_buffered := 0\<rparr>"
    have b: "?b = rest @ take ?n bs"
      using pre len True by (metis take_all order_refl)
    have "length (rest @ take ?n bs) = 64"
      using len b by simp
    then have st: "transform ?b (sh_state c) = sha_iterate (full @ rest @ take ?n bs)"
      and dvd: "64 dvd length (full @ rest @ take ?n bs)"
      using assms(1,5) b by (simp_all add: sha_iterate_block)
    have whole: "full @ rest @ bs = (full @ rest @ take ?n bs) @ drop ?n bs"
      by simp
    have "sha256_absorbed (update_rest (drop ?n bs) ?c) ((full @ rest @ take ?n bs) @ drop ?n bs)"
      by (rule sha256_absorbed_rest [OF dvd], unfold whole [symmetric]) (use st len assms(8-10) in simp_all)
    moreover have "update_fill bs c = (drop ?n bs, ?c)"
      using True assms(3,6) by (simp add: update_fill_def Let_def)
    ultimately show ?thesis
      unfolding whole by simp
  next
    case False
    then have n: "?n = length bs" "length rest + length bs < 64"
      using assms(2) by linarith+
    let ?c = "c\<lparr>sh_buffer := ?b, sh_buffered := length rest + length bs\<rparr>"
    have "update_fill bs c = ([], ?c)"
      using False assms(3,6) n by (simp add: update_fill_def Let_def)
    moreover have "update_rest [] ?c = ?c"
      by (simp add: update_rest_def absorb_blocks.simps)
    moreover have "sha256_absorbed ?c (full @ (rest @ bs))"
      by (rule sha256_absorbedI) (use assms n pre len in simp_all)
    ultimately show ?thesis by simp
  qed
qed

lemma sha256_absorbed_update:
  assumes "sha256_absorbed c m" and "length (m @ bs) < 2 ^ 64"
  shows "sha256_absorbed (sha256_update (Some bs) (length bs) c) (m @ bs)"
proof (cases "bs = []")
  case True
  then show ?thesis using assms by (simp add: sha256_update_def)
next
  case False
  obtain full rest where c: "\<not> sh_finished c" "length (sh_buffer c) = 64"
    "sh_total_bytes c = of_nat (length m)" "m = full @ rest" "64 dvd length full" "length rest < 64"
    "sh_buffered c = length rest" "take (length rest) (sh_buffer c) = rest" "sh_state c = sha_iterate full"
    using assms(1) by (auto simp: sha256_absorbed_def)
  let ?c = "c\<lparr>sh_total_bytes := of_nat (length (m @ bs))\<rparr>"
  have "\<not> unat (sh_total_bytes c) > 2 ^ 64 - 1 - length bs"
    using assms(2) c(3) by (simp add: unat_of_nat_u64)
  then have upd: "sha256_update (Some bs) (length bs) c =
      (case update_fill bs ?c of (s, c') \<Rightarrow> update_rest s c')"
    using False c(1,3) by (simp add: sha256_update_def)
  show ?thesis
  proof (cases "rest = []")
    case True
    then have "update_fill bs ?c = (bs, ?c)"
      using c(7) by (simp add: update_fill_def)
    then show ?thesis
      unfolding upd using True c assms(2) sha256_absorbed_rest [OF c(5), of ?c bs] by simp
  next
    case rest: False
    show ?thesis
      unfolding upd c(4) append_assoc
      by (rule sha256_absorbed_fill) (use c rest assms(2) in simp_all)
  qed
qed

lemma length_be64 [simp]: "length (be64 w) = 8"
  by (simp add: be64_def)

lemma list_of_8:
  "length xs = 8 \<Longrightarrow> \<exists>x0 x1 x2 x3 x4 x5 x6 x7. xs = [x0, x1, x2, x3, x4, x5, x6, x7]"
  by (simp add: numeral_eq_Suc length_Suc_conv) blast

lemma store_bit_count_eq:
  assumes "length buffer = 64"
  shows "store_bit_count w buffer = take 56 buffer @ be64 w"
proof -
  have upd: "store_bit_count w buffer =
      buffer[63 := ucast w, 62 := ucast (drop_bit 8 w), 61 := ucast (drop_bit 16 w),
        60 := ucast (drop_bit 24 w), 59 := ucast (drop_bit 32 w), 58 := ucast (drop_bit 40 w),
        57 := ucast (drop_bit 48 w), 56 := ucast (drop_bit 56 w)]"
    by (simp add: store_bit_count_def upt_rec)
  have be: "be64 w = [ucast (drop_bit 56 w), ucast (drop_bit 48 w), ucast (drop_bit 40 w),
      ucast (drop_bit 32 w), ucast (drop_bit 24 w), ucast (drop_bit 16 w), ucast (drop_bit 8 w), ucast w]"
    by (simp add: be64_def upt_rec)
  have d: "length (drop 56 buffer) = 8"
    using assms by simp
  obtain x0 x1 x2 x3 x4 x5 x6 x7 where "drop 56 buffer = [x0, x1, x2, x3, x4, x5, x6, x7]"
    using list_of_8 [OF d] by blast
  then have "buffer = take 56 buffer @ [x0, x1, x2, x3, x4, x5, x6, x7]"
    by (metis append_take_drop_id)
  moreover have "length (take 56 buffer) = 56"
    using assms by simp
  ultimately obtain p where p: "buffer = p @ [x0, x1, x2, x3, x4, x5, x6, x7]" "length p = 56" "take 56 buffer = p"
    by metis
  show ?thesis
    unfolding upd be p(3) unfolding p(1) by (simp add: list_update_append p(2))
qed

text \<open>The last one or two blocks of the padded message.\<close>

lemma sha_pad_short:
  assumes "64 dvd length full" and "length rest < 56"
  shows "sha_pad (full @ rest) =
    full @ (rest @ 0x80 # replicate (55 - length rest) 0 @ be64 (of_nat (length (full @ rest)) * 8))"
proof -
  have "length (full @ rest) mod 64 = length rest"
    using assms by (auto elim!: dvdE simp: mod_simps)
  moreover have "(119 - length rest) mod 64 = 55 - length rest"
    using assms(2) by (simp add: mod_if)
  ultimately show ?thesis by (simp add: sha_pad_def)
qed

lemma sha_pad_long:
  assumes "64 dvd length full" and "56 \<le> length rest" and "length rest < 64"
  shows "sha_pad (full @ rest) =
    full @ (rest @ 0x80 # replicate (63 - length rest) 0) @
      (replicate 56 0 @ be64 (of_nat (length (full @ rest)) * 8))"
proof -
  have "length (full @ rest) mod 64 = length rest"
    using assms by (auto elim!: dvdE)
  moreover have "(119 - length rest) mod 64 = (63 - length rest) + 56"
    using assms(2,3) by simp
  moreover have "replicate (63 - length rest + 56) (0 :: byte) = replicate (63 - length rest) 0 @ replicate 56 0"
    by (rule replicate_add)
  ultimately show ?thesis by (simp only: sha_pad_def append_assoc append_Cons)
qed

lemma sha256_finish_absorbed:
  assumes "sha256_absorbed c m"
  shows "fst (sha256_finish c) = sha256_spec m"
proof -
  obtain full rest where c: "\<not> sh_finished c" "length (sh_buffer c) = 64"
    "sh_total_bytes c = of_nat (length m)" "m = full @ rest" "64 dvd length full" "length rest < 64"
    "sh_buffered c = length rest" "take (length rest) (sh_buffer c) = rest" "sh_state c = sha_iterate full"
    using assms by (auto simp: sha256_absorbed_def)
  let ?b = "(sh_buffer c)[length rest := 0x80]" and ?n = "be64 (of_nat (length m) * 8)"
  have b: "take (Suc (length rest)) ?b = rest @ [0x80]"
    using c(2,6,8) by (simp add: take_Suc_conv_app_nth)
  show ?thesis
  proof (cases "length rest < 56")
    case True
    let ?f = "copy_at (Suc (length rest)) (replicate (55 - length rest) 0) ?b"
    have "Suc (length rest) + length (replicate (55 - length rest) (0 :: byte)) = 56"
      using True by simp
    then have "take 56 ?f = take (Suc (length rest)) ?b @ replicate (55 - length rest) 0"
      using take_copy_at [of "Suc (length rest)" ?b "replicate (55 - length rest) 0"] c(2,6) by simp
    then have "store_bit_count (of_nat (length m) * 8) ?f =
        rest @ 0x80 # replicate (55 - length rest) 0 @ ?n"
      using True c(2) b by (simp add: store_bit_count_eq)
    moreover have "sha_iterate (sha_pad m) =
        transform (rest @ 0x80 # replicate (55 - length rest) 0 @ ?n) (sha_iterate full)"
      unfolding c(4) sha_pad_short [OF c(5) True] using True
      by (intro sha_iterate_block c(5)) simp
    ultimately show ?thesis
      using c True by (simp add: sha256_finish_def Let_def sha256_spec_def)
  next
    case False
    let ?l = "rest @ 0x80 # replicate (63 - length rest) 0"
    have l: "take (Suc (length rest)) ?b @ replicate (63 - length rest) 0 = ?l" "length ?l = 64"
      using b c(6) by simp_all
    have "take 56 (copy_at 0 (replicate 56 0) ?l) = replicate 56 0"
      using take_copy_at [of 0 ?l "replicate 56 0"] by simp
    then have "store_bit_count (of_nat (length m) * 8) (copy_at 0 (replicate 56 0) ?l) = replicate 56 0 @ ?n"
      using l(2) by (subst store_bit_count_eq) simp_all
    moreover have "sha_iterate (sha_pad m) = transform (replicate 56 0 @ ?n) (transform ?l (sha_iterate full))"
    proof -
      have "sha_pad m = (full @ ?l) @ (replicate 56 0 @ ?n)"
        unfolding c(4) using sha_pad_long [OF c(5) _ c(6)] False by simp
      then show ?thesis
        using sha_iterate_block [of "full @ ?l" "replicate 56 0 @ ?n"]
          sha_iterate_block [OF c(5) l(2)] c(5) l(2) by simp
    qed
    ultimately show ?thesis
      using c False l by (simp add: sha256_finish_def Let_def sha256_spec_def)
  qed
qed

interpretation sha256_stream: stream_digest sha256_new "\<lambda>bs. sha256_update (Some bs) (length bs)"
  "\<lambda>c. fst (sha256_finish c)" sha256_absorbed
  by unfold_locales
    (auto intro: sha256_absorbed_new sha256_absorbed_update sha256_finish_absorbed)

end
