(* ===== verification/Sha256Fips.thy ===== *)
theory Sha256Fips
  imports Sha256Spec Complex_Main
begin

text \<open>
  The hash function of FIPS 180-4 from its own definitions: the constants as fractional parts of
  roots of primes, the message schedule as a recursion, the rounds with rotations. The compression
  function of the code and its constant tables are equal to them.
\<close>

section \<open>The standard's definitions\<close>

text \<open>The first 64 primes.\<close>

definition sha_primes :: "int list" where
  "sha_primes = [
     2, 3, 5, 7, 11, 13, 17, 19, 23, 29, 31, 37, 41, 43, 47, 53, 59, 61, 67, 71, 73, 79,
     83, 89, 97, 101, 103, 107, 109, 113, 127, 131, 137, 139, 149, 151, 157, 163, 167, 173, 179, 181, 191, 193,
     197, 199, 211, 223, 227, 229, 233, 239, 241, 251, 257, 263, 269, 271, 277, 281, 283, 293, 307, 311]"

text \<open>The first 32 bits of the fractional part of a cube or square root.\<close>

definition fips_K :: "nat \<Rightarrow> u32" where
  "fips_K t = of_int \<lfloor>2 ^ 32 * root 3 (of_int (sha_primes ! t))\<rfloor>"

definition fips_H0 :: "nat \<Rightarrow> u32" where
  "fips_H0 t = of_int \<lfloor>2 ^ 32 * root 2 (of_int (sha_primes ! t))\<rfloor>"

definition fips_Ch :: "u32 \<Rightarrow> u32 \<Rightarrow> u32 \<Rightarrow> u32" where
  "fips_Ch x y z = (x AND y) XOR (NOT x AND z)"

definition fips_Maj :: "u32 \<Rightarrow> u32 \<Rightarrow> u32 \<Rightarrow> u32" where
  "fips_Maj x y z = (x AND y) XOR (x AND z) XOR (y AND z)"

definition fips_Sigma0 :: "u32 \<Rightarrow> u32" where
  "fips_Sigma0 x = word_rotr 2 x XOR word_rotr 13 x XOR word_rotr 22 x"

definition fips_Sigma1 :: "u32 \<Rightarrow> u32" where
  "fips_Sigma1 x = word_rotr 6 x XOR word_rotr 11 x XOR word_rotr 25 x"

definition fips_sigma0 :: "u32 \<Rightarrow> u32" where
  "fips_sigma0 x = word_rotr 7 x XOR word_rotr 18 x XOR drop_bit 3 x"

definition fips_sigma1 :: "u32 \<Rightarrow> u32" where
  "fips_sigma1 x = word_rotr 17 x XOR word_rotr 19 x XOR drop_bit 10 x"

text \<open>The 32-bit word whose most significant byte comes first.\<close>

definition fips_word :: "byte list \<Rightarrow> u32" where
  "fips_word bs = of_nat (foldl (\<lambda>v b. 256 * v + unat b) 0 bs)"

fun fips_W :: "byte list \<Rightarrow> nat \<Rightarrow> u32" where
  "fips_W block t =
     (if t < 16 then fips_word (take 4 (drop (4 * t) block))
      else fips_sigma1 (fips_W block (t - 2)) + fips_W block (t - 7) +
           fips_sigma0 (fips_W block (t - 15)) + fips_W block (t - 16))"

declare fips_W.simps [simp del]

definition fips_round :: "byte list \<Rightarrow> nat \<Rightarrow> sha_regs \<Rightarrow> sha_regs" where
  "fips_round block t = (\<lambda>(a, b, c, d, e, f, g, h).
     let T1 = h + fips_Sigma1 e + fips_Ch e f g + fips_K t + fips_W block t;
         T2 = fips_Sigma0 a + fips_Maj a b c
     in (T1 + T2, a, b, c, d + T1, e, f, g))"

definition fips_compress :: "byte list \<Rightarrow> u32 list \<Rightarrow> u32 list" where
  "fips_compress block H =
     (let (a, b, c, d, e, f, g, h) = fold (fips_round block) [0..<64]
            (H ! 0, H ! 1, H ! 2, H ! 3, H ! 4, H ! 5, H ! 6, H ! 7)
      in map2 (+) [a, b, c, d, e, f, g, h] H)"

text \<open>The four bytes of a word, the most significant one first.\<close>

definition fips_bytes :: "u32 \<Rightarrow> byte list" where
  "fips_bytes h = map (\<lambda>i. of_nat (unat h div 256 ^ (3 - i) mod 256)) [0..<4]"

definition sha256_fips :: "byte list \<Rightarrow> byte list" where
  "sha256_fips msg = concat (map fips_bytes (fold fips_compress (blocks (sha_pad msg)) (map fips_H0 [0..<8])))"

section \<open>The constants\<close>

lemma floor_root:
  fixes p n :: int
  assumes "0 < k" and "0 \<le> n" and "n ^ k \<le> p * (2 ^ 32) ^ k" and "p * (2 ^ 32) ^ k < (n + 1) ^ k"
  shows "\<lfloor>2 ^ 32 * root k (of_int p)\<rfloor> = n"
proof -
  let ?x = "2 ^ 32 * root k (of_int p)"
  have "2 ^ 32 = root k ((2 ^ 32) ^ k)"
    using assms(1) by (intro real_root_power_cancel [symmetric]) simp_all
  then have x: "?x = root k (of_int (p * (2 ^ 32) ^ k))"
    by (simp only: of_int_mult of_int_power of_int_numeral real_root_mult) (simp only: mult.commute)
  have "of_int n = root k (of_int (n ^ k))" "of_int (n + 1) = root k (of_int ((n + 1) ^ k))"
    using assms(1,2) by (simp_all only: of_int_power add_nonneg_nonneg zero_le_one real_root_power_cancel of_int_0_le_iff)
  then have "of_int n \<le> ?x" "?x < of_int (n + 1)"
    unfolding x using assms by (simp_all only: real_root_le_iff real_root_less_iff of_int_le_iff of_int_less_iff)
  then show ?thesis
    by (intro floor_unique) simp_all
qed

text \<open>A table holds the fractional parts when, with the integer part of the root in front, each entry
  is the integer root of the prime scaled.\<close>

definition root_table :: "nat \<Rightarrow> u32 list \<Rightarrow> bool" where
  "root_table k ws \<longleftrightarrow> list_all (\<lambda>(p, w).
     let q = int (length (takeWhile (\<lambda>q. q ^ k \<le> p) [1..17]));
         n = q * 2 ^ 32 + uint w
     in n ^ k \<le> p * (2 ^ 32) ^ k \<and> p * (2 ^ 32) ^ k < (n + 1) ^ k) (zip sha_primes ws)"

lemma root_table_nth:
  assumes "root_table k ws" and "0 < k" and "t < length ws" and "t < length sha_primes"
  shows "of_int \<lfloor>2 ^ 32 * root k (of_int (sha_primes ! t))\<rfloor> = ws ! t"
proof -
  define q where "q = length (takeWhile (\<lambda>q. q ^ k \<le> sha_primes ! t) [1..17])"
  have q: "(int q * 2 ^ 32 + uint (ws ! t)) ^ k \<le> sha_primes ! t * (2 ^ 32) ^ k"
    "sha_primes ! t * (2 ^ 32) ^ k < (int q * 2 ^ 32 + uint (ws ! t) + 1) ^ k"
    using assms unfolding root_table_def list_all_length Let_def q_def by auto
  have "take_bit 32 (int q * 2 ^ 32 + uint (ws ! t)) = uint (ws ! t)"
    using uint_bounded [of "ws ! t"] by (simp add: take_bit_eq_mod)
  then have "(of_int (int q * 2 ^ 32 + uint (ws ! t)) :: u32) = ws ! t"
    by (simp only: word_uint_eq_iff uint_word_of_int_eq) simp
  then show ?thesis
    using floor_root [OF assms(2) _ q] by simp
qed

lemma kRoundConstants_table: "root_table 3 kRoundConstants"
  by code_simp

lemma sha256_initial_table: "root_table 2 sha256_initial"
  by code_simp

lemma sha_primes_length: "length sha_primes = 64"
  by (simp add: sha_primes_def)

lemma kRoundConstants_fips: "t < 64 \<Longrightarrow> kRoundConstants ! t = fips_K t"
  using root_table_nth [OF kRoundConstants_table, of t]
  by (simp add: fips_K_def sha_primes_length kRoundConstants_def)

lemma sha256_initial_fips: "sha256_initial = map fips_H0 [0..<8]"
  using root_table_nth [OF sha256_initial_table]
  by (intro nth_equalityI) (simp_all add: fips_H0_def sha_primes_length sha256_initial_def)

section \<open>The compression function\<close>

lemma rotate_right_rotr:
  assumes "0 < n" and "n < 32"
  shows "rotate_right x n = word_rotr n x"
proof (rule bit_word_eqI)
  fix i assume i: "i < LENGTH(32)"
  have "(i + n) mod 32 = (if i + n < 32 then i + n else i + n - 32)"
    using i assms by (auto simp: mod_if)
  moreover have "\<not> bit x (n + i)" if "\<not> i + n < 32"
    using that bit_imp_le_length [of x "n + i"] by auto
  ultimately show "bit (rotate_right x n) i = bit (word_rotr n x) i"
    using i assms
    by (auto simp: rotate_right_def bit_or_iff bit_drop_bit_eq bit_push_bit_iff bit_word_rotr_iff add.commute)
qed

lemma load_be32_fips:
  assumes "4 \<le> length bs"
  shows "load_be32 bs = fips_word (take 4 bs)"
proof -
  obtain a b c d rest where bs: "bs = a # b # c # d # rest"
    using assms by (auto simp: numeral_eq_Suc Suc_le_length_iff)
  let ?u = "ucast :: byte \<Rightarrow> u32"
  have lt: "bit (?u x) n \<Longrightarrow> n < 8" for x n
    using bit_imp_le_length [of x n] by (simp add: bit_ucast_iff)
  have "push_bit 24 (?u a) OR push_bit 16 (?u b) OR push_bit 8 (?u c) OR ?u d =
      push_bit 24 (?u a) + (push_bit 16 (?u b) + (push_bit 8 (?u c) + ?u d))"
    by (subst disjunctive_add; (subst disjunctive_add)?; (subst disjunctive_add)?)
      (auto simp: bit_or_iff bit_push_bit_iff dest!: lt)
  moreover have "?u x = of_nat (unat x)" for x
    by simp
  ultimately show ?thesis
    unfolding bs load_be32_def fips_word_def
    by (simp add: push_bit_eq_mult algebra_simps del: of_nat_unat)
qed

lemma load_words:
  "n \<le> length ws \<Longrightarrow> length (fold (load_word block) [0..<n] ws) = length ws \<and>
     (\<forall>t<n. fold (load_word block) [0..<n] ws ! t = load_be32 (drop (t * 4) block))"
  by (induction n) (auto simp: load_word_def nth_list_update less_Suc_eq)

lemma extend_word_fips:
  assumes "16 \<le> n" and "\<And>t. t < n \<Longrightarrow> ws ! t = fips_W block t"
  shows "extend_word n ws = ws[n := fips_W block n]"
proof -
  have "ws ! (n - k) = fips_W block (n - k)" if "0 < k" for k
    using assms that by simp
  then show ?thesis
    using assms(1) by (subst fips_W.simps)
      (simp add: extend_word_def fips_sigma0_def fips_sigma1_def rotate_right_rotr add_ac)
qed

lemma message_schedule_fips:
  assumes "length block = 64"
  shows "t < 64 \<Longrightarrow> message_schedule block ! t = fips_W block t"
proof -
  let ?ws = "fold (load_word block) [0..<16] (replicate 64 0)"
  have "length (fold extend_word [16..<n] ?ws) = 64 \<and>
      (\<forall>t<n. fold extend_word [16..<n] ?ws ! t = fips_W block t)" if "16 \<le> n" "n \<le> 64" for n
    using that
  proof (induction n rule: dec_induct)
    case base
    have "load_be32 (drop (t * 4) block) = fips_W block t" if "t < 16" for t
      using that assms by (subst fips_W.simps) (simp add: load_be32_fips mult.commute)
    then show ?case
      using load_words [of 16 "replicate 64 0" block] by simp
  next
    case (step n)
    then have "extend_word n (fold extend_word [16..<n] ?ws) =
        (fold extend_word [16..<n] ?ws)[n := fips_W block n]"
      by (intro extend_word_fips) simp_all
    then show ?case
      using step by (auto simp: less_Suc_eq)
  qed
  from this [of 64] show "t < 64 \<Longrightarrow> message_schedule block ! t = fips_W block t"
    unfolding message_schedule_def by (simp del: upt_rec_numeral)
qed

lemma transform_fips:
  assumes "length block = 64" and "length state = 8"
  shows "transform block state = fips_compress block state"
proof -
  have "compress_round (message_schedule block) t = fips_round block t" if "t < 64" for t
    using that assms(1)
    by (simp add: fun_eq_iff compress_round_def fips_round_def Let_def fips_Sigma0_def fips_Sigma1_def
        fips_Ch_def fips_Maj_def rotate_right_rotr message_schedule_fips kRoundConstants_fips)
  then have rounds: "fold (compress_round (message_schedule block)) [0..<64] = fold (fips_round block) [0..<64]"
    by (intro ext fold_cong) simp_all
  have "state = map ((!) state) [0..<8]"
    using assms(2) by (metis map_nth)
  then obtain s0 s1 s2 s3 s4 s5 s6 s7 where "state = [s0, s1, s2, s3, s4, s5, s6, s7]"
    by (simp add: upt_rec)
  then show ?thesis
    by (simp add: transform_def fips_compress_def rounds Let_def split: prod.split)
qed

lemma digest_bytes_fips: "digest_bytes H = concat (map fips_bytes H)"
proof -
  have "(ucast (drop_bit k h) :: byte) = of_nat (unat h div 2 ^ k mod 256)" for h :: u32 and k
  proof -
    have "unat (drop_bit k h) = unat h div 2 ^ k"
      using take_bit_nat_eq_self [of "unat h" 32] unsigned_less [of h, where ?'a = nat]
      by (simp add: unsigned_drop_bit_eq drop_bit_eq_div [where ?'a = nat])
    then show ?thesis
      by (simp add: word_unat_eq_iff unsigned_ucast_eq unsigned_of_nat take_bit_eq_mod)
  qed
  from this [of 24] this [of 16] this [of 8] this [of 0] have "store_be32 = fips_bytes"
    by (simp add: fun_eq_iff store_be32_def fips_bytes_def upt_rec)
  then show ?thesis
    by (simp add: digest_bytes_def)
qed

lemma sha256_spec_fips: "sha256_spec msg = sha256_fips msg"
proof -
  have "length state = 8 \<Longrightarrow> list_all (\<lambda>b. length b = 64) bs \<Longrightarrow>
      fold transform bs state = fold fips_compress bs state" for bs and state :: "u32 list"
    by (induction bs arbitrary: state) (auto simp: transform_fips [symmetric] transform_def split: prod.split)
  moreover have "list_all (\<lambda>b. length b = 64) (blocks bs)" for bs
    by (auto simp: blocks_def list_all_iff)
  ultimately show ?thesis
    by (simp add: sha256_spec_def sha256_fips_def sha_iterate_def digest_bytes_fips sha256_initial_fips [symmetric])
      (simp add: sha256_initial_def)
qed

end
