(* ===== verification/Sha256Engine.thy ===== *)
theory Sha256Engine
  imports Sha256Spec
begin

text \<open>
  The SHA-256 of the expert pager (\<open>src/qwen4exp/expert_pager.cpp\<close>: \<open>Sha256Engine\<close>,
  \<open>hex_digit\<close>, \<open>Sha256::from_hex\<close>, \<open>Sha256::hex\<close>, \<open>sha256_bytes\<close>). It fills one block at a
  time instead of hashing whole blocks from the source; it provides the same interface
  \<open>stream_digest\<close>, hence the same digests as the runtime's class.
\<close>

section \<open>The engine\<close>

definition engine_k :: "u32 list" where
  "engine_k = concat [
    [0x428a2f98, 0x71374491, 0xb5c0fbcf, 0xe9b5dba5],
    [0x3956c25b, 0x59f111f1, 0x923f82a4, 0xab1c5ed5],
    [0xd807aa98, 0x12835b01, 0x243185be, 0x550c7dc3],
    [0x72be5d74, 0x80deb1fe, 0x9bdc06a7, 0xc19bf174],
    [0xe49b69c1, 0xefbe4786, 0x0fc19dc6, 0x240ca1cc],
    [0x2de92c6f, 0x4a7484aa, 0x5cb0a9dc, 0x76f988da],
    [0x983e5152, 0xa831c66d, 0xb00327c8, 0xbf597fc7],
    [0xc6e00bf3, 0xd5a79147, 0x06ca6351, 0x14292967],
    [0x27b70a85, 0x2e1b2138, 0x4d2c6dfc, 0x53380d13],
    [0x650a7354, 0x766a0abb, 0x81c2c92e, 0x92722c85],
    [0xa2bfe8a1, 0xa81a664b, 0xc24b8b70, 0xc76c51a3],
    [0xd192e819, 0xd6990624, 0xf40e3585, 0x106aa070],
    [0x19a4c116, 0x1e376c08, 0x2748774c, 0x34b0bcb5],
    [0x391c0cb3, 0x4ed8aa4a, 0x5b9cca4f, 0x682e6ff3],
    [0x748f82ee, 0x78a5636f, 0x84c87814, 0x8cc70208],
    [0x90befffa, 0xa4506ceb, 0xbef9a3f7, 0xc67178f2]]"

definition engine_load :: "byte list \<Rightarrow> nat \<Rightarrow> u32 list \<Rightarrow> u32 list" where
  "engine_load block i words =
     (let j = i * 4
      in words[i := push_bit 24 (ucast (block ! j)) OR push_bit 16 (ucast (block ! (j + 1))) OR
                    push_bit 8 (ucast (block ! (j + 2))) OR ucast (block ! (j + 3))])"

definition engine_extend :: "nat \<Rightarrow> u32 list \<Rightarrow> u32 list" where
  "engine_extend i words =
     (let s0 = rotate_right (words ! (i - 15)) 7 XOR rotate_right (words ! (i - 15)) 18 XOR
               drop_bit 3 (words ! (i - 15));
          s1 = rotate_right (words ! (i - 2)) 17 XOR rotate_right (words ! (i - 2)) 19 XOR
               drop_bit 10 (words ! (i - 2))
      in words[i := words ! (i - 16) + s0 + words ! (i - 7) + s1])"

definition engine_round :: "u32 list \<Rightarrow> nat \<Rightarrow> sha_regs \<Rightarrow> sha_regs" where
  "engine_round words i = (\<lambda>(a, b, c, d, e, f, g, h).
     let s1 = rotate_right e 6 XOR rotate_right e 11 XOR rotate_right e 25;
         choice = (e AND f) XOR (NOT e AND g);
         temp1 = h + s1 + choice + engine_k ! i + words ! i;
         s0 = rotate_right a 2 XOR rotate_right a 13 XOR rotate_right a 22;
         majority = (a AND b) XOR (a AND c) XOR (b AND c);
         temp2 = s0 + majority
     in (temp1 + temp2, a, b, c, d + temp1, e, f, g))"

definition engine_transform :: "byte list \<Rightarrow> u32 list \<Rightarrow> u32 list" where
  "engine_transform block state =
     (let words = fold engine_extend [16..<64] (fold (engine_load block) [0..<16] (replicate 64 0));
          (a, b, c, d, e, f, g, h) = fold (engine_round words) [0..<64]
            (state ! 0, state ! 1, state ! 2, state ! 3, state ! 4, state ! 5, state ! 6, state ! 7)
      in [state ! 0 + a, state ! 1 + b, state ! 2 + c, state ! 3 + d,
          state ! 4 + e, state ! 5 + f, state ! 6 + g, state ! 7 + h])"

record sha256_engine =
  en_state :: "u32 list"
  en_block :: "byte list"
  en_block_size :: nat
  en_total_bytes :: u64

definition engine_new :: sha256_engine where
  "engine_new = \<lparr>en_state = sha256_initial, en_block = replicate 64 0, en_block_size = 0,
     en_total_bytes = 0\<rparr>"

text \<open>One iteration of the loop of \<open>update\<close>: the bytes left and the engine.\<close>

definition engine_step :: "byte list \<Rightarrow> sha256_engine \<Rightarrow> byte list \<times> sha256_engine" where
  "engine_step data e =
     (let n = min (length data) (64 - en_block_size e);
          block = copy_at (en_block_size e) (take n data) (en_block e);
          block_size = en_block_size e + n
      in (drop n data,
          if block_size = 64
          then e\<lparr>en_block := block, en_state := engine_transform block (en_state e), en_block_size := 0\<rparr>
          else e\<lparr>en_block := block, en_block_size := block_size\<rparr>))"

text \<open>The loop ends when no byte is left; a full block at its head would make it spin forever.\<close>

partial_function (option) engine_loop :: "byte list \<Rightarrow> sha256_engine \<Rightarrow> sha256_engine option" where
  [code]: "engine_loop data e =
     (if data = [] then Some e
      else case engine_step data e of (rest, e') \<Rightarrow> engine_loop rest e')"

definition engine_update :: "byte list \<Rightarrow> sha256_engine \<Rightarrow> sha256_engine option" where
  "engine_update data e =
     (if data = [] then Some e
      else engine_loop data (e\<lparr>en_total_bytes := en_total_bytes e + of_nat (length data)\<rparr>))"

definition engine_finish :: "sha256_engine \<Rightarrow> byte list" where
  "engine_finish e =
     (let bit_count = en_total_bytes e * 8;
          block = (en_block e)[en_block_size e := 0x80];
          block_size = en_block_size e + 1;
          (block, block_size, state) =
            (if 56 < block_size then
               let block = take block_size block @ replicate (64 - block_size) 0
               in (block, 0, engine_transform block (en_state e))
             else (block, block_size, en_state e));
          block = copy_at block_size (replicate (56 - block_size) 0) block;
          block = store_bit_count bit_count block
      in digest_bytes (engine_transform block state))"

section \<open>Hexadecimal text\<close>

text \<open>The codes of \<open>'0'\<close>, \<open>'9'\<close>, \<open>'a'\<close>, \<open>'f'\<close>, \<open>'A'\<close> and \<open>'F'\<close> are 48, 57, 97, 102, 65 and 70.\<close>

definition hex_digit :: "char \<Rightarrow> int" where
  "hex_digit value =
     (let v = int (of_char value)
      in if 48 \<le> v \<and> v \<le> 57 then v - 48
         else if 97 \<le> v \<and> v \<le> 102 then v - 97 + 10
         else if 65 \<le> v \<and> v \<le> 70 then v - 65 + 10
         else - 1)"

fun from_hex_loop :: "string \<Rightarrow> string + byte list" where
  "from_hex_loop (c # d # text) =
     (let high = hex_digit c; low = hex_digit d
      in if high < 0 \<or> low < 0 then Inl ''SHA-256 text contains a non-hexadecimal digit''
         else case from_hex_loop text of
           Inl err \<Rightarrow> Inl err
         | Inr bytes \<Rightarrow> Inr (word_of_int (push_bit 4 high OR low) # bytes))"
| "from_hex_loop _ = Inr []"

definition from_hex :: "string \<Rightarrow> string + byte list" where
  "from_hex text =
     (if length text \<noteq> 64 then Inl ''SHA-256 text must contain exactly 64 hexadecimal digits''
      else from_hex_loop text)"

definition engine_hex :: "byte list \<Rightarrow> string" where
  "engine_hex bytes =
     concat (map (\<lambda>b. [''0123456789abcdef'' ! unat (drop_bit 4 b),
                       ''0123456789abcdef'' ! unat (b AND 0x0f)]) bytes)"

definition engine_sha256_bytes :: "byte list option \<Rightarrow> nat \<Rightarrow> (string + byte list) option" where
  "engine_sha256_bytes data bytes =
     (if data = None \<and> bytes \<noteq> 0 then Some (Inl ''cannot hash a null non-empty byte range'')
      else map_option (\<lambda>e. Inr (engine_finish e))
             (engine_update (case data of None \<Rightarrow> [] | Some bs \<Rightarrow> take bytes bs) engine_new))"

section \<open>The two compression functions agree\<close>

lemma engine_load_eq: "length block = 64 \<Longrightarrow> i < 16 \<Longrightarrow> engine_load block i = load_word block i"
  by (simp add: engine_load_def load_word_def load_be32_def fun_eq_iff Let_def)

lemma engine_transform_eq:
  assumes "length block = 64"
  shows "engine_transform block state = transform block state"
proof -
  have "fold (engine_load block) [0..<16] ws = fold (load_word block) [0..<16] ws" for ws
    by (rule fold_cong) (simp_all add: engine_load_eq assms)
  moreover have "engine_extend = extend_word"
    by (simp add: fun_eq_iff engine_extend_def extend_word_def)
  moreover have "engine_round = compress_round"
    by (simp add: fun_eq_iff engine_round_def compress_round_def engine_k_def kRoundConstants_def)
  ultimately show ?thesis
    by (simp add: engine_transform_def transform_def message_schedule_def)
qed

section \<open>The engine provides the interface\<close>

text \<open>A context of the runtime's class with the same fields; the engine's finish is that of the class.\<close>

definition engine_context :: "sha256_engine \<Rightarrow> sha256" where
  "engine_context e = \<lparr>sh_state = en_state e, sh_buffer = en_block e, sh_total_bytes = en_total_bytes e,
     sh_buffered = en_block_size e, sh_finished = False, sh_digest = []\<rparr>"

lemma engine_context_sel [simp]:
  "sh_state (engine_context e) = en_state e" "sh_buffer (engine_context e) = en_block e"
  "sh_total_bytes (engine_context e) = en_total_bytes e" "sh_buffered (engine_context e) = en_block_size e"
  "\<not> sh_finished (engine_context e)"
  by (simp_all add: engine_context_def)

definition engine_absorbed :: "sha256_engine \<Rightarrow> byte list \<Rightarrow> bool" where
  "engine_absorbed e m \<longleftrightarrow> sha256_absorbed (engine_context e) m"

lemma length_store_bit_count [simp]: "length (store_bit_count w buffer) = length buffer"
proof -
  have "length (fold (\<lambda>index b. b[63 - index := f index]) is buffer) = length buffer" for f "is"
    by (induction "is" arbitrary: buffer) simp_all
  then show ?thesis by (simp add: store_bit_count_def)
qed

lemma engine_finish_eq:
  assumes "length (en_block e) = 64" and "en_block_size e < 64"
  shows "engine_finish e = fst (sha256_finish (engine_context e))"
proof -
  have "engine_transform (store_bit_count w b) = transform (store_bit_count w b)"
    if "length b = 64" for w b
    using that by (simp add: fun_eq_iff engine_transform_eq)
  moreover have "length (take (Suc (en_block_size e)) ((en_block e)[en_block_size e := 0x80]) @
      replicate (63 - en_block_size e) 0) = 64"
    using assms by simp
  ultimately show ?thesis
    using assms by (simp add: engine_finish_def sha256_finish_def Let_def engine_transform_eq)
qed

text \<open>Before the loop the total already counts the bytes to come.\<close>

definition engine_pending :: "sha256_engine \<Rightarrow> byte list \<Rightarrow> byte list \<Rightarrow> bool" where
  "engine_pending e m data \<longleftrightarrow>
     length (en_block e) = 64 \<and> length (m @ data) < 2 ^ 64 \<and>
     en_total_bytes e = of_nat (length (m @ data)) \<and>
     (\<exists>full rest. m = full @ rest \<and> 64 dvd length full \<and> length rest < 64 \<and>
        en_block_size e = length rest \<and> take (length rest) (en_block e) = rest \<and>
        en_state e = sha_iterate full)"

lemma engine_step_pending:
  assumes "engine_pending e m data" and "data \<noteq> []"
  shows "\<exists>n. 0 < n \<and> n \<le> length data \<and> fst (engine_step data e) = drop n data \<and>
    engine_pending (snd (engine_step data e)) (m @ take n data) (drop n data)"
proof -
  obtain full rest where e: "length (en_block e) = 64" "length (m @ data) < 2 ^ 64"
    "en_total_bytes e = of_nat (length (m @ data))" "m = full @ rest" "64 dvd length full"
    "length rest < 64" "en_block_size e = length rest" "take (length rest) (en_block e) = rest"
    "en_state e = sha_iterate full"
    using assms(1) unfolding engine_pending_def by blast
  let ?n = "min (length data) (64 - length rest)"
  let ?b = "copy_at (length rest) (take ?n data) (en_block e)"
  have len: "length ?b = 64"
    using e(1,6) by (simp add: min_def)
  have pre: "take (length rest + ?n) ?b = rest @ take ?n data"
    using take_copy_at [of "length rest" "en_block e" "take ?n data"] e(1,6,8) by simp
  have whole: "(m @ take ?n data) @ drop ?n data = m @ data"
    by simp
  have pos: "0 < ?n" "?n \<le> length data"
    using assms(2) e(6) by auto
  have "engine_pending (snd (engine_step data e)) (m @ take ?n data) (drop ?n data)"
  proof (cases "length rest + ?n = 64")
    case True
    have b: "?b = rest @ take ?n data"
      using pre len True by (metis take_all order_refl)
    have "length (rest @ take ?n data) = 64"
      using len b by simp
    then have st: "engine_transform ?b (en_state e) = sha_iterate (full @ rest @ take ?n data)"
      and dvd: "64 dvd length (full @ rest @ take ?n data)"
      using e(5,9) b by (simp_all add: sha_iterate_block engine_transform_eq)
    have res: "snd (engine_step data e) =
        e\<lparr>en_block := ?b, en_state := engine_transform ?b (en_state e), en_block_size := 0\<rparr>"
      using True e(7) by (simp add: engine_step_def Let_def)
    have "\<exists>f r. m @ take ?n data = f @ r \<and> 64 dvd length f \<and> length r < 64 \<and> 0 = length r \<and>
        take (length r) ?b = r \<and> engine_transform ?b (en_state e) = sha_iterate f"
      using st dvd e(4) by (intro exI [of _ "full @ rest @ take ?n data"] exI [of _ "[]"]) simp
    then show ?thesis
      unfolding engine_pending_def whole res using e(2,3) len by simp
  next
    case False
    then have "length rest + ?n < 64"
      using e(6) by linarith
    moreover have res: "snd (engine_step data e) = e\<lparr>en_block := ?b, en_block_size := length rest + ?n\<rparr>"
      using False e(7) by (simp add: engine_step_def Let_def)
    ultimately have "\<exists>f r. m @ take ?n data = f @ r \<and> 64 dvd length f \<and> length r < 64 \<and>
        length rest + ?n = length r \<and> take (length r) ?b = r \<and> en_state e = sha_iterate f"
      using e pre pos by (intro exI [of _ full] exI [of _ "rest @ take ?n data"]) simp
    then show ?thesis
      unfolding engine_pending_def whole res using e(2,3) len by simp
  qed
  then show ?thesis
    using pos e(7) by (intro exI [of _ ?n]) (simp add: engine_step_def Let_def)
qed

lemma engine_loop_returns:
  "engine_pending e m data \<Longrightarrow> \<exists>e'. engine_loop data e = Some e' \<and> engine_pending e' (m @ data) []"
proof (induction "length data" arbitrary: data e m rule: less_induct)
  case less
  show ?case
  proof (cases "data = []")
    case True
    then show ?thesis using less.prems by (simp add: engine_loop.simps)
  next
    case False
    then obtain n where n: "0 < n" "n \<le> length data" "fst (engine_step data e) = drop n data"
      "engine_pending (snd (engine_step data e)) (m @ take n data) (drop n data)"
      using engine_step_pending [OF less.prems] by blast
    have "length (drop n data) < length data"
      using n(1,2) by simp
    from less.hyps [OF this n(4)] show ?thesis
      using False n(3) by (subst engine_loop.simps) (simp add: case_prod_beta)
  qed
qed

lemma engine_pending_done: "engine_pending e m [] \<longleftrightarrow> engine_absorbed e m"
  by (simp add: engine_pending_def engine_absorbed_def sha256_absorbed_def)

lemma engine_update_returns:
  assumes "engine_absorbed e m" and "length (m @ data) < 2 ^ 64"
  shows "\<exists>e'. engine_update data e = Some e' \<and> engine_absorbed e' (m @ data)"
proof (cases "data = []")
  case True
  then show ?thesis using assms(1) by (simp add: engine_update_def)
next
  case False
  have "engine_pending (e\<lparr>en_total_bytes := en_total_bytes e + of_nat (length data)\<rparr>) m data"
    using assms by (auto simp: engine_absorbed_def sha256_absorbed_def engine_pending_def)
  from engine_loop_returns [OF this] False show ?thesis
    by (simp add: engine_update_def engine_pending_done)
qed

interpretation engine_stream: stream_digest engine_new "\<lambda>bs e. the (engine_update bs e)"
  engine_finish engine_absorbed
proof unfold_locales
  fix e :: sha256_engine and m bs
  show "engine_absorbed engine_new []"
    by (simp add: engine_absorbed_def sha256_absorbed_def engine_new_def sha_iterate_def)
  show "engine_absorbed (the (engine_update bs e)) (m @ bs)"
    if "engine_absorbed e m" "length (m @ bs) < 2 ^ 64"
    using engine_update_returns [OF that] by auto
  show "engine_finish e = sha256_spec m" if "engine_absorbed e m"
  proof -
    have "length (en_block e) = 64" "en_block_size e < 64"
      using that by (auto simp: engine_absorbed_def sha256_absorbed_def)
    then show ?thesis
      using that sha256_finish_absorbed by (simp add: engine_finish_eq engine_absorbed_def)
  qed
qed

end
