(* ===== verification/Sha256File.thy ===== *)
theory Sha256File
  imports Sha256Engine
begin

text \<open>
  \<open>sha256_file_hex\<close> (\<open>src/axiom_sha256.cpp\<close>). What the operating system answers to the calls of
  one run is a parameter, \<open>hash_env\<close>: the results of \<open>open\<close>, of the two \<open>fstat\<close> calls, of the
  successive \<open>read\<close> calls and of \<open>close\<close>.
\<close>

record file_stat =
  fs_regular :: bool
  fs_dev :: nat
  fs_ino :: nat
  fs_size :: int
  fs_mtim_sec :: int
  fs_mtim_nsec :: int
  fs_ctim_sec :: int
  fs_ctim_nsec :: int

text \<open>One \<open>read\<close>: bytes (none at the end of the file), interrupted, or failed with the text of
  \<open>errno\<close>.\<close>

datatype read_result = read_data "byte list" | read_eintr | read_failed string

record hash_env =
  he_open_error :: "string option"
  he_stat :: "file_stat option"
  he_reads :: "read_result list"
  he_after :: "file_stat option"
  he_close_error :: "string option"

text \<open>The read loop; \<open>None\<close> when the loop is still running after the given answers.\<close>

fun hash_reads ::
  "read_result list \<Rightarrow> sha256 \<Rightarrow> u64 \<Rightarrow> (string + sha256 \<times> u64) option" where
  "hash_reads [] context hashed = None"
| "hash_reads (read_failed err # rs) context hashed = Some (Inl (''read failed: '' @ err))"
| "hash_reads (read_eintr # rs) context hashed = hash_reads rs context hashed"
| "hash_reads (read_data bs # rs) context hashed =
     (if bs = [] then Some (Inr (context, hashed))
      else hash_reads rs (sha256_update (Some bs) (length bs) context) (hashed + of_nat (length bs)))"

definition same_file :: "file_stat \<Rightarrow> file_stat \<Rightarrow> bool" where
  "same_file after status \<longleftrightarrow>
     \<not> (fs_dev after \<noteq> fs_dev status \<or> fs_ino after \<noteq> fs_ino status \<or> fs_size after \<noteq> fs_size status \<or>
        fs_mtim_sec after \<noteq> fs_mtim_sec status \<or> fs_mtim_nsec after \<noteq> fs_mtim_nsec status \<or>
        fs_ctim_sec after \<noteq> fs_ctim_sec status \<or> fs_ctim_nsec after \<noteq> fs_ctim_nsec status)"

text \<open>The checks after the loop, in their order.\<close>

definition hash_checks :: "hash_env \<Rightarrow> file_stat \<Rightarrow> sha256 \<Rightarrow> u64 \<Rightarrow> string + string \<times> u64" where
  "hash_checks env status context hashed =
     (if (case he_after env of None \<Rightarrow> True | Some after \<Rightarrow> \<not> same_file after status)
        then Inl ''file changed while hashing''
      else case he_close_error env of
        Some err \<Rightarrow> Inl (''close failed: '' @ err)
      | None \<Rightarrow>
          if hashed \<noteq> word_of_int (fs_size status) then Inl ''file changed while hashing''
          else Inr (sha256_hex (fst (sha256_finish context)), hashed))"

definition sha256_file_hex :: "bool \<Rightarrow> hash_env \<Rightarrow> (string + string \<times> u64) option" where
  "sha256_file_hex hex_is_null env =
     (if hex_is_null then Some (Inl ''missing output digest'')
      else case he_open_error env of
        Some err \<Rightarrow> Some (Inl (''open failed: '' @ err))
      | None \<Rightarrow>
          (case he_stat env of
             None \<Rightarrow> Some (Inl ''path is not a regular file'')
           | Some status \<Rightarrow>
               if \<not> (fs_regular status \<and> 0 \<le> fs_size status)
               then Some (Inl ''path is not a regular file'')
               else (case hash_reads (he_reads env) sha256_new 0 of
                       None \<Rightarrow> None
                     | Some (Inl err) \<Rightarrow> Some (Inl err)
                     | Some (Inr (context, hashed)) \<Rightarrow> Some (hash_checks env status context hashed))))"

section \<open>What the reads deliver\<close>

text \<open>The bytes read up to the end of the file, if the reads get there without a failure.\<close>

fun delivered :: "read_result list \<Rightarrow> byte list option" where
  "delivered [] = None"
| "delivered (read_failed err # rs) = None"
| "delivered (read_eintr # rs) = delivered rs"
| "delivered (read_data bs # rs) =
     (if bs = [] then Some [] else map_option (\<lambda>more. bs @ more) (delivered rs))"

lemma hash_reads_delivered:
  assumes "delivered rs = Some content" and "sha256_absorbed c m" and "length (m @ content) < 2 ^ 64"
  shows "\<exists>c'. hash_reads rs c hashed = Some (Inr (c', hashed + of_nat (length content))) \<and>
    sha256_absorbed c' (m @ content)"
  using assms
proof (induction rs arbitrary: c m hashed content rule: delivered.induct)
  case (4 bs rs)
  show ?case
  proof (cases "bs = []")
    case True
    then show ?thesis using 4 by simp
  next
    case False
    then obtain more where more: "delivered rs = Some more" "content = bs @ more"
      using "4.prems"(1) by auto
    have "sha256_absorbed (sha256_update (Some bs) (length bs) c) (m @ bs)"
      using "4.prems" more by (intro sha256_absorbed_update) simp_all
    from "4.IH" [OF False more(1) this, of "hashed + of_nat (length bs)"] "4.prems"(3) more(2) False
    show ?thesis by (simp add: add.assoc)
  qed
qed simp_all

lemma hash_reads_success:
  "hash_reads rs c hashed = Some (Inr (c', t)) \<Longrightarrow> \<exists>content. delivered rs = Some content"
  by (induction rs c hashed rule: hash_reads.induct) (auto split: if_splits)

lemma sha256_file_success_iff:
  assumes "\<And>content. delivered (he_reads env) = Some content \<Longrightarrow> length content < 2 ^ 64"
    and "\<And>status. he_stat env = Some status \<Longrightarrow> fs_size status < 2 ^ 64"
  shows "sha256_file_hex False env = Some (Inr (hex, n)) \<longleftrightarrow>
    (\<exists>status after content. he_open_error env = None \<and> he_stat env = Some status \<and> fs_regular status \<and>
       delivered (he_reads env) = Some content \<and> fs_size status = int (length content) \<and>
       he_after env = Some after \<and> same_file after status \<and> he_close_error env = None \<and>
       hex = sha256_hex (sha256_spec content) \<and> n = of_nat (length content))"
  (is "?l \<longleftrightarrow> ?r")
proof
  assume l: ?l
  then obtain status k hashed where s: "he_open_error env = None" "he_stat env = Some status"
    "fs_regular status" "0 \<le> fs_size status"
    "hash_reads (he_reads env) sha256_new 0 = Some (Inr (k, hashed))"
    "hash_checks env status k hashed = Inr (hex, n)"
    by (auto simp: sha256_file_hex_def split: option.splits if_splits sum.splits)
  obtain content where c: "delivered (he_reads env) = Some content"
    using hash_reads_success [OF s(5)] by blast
  have ctx: "hashed = of_nat (length content)" "sha256_absorbed k content"
    using hash_reads_delivered [OF c sha256_absorbed_new, of 0] assms(1) [OF c] s(5) by auto
  have chk: "he_close_error env = None" "hashed = word_of_int (fs_size status)" "n = hashed"
    "hex = sha256_hex (fst (sha256_finish k))"
    "\<exists>after. he_after env = Some after \<and> same_file after status"
    using s(6) by (auto simp: hash_checks_def split: option.splits if_splits)
  have "fs_size status = int (length content)"
  proof -
    have "uint (word_of_int (fs_size status) :: u64) = fs_size status"
      using s(4) assms(2) [OF s(2)] by (simp add: uint_word_of_int take_bit_int_eq_self)
    moreover have "uint (of_nat (length content) :: u64) = int (length content)"
      using assms(1) [OF c] by (simp add: uint_nat unat_of_nat_u64)
    ultimately show ?thesis
      using chk(2) ctx(1) by metis
  qed
  then show ?r
    using s(1-3) c chk sha256_finish_absorbed [OF ctx(2)] ctx(1) by auto
next
  assume ?r
  then obtain status after content where r: "he_open_error env = None" "he_stat env = Some status"
    "fs_regular status" "delivered (he_reads env) = Some content" "fs_size status = int (length content)"
    "he_after env = Some after" "same_file after status" "he_close_error env = None"
    "hex = sha256_hex (sha256_spec content)" "n = of_nat (length content)"
    by blast
  obtain c where "hash_reads (he_reads env) sha256_new 0 = Some (Inr (c, of_nat (length content)))"
    "sha256_absorbed c content"
    using hash_reads_delivered [OF r(4) sha256_absorbed_new, of 0] assms(1) [OF r(4)] by auto
  then show ?l
    using r sha256_finish_absorbed by (simp add: sha256_file_hex_def hash_checks_def)
qed

section \<open>Hexadecimal text\<close>

lemma kHex_digit: "i < 16 \<Longrightarrow> hex_digit (kHex ! i) = int i"
proof -
  have "list_all (\<lambda>i. hex_digit (kHex ! i) = int i) (0 # 1 # [2..<16])"
    by (simp add: hex_digit_def kHex_def Let_def)
  then show "i < 16 \<Longrightarrow> hex_digit (kHex ! i) = int i"
    by (cases "i = 0"; cases "i = 1") (auto simp: list_all_iff simp del: upt_rec_numeral)
qed

text \<open>A letter digit in lower case; other characters stay.\<close>

definition lower_hex :: "char \<Rightarrow> char" where
  "lower_hex c = (if 65 \<le> (of_char c :: nat) \<and> (of_char c :: nat) \<le> 70
     then char_of ((of_char c :: nat) + 32) else c)"

lemma digit_kHex:
  assumes "0 \<le> hex_digit c"
  shows "hex_digit c < 16" and "kHex ! nat (hex_digit c) = lower_hex c"
proof -
  let ?digits = "[48 :: nat..<58] @ [65..<71] @ [97..<103]"
  have "list_all (\<lambda>n. hex_digit (char_of n) < 16 \<and>
      lower_hex (char_of n) = kHex ! nat (hex_digit (char_of n))) ?digits"
    by (simp add: hex_digit_def Let_def kHex_def lower_hex_def char_of_eq_iff)
  moreover have "(of_char c :: nat) \<in> set ?digits"
    using assms by (auto simp: hex_digit_def Let_def simp del: upt_rec_numeral split: if_splits)
  ultimately show "hex_digit c < 16" "kHex ! nat (hex_digit c) = lower_hex c"
    unfolding list_all_iff by (metis char_of_char)+
qed

lemma nibbles_int: "push_bit 4 (drop_bit 4 y) OR take_bit 4 y = y" for y :: int
  by (auto simp: bit_eq_iff bit_or_iff bit_push_bit_iff bit_drop_bit_eq bit_take_bit_iff)

lemma nibbles_byte:
  fixes b :: byte
  shows "int (unat (drop_bit 4 b)) = drop_bit 4 (uint b)" and "unat (drop_bit 4 b) < 16"
    and "int (unat (b AND 0x0f)) = take_bit 4 (uint b)" and "unat (b AND 0x0f) < 16"
proof -
  have b: "uint b < 256"
    using uint_bounded [of b] by simp
  show h: "int (unat (drop_bit 4 b)) = drop_bit 4 (uint b)"
    by (simp add: drop_bit_of_nat unat_drop_bit_eq uint_nat del: of_nat_unat flip: drop_bit_of_nat)
  show l: "int (unat (b AND 0x0f)) = take_bit 4 (uint b)"
    by (simp add: uint_and take_bit_eq_mask mask_eq_exp_minus_1)
  have "drop_bit 4 (uint b) < 16" "take_bit 4 (uint b) < 16"
    using b by (simp_all add: drop_bit_eq_div take_bit_eq_mod int_div_less_iff)
  then show "unat (drop_bit 4 b) < 16" "unat (b AND 0x0f) < 16"
    using h l by linarith+
qed

lemma from_hex_loop_hex: "from_hex_loop (engine_hex bs) = Inr bs"
proof (induction bs)
  case Nil
  show ?case by (simp add: engine_hex_def)
next
  case (Cons b bs)
  have hex: "engine_hex (b # bs) = kHex ! unat (drop_bit 4 b) # kHex ! unat (b AND 0x0f) # engine_hex bs"
    by (simp add: engine_hex_def kHex_def)
  have "hex_digit (kHex ! unat (drop_bit 4 b)) = drop_bit 4 (uint b)"
    "hex_digit (kHex ! unat (b AND 0x0f)) = take_bit 4 (uint b)"
    using kHex_digit nibbles_byte by simp_all
  with Cons show ?case
    unfolding hex by (simp add: Let_def nibbles_int drop_bit_negative_int_iff)
qed

lemma length_engine_hex: "length (engine_hex bs) = 2 * length bs"
  by (induction bs) (simp_all add: engine_hex_def)

lemma hex_from_hex_loop:
  "from_hex_loop t = Inr bs \<Longrightarrow> even (length t) \<Longrightarrow> engine_hex bs = map lower_hex t"
proof (induction t arbitrary: bs rule: from_hex_loop.induct)
  case (1 c d t)
  then obtain bs' where digits: "0 \<le> hex_digit c" "0 \<le> hex_digit d"
    and rest: "from_hex_loop t = Inr bs'"
      "bs = word_of_int (push_bit 4 (hex_digit c) OR hex_digit d) # bs'"
    by (auto simp: Let_def split: if_splits sum.splits)
  let ?v = "push_bit 4 (hex_digit c) OR hex_digit d"
  note c = digit_kHex [OF digits(1)] and d = digit_kHex [OF digits(2)]
  have v: "drop_bit 4 ?v = hex_digit c" "take_bit 4 ?v = hex_digit d"
    using digits d(1)
    by (simp_all add: drop_bit_or drop_bit_push_bit take_bit_or take_bit_push_bit)
      (simp_all add: drop_bit_eq_div take_bit_eq_mod)
  have "?v < 256" "0 \<le> ?v"
    using digits c(1) v(1) by (simp_all add: drop_bit_eq_div int_div_less_iff [of 16 ?v 16, simplified, symmetric])
  then have u: "uint (word_of_int ?v :: byte) = ?v"
    by (simp add: uint_word_of_int take_bit_int_eq_self)
  have "kHex ! unat (drop_bit 4 (word_of_int ?v :: byte)) = lower_hex c"
    "kHex ! unat ((word_of_int ?v :: byte) AND 0x0f) = lower_hex d"
    using nibbles_byte(1,3) [of "word_of_int ?v"] c(2) d(2) v unfolding u by (metis nat_int)+
  moreover have "engine_hex bs' = map lower_hex t"
    using "1.IH" rest(1) "1.prems"(2) digits by (auto simp: not_less)
  ultimately show ?case
    unfolding rest(2) by (simp add: engine_hex_def kHex_def)
qed (auto simp: engine_hex_def)

lemma engine_hex_eq: "engine_hex bs = sha256_hex bs"
  by (simp add: engine_hex_def sha256_hex_def kHex_def)

lemma from_hex_loop_accepts:
  "even (length t) \<Longrightarrow>
     (\<exists>digest. from_hex_loop t = Inr digest) \<longleftrightarrow> list_all (\<lambda>c. 0 \<le> hex_digit c) t"
proof (induction t rule: from_hex_loop.induct)
  case (1 c d t)
  show ?case
  proof (cases "hex_digit c < 0 \<or> hex_digit d < 0")
    case False
    then have "(\<exists>digest. from_hex_loop t = Inr digest) \<longleftrightarrow> list_all (\<lambda>c. 0 \<le> hex_digit c) t"
      using "1.IH" [OF refl refl False] "1.prems" by simp
    with False show ?thesis
      by (auto simp: Let_def not_less split: sum.split)
  qed (auto simp: Let_def)
qed auto

end
