(* ===== verification/Sha256Props.thy ===== *)
theory Sha256Props
  imports Sha256Fips Sha256File
begin

text \<open>
  Properties of the two SHA-256 implementations, of file hashing and of the hexadecimal text.
\<close>

section \<open>The runtime's context\<close>

text \<open>The updates of one client: each pointer with its byte count.\<close>

abbreviation updates :: "(byte list option \<times> nat) list \<Rightarrow> sha256 \<Rightarrow> sha256" where
  "updates \<equiv> fold (\<lambda>(data, bytes). sha256_update data bytes)"

lemma finish_finished: "sh_finished c \<Longrightarrow> sha256_finish c = (sh_digest c, c)"
  by (simp add: sha256_finish_def)

lemma updates_finished: "sh_finished c \<Longrightarrow> updates later c = c"
  by (induction later) (simp_all add: sha256_update_def split: prod.split)

lemma sha256_finish_finished:
  "sh_finished (snd (sha256_finish c))" "sh_digest (snd (sha256_finish c)) = fst (sha256_finish c)"
  by (auto simp: sha256_finish_def Let_def split: prod.split)

text \<open>C15. A digest context fed with any sequence of chunks returns, on finish, the SHA-256 digest that
  FIPS 180-4 defines for the concatenation of the chunks, whatever their sizes, as long as fewer than
  \<open>2 ^ 64\<close> bytes were given.\<close>

theorem sha256_digest_pieces:
  assumes "length (concat pieces) < 2 ^ 64"
  shows "fst (sha256_finish (updates (map (\<lambda>bs. (Some bs, length bs)) pieces) sha256_new)) =
    sha256_fips (concat pieces)"
proof -
  have "updates (map (\<lambda>bs. (Some bs, length bs)) pieces) c =
      fold (\<lambda>bs. sha256_update (Some bs) (length bs)) pieces c" for c
    by (induction pieces arbitrary: c) simp_all
  then show ?thesis
    using sha256_stream.digest_pieces [OF assms] by (simp add: sha256_spec_fips)
qed

theorem sha256_digest_pieces_witness:
  "fst (sha256_finish (updates [(Some [0x61], 1), (Some [0x62, 0x63], 2)] sha256_new)) =
     sha256_fips [0x61, 0x62, 0x63]"
  using sha256_digest_pieces [of "[[0x61], [0x62, 0x63]]"] by simp (simp add: numeral_2_eq_2)

text \<open>C19. A null pointer with a non-zero count, and a count that would overflow the 64-bit total, close
  the context: whatever follows, finish returns 32 zero bytes. A finished context keeps its digest:
  later updates and further calls of finish change nothing.\<close>

theorem sha256_fails_closed:
  assumes "\<not> sh_finished c" and "0 < bytes"
    and "data = None \<or> 2 ^ 64 \<le> unat (sh_total_bytes c) + bytes" and "bytes < 2 ^ 64"
  shows "fst (sha256_finish (updates later (sha256_update data bytes c))) = replicate 32 0 \<and>
    sha256_finish (updates later (snd (sha256_finish d))) = (fst (sha256_finish d), snd (sha256_finish d))"
proof
  have "sha256_update data bytes c = c\<lparr>sh_finished := True, sh_digest := replicate 32 0\<rparr>"
    using assms by (auto simp: sha256_update_def)
  then show "fst (sha256_finish (updates later (sha256_update data bytes c))) = replicate 32 0"
    by (simp add: updates_finished finish_finished)
qed (simp add: updates_finished finish_finished sha256_finish_finished)

theorem sha256_fails_closed_witness:
  "fst (sha256_finish (updates [(Some [7], 1)]
     (sha256_update (Some [1, 2]) 2 (sha256_new\<lparr>sh_total_bytes := 0xFFFFFFFFFFFFFFFF\<rparr>)))) = replicate 32 0 \<and>
   fst (sha256_finish (updates [(Some [7], 1)] (sha256_update None 1 sha256_new))) = replicate 32 0"
  using sha256_fails_closed [of "sha256_new\<lparr>sh_total_bytes := 0xFFFFFFFFFFFFFFFF\<rparr>" 2 "Some [1, 2]" "[(Some [7], 1)]"]
    sha256_fails_closed [of sha256_new 1 None "[(Some [7], 1)]"]
  by (simp add: sha256_new_def)

section \<open>The pager's engine\<close>

lemma engine_updates_returns:
  "engine_absorbed e m \<Longrightarrow> length (m @ concat pieces) < 2 ^ 64 \<Longrightarrow>
   \<exists>e'. fold (\<lambda>bs r. Option.bind r (engine_update bs)) pieces (Some e) = Some e' \<and>
     engine_absorbed e' (m @ concat pieces)"
proof (induction pieces arbitrary: e m)
  case (Cons p ps)
  then obtain e' where "engine_update p e = Some e'" "engine_absorbed e' (m @ p)"
    using engine_update_returns [of e m p] by auto
  with Cons.IH [of e' "m @ p"] Cons.prems show ?case by simp
qed simp

text \<open>C16. The engine that the expert pager carries and the digest of the runtime compute the same
  function: the engine's loops end for every way of cutting an input of fewer than \<open>2 ^ 64\<close> bytes, its
  digest does not depend on the cut, and it is the digest of the runtime's class, in bytes and in
  hexadecimal text.\<close>

theorem engine_agrees:
  assumes "length (concat pieces) < 2 ^ 64"
  shows "\<exists>e. fold (\<lambda>bs r. Option.bind r (engine_update bs)) pieces (Some engine_new) = Some e \<and>
    engine_sha256_bytes (Some (concat pieces)) (length (concat pieces)) = Some (Inr (engine_finish e)) \<and>
    engine_hex (engine_finish e) = sha256_bytes_hex (Some (concat pieces)) (length (concat pieces)) \<and>
    engine_finish e = sha256_fips (concat pieces)"
proof -
  note new = engine_stream.absorbed_new
  obtain e where e: "fold (\<lambda>bs r. Option.bind r (engine_update bs)) pieces (Some engine_new) = Some e"
    "engine_absorbed e (concat pieces)"
    using engine_updates_returns [OF new, of pieces] assms by auto
  obtain f where f: "engine_update (concat pieces) engine_new = Some f" "engine_absorbed f (concat pieces)"
    using engine_update_returns [OF new, of "concat pieces"] assms by auto
  have fin: "engine_finish e = sha256_spec (concat pieces)" "engine_finish f = sha256_spec (concat pieces)"
    using engine_stream.finish_absorbed e(2) f(2) assms by simp_all
  have "fst (sha256_finish (sha256_update (Some (concat pieces)) (length (concat pieces)) sha256_new)) =
      sha256_spec (concat pieces)"
    using sha256_stream.digest_pieces [of "[concat pieces]"] assms by simp
  then show ?thesis
    using e(1) f(1) fin
    by (simp add: engine_sha256_bytes_def sha256_bytes_hex_def engine_hex_eq sha256_spec_fips)
qed

theorem engine_agrees_witness:
  "\<exists>e. fold (\<lambda>bs r. Option.bind r (engine_update bs)) [[1, 2], [], [3]] (Some engine_new) = Some e \<and>
    engine_sha256_bytes (Some [1, 2, 3]) 3 = Some (Inr (engine_finish e)) \<and>
    engine_hex (engine_finish e) = sha256_bytes_hex (Some [1, 2, 3]) 3 \<and>
    engine_finish e = sha256_fips [1, 2, 3]"
  using engine_agrees [of "[[1, 2], [], [3]]"] by (simp add: numeral_3_eq_3)

section \<open>Hexadecimal text\<close>

text \<open>C17. Printing a digest and reading it back gives the digest; reading a text and printing it gives
  the text in lower case, so both printers and the parser agree on every accepted text; and a text
  is accepted exactly when it has 64 characters that are all hexadecimal digits.\<close>

theorem hex_round_trip:
  "(length digest = 32 \<longrightarrow> from_hex (sha256_hex digest) = Inr digest) \<and>
   (from_hex t = Inr digest \<longrightarrow> length digest = 32 \<and> sha256_hex digest = map lower_hex t) \<and>
   ((\<exists>digest. from_hex t = Inr digest) \<longleftrightarrow> length t = 64 \<and> list_all (\<lambda>c. 0 \<le> hex_digit c) t)"
proof (intro conjI impI)
  show "length digest = 32 \<Longrightarrow> from_hex (sha256_hex digest) = Inr digest"
    by (simp add: from_hex_def from_hex_loop_hex length_engine_hex flip: engine_hex_eq)
  assume t: "from_hex t = Inr digest"
  then have "engine_hex digest = map lower_hex t" "length t = 64"
    by (auto simp: from_hex_def intro!: hex_from_hex_loop split: if_splits)
  then show "length digest = 32" "sha256_hex digest = map lower_hex t"
    using length_engine_hex [of digest] by (simp_all flip: engine_hex_eq)
next
  show "(\<exists>digest. from_hex t = Inr digest) \<longleftrightarrow> length t = 64 \<and> list_all (\<lambda>c. 0 \<le> hex_digit c) t"
    using from_hex_loop_accepts [of t] by (auto simp: from_hex_def)
qed

theorem hex_round_trip_witness:
  "from_hex (sha256_hex (replicate 32 0xAB)) = Inr (replicate 32 0xAB) \<and>
   sha256_hex (replicate 32 0xAB) = map lower_hex (concat (replicate 32 ''aB''))"
proof
  show "from_hex (sha256_hex (replicate 32 0xAB)) = Inr (replicate 32 0xAB)"
    using hex_round_trip [of "replicate 32 0xAB"] by simp
  have "from_hex (concat (replicate 32 ''aB'')) = Inr (replicate 32 0xAB)"
    by code_simp
  then show "sha256_hex (replicate 32 0xAB) = map lower_hex (concat (replicate 32 ''aB''))"
    using hex_round_trip [of "replicate 32 0xAB" "concat (replicate 32 ''aB'')"] by simp
qed

section \<open>Files\<close>

text \<open>C18. \<open>sha256_file_hex\<close> succeeds exactly when the file could be opened, is a regular file, every
  read succeeded or was interrupted, the bytes read are as many as the first \<open>fstat\<close> said, the second
  \<open>fstat\<close> shows the same file with unchanged size and times, and the close succeeded; the digest is
  then the FIPS digest of exactly the bytes read.\<close>

theorem sha256_file_success:
  assumes "\<And>content. delivered (he_reads env) = Some content \<Longrightarrow> length content < 2 ^ 63"
    and "\<And>status. he_stat env = Some status \<Longrightarrow> fs_size status < 2 ^ 63"
  shows "sha256_file_hex False env = Some (Inr (hex, n)) \<longleftrightarrow>
    (\<exists>status after content. he_open_error env = None \<and> he_stat env = Some status \<and> fs_regular status \<and>
       delivered (he_reads env) = Some content \<and> fs_size status = int (length content) \<and>
       he_after env = Some after \<and> same_file after status \<and> he_close_error env = None \<and>
       hex = sha256_hex (sha256_fips content) \<and> n = of_nat (length content))"
proof -
  have "length content < 2 ^ 64" if "delivered (he_reads env) = Some content" for content
    using assms(1) [OF that] by simp
  moreover have "fs_size status < 2 ^ 64" if "he_stat env = Some status" for status
    using assms(2) [OF that] by simp
  ultimately show ?thesis
    unfolding sha256_spec_fips [symmetric] by (rule sha256_file_success_iff)
qed

definition demo_stat :: file_stat where
  "demo_stat = \<lparr>fs_regular = True, fs_dev = 1, fs_ino = 42, fs_size = 3, fs_mtim_sec = 7, fs_mtim_nsec = 0,
     fs_ctim_sec = 7, fs_ctim_nsec = 0\<rparr>"

definition demo_env :: hash_env where
  "demo_env = \<lparr>he_open_error = None, he_stat = Some demo_stat,
     he_reads = [read_data [1], read_eintr, read_data [2, 3], read_data []],
     he_after = Some demo_stat, he_close_error = None\<rparr>"

theorem sha256_file_success_witness:
  "sha256_file_hex False demo_env = Some (Inr (sha256_hex (sha256_fips [1, 2, 3]), 3)) \<and>
   (\<forall>hex n. sha256_file_hex False (demo_env\<lparr>he_after := Some (demo_stat\<lparr>fs_mtim_sec := 8\<rparr>)\<rparr>) \<noteq>
      Some (Inr (hex, n)))"
  using sha256_file_success [of demo_env "sha256_hex (sha256_fips [1, 2, 3])" 3]
    sha256_file_success [of "demo_env\<lparr>he_after := Some (demo_stat\<lparr>fs_mtim_sec := 8\<rparr>)\<rparr>"]
  by (simp add: demo_env_def demo_stat_def same_file_def)

end
