(* ===== verification/KvPosix.thy ===== *)
theory KvPosix
  imports Bytes
begin

text \<open>
  The files a KV tier works on and the system calls it makes (\<open>src/axiom_qwen38_kv_tier.cpp\<close>), with
  the exact read and write loops and the helpers that only make system calls.

  A \<open>world\<close> holds names, the files they denote, the host pages the callers own, and the answers that
  the coming system calls get. An answer decides how one call ends: as asked, after fewer bytes,
  interrupted, or failed. When no answers are left every call ends as asked, so a theorem about
  all worlds speaks about all failures of all calls, and one about worlds without answers about
  runs without failures.
\<close>

section \<open>Files and answers\<close>

datatype io_answer = io_done | io_short nat | io_eintr | io_failed

record disk_file =
  df_bytes :: "byte list"
  df_regular :: bool
  df_nlink :: nat
  df_owned :: bool

text \<open>Names denote file numbers; an open descriptor is the number of its file.\<close>

record world =
  w_names :: "string \<Rightarrow> nat option"
  w_files :: "nat \<Rightarrow> disk_file option"
  w_next :: nat
  w_pages :: "u64 \<Rightarrow> byte list"
  w_answers :: "io_answer list"

definition take_answer :: "world \<Rightarrow> io_answer \<times> world" where
  "take_answer w = (case w_answers w of
       [] \<Rightarrow> (io_done, w)
     | a # rest \<Rightarrow> (a, w\<lparr>w_answers := rest\<rparr>))"

text \<open>A call without data: success or failure, no other effect (\<open>fdatasync\<close>, \<open>fsync\<close>, \<open>close\<close>,
  \<open>posix_memalign\<close>, \<open>operator new\<close>, \<open>mmap\<close>).\<close>

definition sys_ok :: "world \<Rightarrow> bool \<times> world" where
  "sys_ok w = (let (a, w) = take_answer w in (a = io_done, w))"

definition file_bytes :: "world \<Rightarrow> nat \<Rightarrow> byte list" where
  "file_bytes w fd = (case w_files w fd of None \<Rightarrow> [] | Some f \<Rightarrow> df_bytes f)"

definition set_bytes :: "nat \<Rightarrow> byte list \<Rightarrow> world \<Rightarrow> world" where
  "set_bytes fd bs w = (case w_files w fd of
       None \<Rightarrow> w
     | Some f \<Rightarrow> w\<lparr>w_files := (w_files w)(fd := Some (f\<lparr>df_bytes := bs\<rparr>))\<rparr>)"

datatype transfer = transferred "byte list" | interrupted | transfer_failed

definition sys_pread :: "nat \<Rightarrow> nat \<Rightarrow> nat \<Rightarrow> world \<Rightarrow> transfer \<times> world" where
  "sys_pread fd count offset w =
     (let (a, w) = take_answer w
      in (case a of
            io_done \<Rightarrow> transferred (field_at offset count (file_bytes w fd))
          | io_short k \<Rightarrow> transferred (field_at offset (min k count) (file_bytes w fd))
          | io_eintr \<Rightarrow> interrupted
          | io_failed \<Rightarrow> transfer_failed, w))"

text \<open>What \<open>pwrite\<close> answers is the part of the buffer it has written.\<close>

definition sys_pwrite :: "nat \<Rightarrow> byte list \<Rightarrow> nat \<Rightarrow> world \<Rightarrow> transfer \<times> world" where
  "sys_pwrite fd bs offset w =
     (let (a, w) = take_answer w;
          put = (\<lambda>part. (transferred part, set_bytes fd (write_at offset part (file_bytes w fd)) w))
      in case a of
           io_done \<Rightarrow> put bs
         | io_short k \<Rightarrow> put (take k bs)
         | io_eintr \<Rightarrow> (interrupted, w)
         | io_failed \<Rightarrow> (transfer_failed, w))"

section \<open>The exact loops\<close>

lemma take_answer_len:
  "take_answer w = (a, w') \<Longrightarrow> length (w_answers w') = length (w_answers w) - 1"
  "take_answer w = (a, w') \<Longrightarrow> a \<noteq> io_done \<Longrightarrow> length (w_answers w') < length (w_answers w)"
  by (auto simp: take_answer_def split: list.splits)

lemma set_bytes_answers [simp]: "w_answers (set_bytes fd bs w) = w_answers w"
  by (simp add: set_bytes_def split: option.split)

lemma sys_pread_answers:
  "sys_pread fd count offset w = (r, w') \<Longrightarrow>
     length (w_answers w') \<le> length (w_answers w) \<and>
     (r = interrupted \<longrightarrow> length (w_answers w') < length (w_answers w)) \<and>
     (\<forall>d. r = transferred d \<longrightarrow> length d \<le> count)"
  using take_answer_len [of w]
  by (fastforce simp: sys_pread_def Let_def field_at_def split: prod.splits io_answer.splits)

lemma sys_pwrite_answers:
  "sys_pwrite fd bs offset w = (r, w') \<Longrightarrow>
     length (w_answers w') \<le> length (w_answers w) \<and>
     (r = interrupted \<longrightarrow> length (w_answers w') < length (w_answers w)) \<and>
     (\<forall>d. r = transferred d \<longrightarrow> length d \<le> length bs)"
  using take_answer_len [of w]
  by (fastforce simp: sys_pwrite_def Let_def split: prod.splits io_answer.splits)

text \<open>\<open>exact_pread\<close>: the bytes read, \<open>AXIOM_ERR_IO\<close> on a failure or at the end of the file.\<close>

function exact_pread :: "nat \<Rightarrow> nat \<Rightarrow> nat \<Rightarrow> world \<Rightarrow> (axiom_status + byte list) \<times> world" where
  "exact_pread fd bytes offset w =
     (if bytes = 0 then (Inr [], w)
      else case sys_pread fd bytes offset w of
        (transferred d, w) \<Rightarrow>
          (if d = [] then (Inl AXIOM_ERR_IO, w)
           else case exact_pread fd (bytes - length d) (offset + length d) w of
             (Inr rest, w) \<Rightarrow> (Inr (d @ rest), w)
           | (Inl e, w) \<Rightarrow> (Inl e, w))
      | (interrupted, w) \<Rightarrow> exact_pread fd bytes offset w
      | (transfer_failed, w) \<Rightarrow> (Inl AXIOM_ERR_IO, w))"
  by pat_completeness auto
termination
proof (relation "measure (\<lambda>(fd, bytes, offset, w). bytes + length (w_answers w))", goal_cases)
  case (2 fd bytes offset w x w' d)
  then show ?case
    using sys_pread_answers [of fd bytes offset w "transferred d" w'] by (cases d) auto
next
  case (3 fd bytes offset w x w')
  then show ?case
    using sys_pread_answers [of fd bytes offset w interrupted w'] by auto
qed simp

declare exact_pread.simps [simp del]

text \<open>The bytes that \<open>exact_pread\<close> has put into the caller's buffer when it returns, also when it fails.\<close>

function pread_stored :: "nat \<Rightarrow> nat \<Rightarrow> nat \<Rightarrow> world \<Rightarrow> byte list" where
  "pread_stored fd bytes offset w =
     (if bytes = 0 then []
      else case sys_pread fd bytes offset w of
        (transferred d, w) \<Rightarrow> (if d = [] then [] else d @ pread_stored fd (bytes - length d) (offset + length d) w)
      | (interrupted, w) \<Rightarrow> pread_stored fd bytes offset w
      | (transfer_failed, w) \<Rightarrow> [])"
  by pat_completeness auto
termination
proof (relation "measure (\<lambda>(fd, bytes, offset, w). bytes + length (w_answers w))", goal_cases)
  case (2 fd bytes offset w x w' d)
  then show ?case
    using sys_pread_answers [of fd bytes offset w "transferred d" w'] by (cases d) auto
next
  case (3 fd bytes offset w x w')
  then show ?case
    using sys_pread_answers [of fd bytes offset w interrupted w'] by auto
qed simp

declare pread_stored.simps [simp del]

text \<open>\<open>exact_pwrite\<close> of a buffer at an offset.\<close>

function exact_pwrite :: "nat \<Rightarrow> byte list \<Rightarrow> nat \<Rightarrow> world \<Rightarrow> axiom_status \<times> world" where
  "exact_pwrite fd bs offset w =
     (if bs = [] then (AXIOM_OK, w)
      else case sys_pwrite fd bs offset w of
        (transferred d, w) \<Rightarrow>
          (if d = [] then (AXIOM_ERR_IO, w)
           else exact_pwrite fd (drop (length d) bs) (offset + length d) w)
      | (interrupted, w) \<Rightarrow> exact_pwrite fd bs offset w
      | (transfer_failed, w) \<Rightarrow> (AXIOM_ERR_IO, w))"
  by pat_completeness auto
termination
proof (relation "measure (\<lambda>(fd, bs, offset, w). length bs + length (w_answers w))", goal_cases)
  case (2 fd bs offset w x w' d)
  then show ?case
    using sys_pwrite_answers [of fd bs offset w "transferred d" w'] by (cases d; cases bs) auto
next
  case (3 fd bs offset w x w')
  then show ?case
    using sys_pwrite_answers [of fd bs offset w interrupted w'] by auto
qed simp

declare exact_pwrite.simps [simp del]

section \<open>Names\<close>

text \<open>\<open>open\<close> of an existing file: \<open>Inl True\<close> stands for \<open>ENOENT\<close>, \<open>Inl False\<close> for another error.\<close>

definition sys_open :: "string \<Rightarrow> world \<Rightarrow> (bool + nat) \<times> world" where
  "sys_open path w =
     (let (a, w) = take_answer w
      in if a \<noteq> io_done then (Inl False, w)
         else (case w_names w path of None \<Rightarrow> Inl True | Some fd \<Rightarrow> Inr fd, w))"

definition empty_file :: disk_file where
  "empty_file = \<lparr>df_bytes = [], df_regular = True, df_nlink = 1, df_owned = True\<rparr>"

definition new_file :: "string \<Rightarrow> world \<Rightarrow> nat \<times> world" where
  "new_file path w = (w_next w, w\<lparr>w_names := (w_names w)(path := Some (w_next w)),
     w_files := (w_files w)(w_next w := Some empty_file), w_next := w_next w + 1\<rparr>)"

text \<open>\<open>O_CREAT\<close> opens or creates, \<open>O_CREAT | O_EXCL\<close> only creates.\<close>

definition sys_open_creat :: "bool \<Rightarrow> string \<Rightarrow> world \<Rightarrow> nat option \<times> world" where
  "sys_open_creat excl path w =
     (let (a, w) = take_answer w
      in if a \<noteq> io_done then (None, w)
         else case w_names w path of
           Some fd \<Rightarrow> (if excl then None else Some fd, w)
         | None \<Rightarrow> let (fd, w) = new_file path w in (Some fd, w))"

text \<open>\<open>unlink\<close> with a missing name counted as success, as both callers do.\<close>

definition sys_unlink :: "string \<Rightarrow> world \<Rightarrow> bool \<times> world" where
  "sys_unlink path w =
     (let (a, w) = take_answer w
      in if a \<noteq> io_done then (False, w) else (True, w\<lparr>w_names := (w_names w)(path := None)\<rparr>))"

definition sys_rename :: "string \<Rightarrow> string \<Rightarrow> world \<Rightarrow> bool \<times> world" where
  "sys_rename old new w =
     (let (a, w) = take_answer w
      in if a \<noteq> io_done \<or> w_names w old = None then (False, w)
         else (True, w\<lparr>w_names := (w_names w)(new := w_names w old, old := None)\<rparr>))"

definition parent_directory_sync :: "string \<Rightarrow> world \<Rightarrow> bool \<times> world" where
  "parent_directory_sync path w =
     (case sys_ok w of
        (False, w) \<Rightarrow> (False, w)
      | (True, w) \<Rightarrow> sys_ok w)"

definition regular_private_file :: "nat \<Rightarrow> nat \<Rightarrow> world \<Rightarrow> bool \<times> world" where
  "regular_private_file fd expected_bytes w =
     (let (stat_ok, w) = sys_ok w
      in (case w_files w fd of
            None \<Rightarrow> False
          | Some f \<Rightarrow> stat_ok \<and> df_regular f \<and> df_nlink f = 1 \<and> df_owned f \<and>
              length (df_bytes f) = expected_bytes, w))"

end
