(* ===== verification/KvFormat.thy ===== *)
theory KvFormat
  imports KvPosix
begin

text \<open>
  The on-disk format of a KV tier (\<open>include/axiom/qwen38_kv_tier.h\<close>,
  \<open>src/axiom_qwen38_kv_tier.cpp\<close>): the layout plan, the page offsets, the tier header and the
  header of the transaction journal with their memory images and checksums.
\<close>

section \<open>Constants\<close>

definition kAbi :: u32 where "kAbi = 1"
definition PAGE_TOKENS :: u32 where "PAGE_TOKENS = 256"
definition TARGET_LAYERS :: u32 where "TARGET_LAYERS = 16"
definition DSPARK_LAYERS :: u32 where "DSPARK_LAYERS = 5"
definition TARGET_PAGE_BYTES :: u64 where "TARGET_PAGE_BYTES = 524288"
definition DSPARK_PAGE_BYTES :: u64 where "DSPARK_PAGE_BYTES = 524288"
definition COMBINED_PAGE_BYTES :: u64 where "COMBINED_PAGE_BYTES = 11010048"
definition HEADER_BYTES :: u32 where "HEADER_BYTES = 4096"
definition TARGET_BYTES_PER_TOKEN :: u64 where "TARGET_BYTES_PER_TOKEN = 32768"
definition DSPARK_BYTES_PER_TOKEN :: u64 where "DSPARK_BYTES_PER_TOKEN = 10240"
definition COMBINED_BYTES_PER_TOKEN :: u64 where "COMBINED_BYTES_PER_TOKEN = 43008"
definition FAMILY_TARGET :: u32 where "FAMILY_TARGET = 1"
definition FAMILY_DSPARK :: u32 where "FAMILY_DSPARK = 2"
definition kTransactionAbi :: u32 where "kTransactionAbi = 1"

lemmas kv_constants = kAbi_def PAGE_TOKENS_def TARGET_LAYERS_def DSPARK_LAYERS_def
  TARGET_PAGE_BYTES_def DSPARK_PAGE_BYTES_def COMBINED_PAGE_BYTES_def HEADER_BYTES_def
  TARGET_BYTES_PER_TOKEN_def DSPARK_BYTES_PER_TOKEN_def COMBINED_BYTES_PER_TOKEN_def
  FAMILY_TARGET_def FAMILY_DSPARK_def kTransactionAbi_def

section \<open>The plan\<close>

definition checked_add :: "u64 \<Rightarrow> u64 \<Rightarrow> u64 option" where
  "checked_add a b = (if b > - 1 - a then None else Some (a + b))"

definition checked_mul :: "u64 \<Rightarrow> u64 \<Rightarrow> u64 option" where
  "checked_mul a b = (if a \<noteq> 0 \<and> b > - 1 div a then None else Some (a * b))"

record kv_plan =
  pl_abi_version :: u32
  pl_max_context :: u32
  pl_page_tokens :: u32
  pl_logical_pages :: u32
  pl_hot_pages :: u32
  pl_hot_tokens :: u32
  pl_target_layers :: u32
  pl_dspark_layers :: u32
  pl_target_bytes_per_token :: u64
  pl_dspark_bytes_per_token :: u64
  pl_combined_bytes_per_token :: u64
  pl_target_page_bytes :: u64
  pl_dspark_page_bytes :: u64
  pl_combined_page_bytes :: u64
  pl_target_payload_bytes :: u64
  pl_dspark_payload_bytes :: u64
  pl_payload_bytes :: u64
  pl_file_bytes :: u64
  pl_hot_device_bytes :: u64

text \<open>The sizes that the checked products and sums of \<open>plan_get\<close> compute, in their order: target payload,
  DSpark payload, payload, file, hot device bytes.\<close>

definition plan_sizes :: "u32 \<Rightarrow> u32 \<Rightarrow> (u64 \<times> u64 \<times> u64 \<times> u64 \<times> u64) option" where
  "plan_sizes logical_pages hot_pages =
     Option.bind (checked_mul (ucast logical_pages) TARGET_PAGE_BYTES) (\<lambda>target_layer_bytes.
     Option.bind (checked_mul target_layer_bytes (ucast TARGET_LAYERS)) (\<lambda>target_payload.
     Option.bind (checked_mul (ucast logical_pages) DSPARK_PAGE_BYTES) (\<lambda>dspark_layer_bytes.
     Option.bind (checked_mul dspark_layer_bytes (ucast DSPARK_LAYERS)) (\<lambda>dspark_payload.
     Option.bind (checked_add target_payload dspark_payload) (\<lambda>payload.
     Option.bind (checked_add (ucast HEADER_BYTES) payload) (\<lambda>file.
     Option.bind (checked_mul (ucast hot_pages) COMBINED_PAGE_BYTES) (\<lambda>hot_device.
       Some (target_payload, dspark_payload, payload, file, hot_device))))))))"

text \<open>\<open>abi\<close> is the version field of the caller's structure, \<open>None\<close> for a null pointer.\<close>

definition plan_get :: "u32 \<Rightarrow> u32 \<Rightarrow> u32 option \<Rightarrow> axiom_status + kv_plan" where
  "plan_get max_context hot_pages abi =
     (if abi \<noteq> Some kAbi \<or> max_context = 0 then Inl AXIOM_ERR_INVALID_ARGUMENT
      else
        let logical_pages = ucast (((ucast max_context :: u64) + ucast PAGE_TOKENS - 1) div ucast PAGE_TOKENS)
        in if hot_pages > logical_pages then Inl AXIOM_ERR_INVALID_ARGUMENT
           else case plan_sizes logical_pages hot_pages of
             None \<Rightarrow> Inl AXIOM_ERR_BUDGET
           | Some (target_payload, dspark_payload, payload, file, hot_device) \<Rightarrow> Inr
              \<lparr>pl_abi_version = kAbi, pl_max_context = max_context, pl_page_tokens = PAGE_TOKENS,
               pl_logical_pages = logical_pages, pl_hot_pages = hot_pages,
               pl_hot_tokens = hot_pages * PAGE_TOKENS, pl_target_layers = TARGET_LAYERS,
               pl_dspark_layers = DSPARK_LAYERS, pl_target_bytes_per_token = TARGET_BYTES_PER_TOKEN,
               pl_dspark_bytes_per_token = DSPARK_BYTES_PER_TOKEN,
               pl_combined_bytes_per_token = COMBINED_BYTES_PER_TOKEN,
               pl_target_page_bytes = TARGET_PAGE_BYTES, pl_dspark_page_bytes = DSPARK_PAGE_BYTES,
               pl_combined_page_bytes = COMBINED_PAGE_BYTES,
               pl_target_payload_bytes = target_payload, pl_dspark_payload_bytes = dspark_payload,
               pl_payload_bytes = payload, pl_file_bytes = file, pl_hot_device_bytes = hot_device\<rparr>)"

definition family_page_bytes :: "u32 \<Rightarrow> u64" where
  "family_page_bytes family =
     (if family = FAMILY_TARGET then TARGET_PAGE_BYTES
      else if family = FAMILY_DSPARK then DSPARK_PAGE_BYTES else 0)"

text \<open>The chain of checked operations shared by the two branches: the offset of a page in a region that
  starts at \<open>offset\<close>.\<close>

definition region_offset :: "u64 \<Rightarrow> u32 \<Rightarrow> u64 \<Rightarrow> u32 \<Rightarrow> u32 \<Rightarrow> u64 option" where
  "region_offset offset pages page_bytes layer logical_page =
     Option.bind (checked_mul (ucast pages) page_bytes) (\<lambda>layer_span.
     Option.bind (checked_mul (ucast layer) layer_span) (\<lambda>within.
     Option.bind (checked_add offset within) (\<lambda>offset.
     Option.bind (checked_mul (ucast logical_page) page_bytes) (\<lambda>within.
     checked_add offset within))))"

definition page_offset_for_plan :: "kv_plan \<Rightarrow> u32 \<Rightarrow> u32 \<Rightarrow> u32 \<Rightarrow> axiom_status + u64" where
  "page_offset_for_plan plan family layer logical_page =
     (if logical_page \<ge> pl_logical_pages plan then Inl AXIOM_ERR_INVALID_ARGUMENT
      else
        let offset = ucast HEADER_BYTES;
            result =
              (if family = FAMILY_TARGET then
                 (if layer \<ge> pl_target_layers plan then None
                  else region_offset offset (pl_logical_pages plan) (pl_target_page_bytes plan)
                    layer logical_page)
               else if family = FAMILY_DSPARK then
                 (if layer \<ge> pl_dspark_layers plan then None
                  else Option.bind (checked_add offset (pl_target_payload_bytes plan)) (\<lambda>offset.
                    region_offset offset (pl_logical_pages plan) (pl_dspark_page_bytes plan)
                      layer logical_page))
               else None)
        in case result of None \<Rightarrow> Inl AXIOM_ERR_INVALID_ARGUMENT | Some offset \<Rightarrow> Inr offset)"

section \<open>Checksums\<close>

definition checksum_step :: "byte \<Rightarrow> u64 \<Rightarrow> u64" where
  "checksum_step b hash = (hash XOR ucast b) * 1099511628211"

definition checksum64 :: "byte list \<Rightarrow> u64" where
  "checksum64 data = fold checksum_step data 1469598103934665603"

section \<open>The header of the tier\<close>

record disk_header =
  dh_magic :: "byte list"
  dh_abi_version :: u32
  dh_header_bytes :: u32
  dh_max_context :: u32
  dh_page_tokens :: u32
  dh_logical_pages :: u32
  dh_target_layers :: u32
  dh_dspark_layers :: u32
  dh_reserved0 :: u32
  dh_target_page_bytes :: u64
  dh_dspark_page_bytes :: u64
  dh_target_payload_bytes :: u64
  dh_dspark_payload_bytes :: u64
  dh_file_bytes :: u64
  dh_generation :: u64
  dh_committed_tokens :: u64
  dh_checksum :: u64
  dh_reserved :: "byte list"

text \<open>The structure in memory, and the structure that a \<open>memcpy\<close> of 4096 bytes gives.\<close>

definition header_image :: "disk_header \<Rightarrow> byte list" where
  "header_image h = dh_magic h @
     concat (map (le_bytes 4) [dh_abi_version h, dh_header_bytes h, dh_max_context h, dh_page_tokens h,
       dh_logical_pages h, dh_target_layers h, dh_dspark_layers h, dh_reserved0 h]) @
     concat (map (le_bytes 8) [dh_target_page_bytes h, dh_dspark_page_bytes h, dh_target_payload_bytes h,
       dh_dspark_payload_bytes h, dh_file_bytes h, dh_generation h, dh_committed_tokens h, dh_checksum h]) @
     dh_reserved h"

definition u32_at :: "nat \<Rightarrow> byte list \<Rightarrow> u32" where
  "u32_at offset bs = le_word (field_at offset 4 bs)"

definition u64_at :: "nat \<Rightarrow> byte list \<Rightarrow> u64" where
  "u64_at offset bs = le_word (field_at offset 8 bs)"

definition header_of :: "byte list \<Rightarrow> disk_header" where
  "header_of bs = \<lparr>dh_magic = field_at 0 8 bs, dh_abi_version = u32_at 8 bs, dh_header_bytes = u32_at 12 bs,
     dh_max_context = u32_at 16 bs, dh_page_tokens = u32_at 20 bs, dh_logical_pages = u32_at 24 bs,
     dh_target_layers = u32_at 28 bs, dh_dspark_layers = u32_at 32 bs, dh_reserved0 = u32_at 36 bs,
     dh_target_page_bytes = u64_at 40 bs, dh_dspark_page_bytes = u64_at 48 bs,
     dh_target_payload_bytes = u64_at 56 bs, dh_dspark_payload_bytes = u64_at 64 bs,
     dh_file_bytes = u64_at 72 bs, dh_generation = u64_at 80 bs, dh_committed_tokens = u64_at 88 bs,
     dh_checksum = u64_at 96 bs, dh_reserved = field_at 104 3992 bs\<rparr>"

definition tier_magic :: "byte list" where
  "tier_magic = map (\<lambda>c. of_nat (of_char c)) ''AXQ38KV1''"

definition fill_header :: "kv_plan \<Rightarrow> u64 \<Rightarrow> u32 \<Rightarrow> disk_header" where
  "fill_header plan generation committed_tokens =
     (let h = \<lparr>dh_magic = tier_magic, dh_abi_version = kAbi, dh_header_bytes = HEADER_BYTES,
            dh_max_context = pl_max_context plan, dh_page_tokens = pl_page_tokens plan,
            dh_logical_pages = pl_logical_pages plan, dh_target_layers = pl_target_layers plan,
            dh_dspark_layers = pl_dspark_layers plan, dh_reserved0 = 0,
            dh_target_page_bytes = pl_target_page_bytes plan, dh_dspark_page_bytes = pl_dspark_page_bytes plan,
            dh_target_payload_bytes = pl_target_payload_bytes plan,
            dh_dspark_payload_bytes = pl_dspark_payload_bytes plan,
            dh_file_bytes = pl_file_bytes plan, dh_generation = generation,
            dh_committed_tokens = ucast committed_tokens, dh_checksum = 0, dh_reserved = replicate 3992 0\<rparr>
      in h\<lparr>dh_checksum := checksum64 (header_image h)\<rparr>)"

definition valid_header :: "disk_header \<Rightarrow> kv_plan \<Rightarrow> bool" where
  "valid_header h plan \<longleftrightarrow>
     \<not> (dh_magic h \<noteq> tier_magic \<or> dh_abi_version h \<noteq> kAbi \<or> dh_header_bytes h \<noteq> HEADER_BYTES \<or>
        dh_max_context h \<noteq> pl_max_context plan \<or> dh_page_tokens h \<noteq> pl_page_tokens plan \<or>
        dh_logical_pages h \<noteq> pl_logical_pages plan \<or> dh_target_layers h \<noteq> pl_target_layers plan \<or>
        dh_dspark_layers h \<noteq> pl_dspark_layers plan \<or>
        dh_target_page_bytes h \<noteq> pl_target_page_bytes plan \<or>
        dh_dspark_page_bytes h \<noteq> pl_dspark_page_bytes plan \<or>
        dh_target_payload_bytes h \<noteq> pl_target_payload_bytes plan \<or>
        dh_dspark_payload_bytes h \<noteq> pl_dspark_payload_bytes plan \<or>
        dh_file_bytes h \<noteq> pl_file_bytes plan \<or>
        dh_committed_tokens h > ucast (pl_max_context plan)) \<and>
     checksum64 (header_image (h\<lparr>dh_checksum := 0\<rparr>)) = dh_checksum h"

section \<open>The header of the journal\<close>

record journal_header =
  jh_magic :: "byte list"
  jh_abi_version :: u32
  jh_header_bytes :: u32
  jh_record_count :: u32
  jh_logical_page :: u32
  jh_base_committed_tokens :: u32
  jh_target_layers :: u32
  jh_dspark_layers :: u32
  jh_target_page_bytes :: u32
  jh_dspark_page_bytes :: u32
  jh_reserved0 :: u32
  jh_tier_generation :: u64
  jh_tier_file_bytes :: u64
  jh_payload_bytes :: u64
  jh_checksum :: u64
  jh_reserved :: "byte list"

definition journal_image :: "journal_header \<Rightarrow> byte list" where
  "journal_image h = jh_magic h @
     concat (map (le_bytes 4) [jh_abi_version h, jh_header_bytes h, jh_record_count h, jh_logical_page h,
       jh_base_committed_tokens h, jh_target_layers h, jh_dspark_layers h, jh_target_page_bytes h,
       jh_dspark_page_bytes h, jh_reserved0 h]) @
     concat (map (le_bytes 8) [jh_tier_generation h, jh_tier_file_bytes h, jh_payload_bytes h, jh_checksum h]) @
     jh_reserved h"

definition journal_of :: "byte list \<Rightarrow> journal_header" where
  "journal_of bs = \<lparr>jh_magic = field_at 0 8 bs, jh_abi_version = u32_at 8 bs, jh_header_bytes = u32_at 12 bs,
     jh_record_count = u32_at 16 bs, jh_logical_page = u32_at 20 bs, jh_base_committed_tokens = u32_at 24 bs,
     jh_target_layers = u32_at 28 bs, jh_dspark_layers = u32_at 32 bs, jh_target_page_bytes = u32_at 36 bs,
     jh_dspark_page_bytes = u32_at 40 bs, jh_reserved0 = u32_at 44 bs, jh_tier_generation = u64_at 48 bs,
     jh_tier_file_bytes = u64_at 56 bs, jh_payload_bytes = u64_at 64 bs, jh_checksum = u64_at 72 bs,
     jh_reserved = field_at 80 4016 bs\<rparr>"

definition journal_magic :: "byte list" where
  "journal_magic = map (\<lambda>c. of_nat (of_char c)) ''AXQ38TX1''"

definition journal_checksum :: "journal_header \<Rightarrow> byte list \<Rightarrow> u64" where
  "journal_checksum header payload =
     fold checksum_step payload (checksum64 (journal_image (header\<lparr>jh_checksum := 0\<rparr>)))"

end
