(* ===== verification/KvTier.thy ===== *)
theory KvTier
  imports KvFormat
begin

text \<open>
  The KV tier itself (\<open>src/axiom_qwen38_kv_tier.cpp\<close>): its state and the operations create, submit,
  wait, commit and reset, on both back ends. The kernel's side of io_uring is a parameter, \<open>kernel\<close>:
  the ring memory it maps and what one \<open>io_uring_enter\<close> does to that memory. Every operation holds the
  mutex of the tier for its whole body, so it is one function of the tier and the world.
\<close>

section \<open>The ring\<close>

datatype ring_op = IORING_OP_READ | IORING_OP_WRITE

record ring_sqe =
  sqe_opcode :: ring_op
  sqe_fd :: nat
  sqe_off :: u64
  sqe_addr :: u64
  sqe_len :: u32
  sqe_user_data :: u64

record ring_cqe =
  cqe_user_data :: u64
  cqe_res :: int

record raw_ring =
  rg_sq_head :: u32
  rg_sq_tail :: u32
  rg_sq_mask :: u32
  rg_sq_entries :: u32
  rg_sq_array :: "u32 \<Rightarrow> u32"
  rg_sqes :: "u32 \<Rightarrow> ring_sqe"
  rg_cq_head :: u32
  rg_cq_tail :: u32
  rg_cq_mask :: u32
  rg_cqes :: "u32 \<Rightarrow> ring_cqe"

text \<open>\<open>kn_submit\<close> is the result of \<open>io_uring_enter(fd, 1, 0, 0)\<close> and the ring after it, \<open>kn_wait\<close> that of
  \<open>io_uring_enter(fd, 0, min_complete, GETEVENTS)\<close>, with \<open>errno = EINTR\<close> as a flag. \<open>kn_poll\<close> is the ring as a
  wait that does not enter the kernel finds it: requests complete without a call of the program.\<close>

record kernel =
  kn_ring :: "u32 \<Rightarrow> raw_ring"
  kn_single_mmap :: bool
  kn_submit :: "raw_ring \<Rightarrow> int \<times> raw_ring"
  kn_wait :: "u32 \<Rightarrow> raw_ring \<Rightarrow> (int \<times> bool) \<times> raw_ring"
  kn_poll :: "raw_ring \<Rightarrow> raw_ring"

definition ring_create :: "kernel \<Rightarrow> u32 \<Rightarrow> world \<Rightarrow> (axiom_status + raw_ring) \<times> world" where
  "ring_create kn entries w =
     (if entries = 0 then (Inl AXIOM_ERR_INVALID_ARGUMENT, w)
      else case sys_ok w of
        (False, w) \<Rightarrow> (Inl AXIOM_ERR_UNSUPPORTED_BACKEND, w)
      | (True, w) \<Rightarrow> (case sys_ok w of
          (False, w) \<Rightarrow> (Inl AXIOM_ERR_RUNTIME, w)
        | (True, w) \<Rightarrow> (case (if kn_single_mmap kn then (True, w) else sys_ok w) of
            (False, w) \<Rightarrow> (Inl AXIOM_ERR_RUNTIME, w)
          | (True, w) \<Rightarrow> (case sys_ok w of
              (False, w) \<Rightarrow> (Inl AXIOM_ERR_RUNTIME, w)
            | (True, w) \<Rightarrow> (Inr (kn_ring kn entries), w)))))"

section \<open>The state of a tier\<close>

record pending_slot =
  ps_active :: bool
  ps_operation :: u32
  ps_expected_bytes :: u64
  ps_user_data :: u64

definition free_slot :: pending_slot where
  "free_slot = \<lparr>ps_active = False, ps_operation = 0, ps_expected_bytes = 0, ps_user_data = 0\<rparr>"

record sync_completion =
  sc_operation :: u32
  sc_result :: axiom_status
  sc_bytes :: u64
  sc_user_data :: u64

datatype kv_backend = BACKEND_SYNC_DIRECT | BACKEND_IO_URING_DIRECT

record kv_tier =
  kt_fd :: nat
  kt_flags :: u64
  kt_plan :: kv_plan
  kt_backend :: kv_backend
  kt_queue_depth :: u32
  kt_outstanding :: u32
  kt_committed_tokens :: u32
  kt_generation :: u64
  kt_submitted_reads :: u64
  kt_submitted_writes :: u64
  kt_completed_bytes :: u64
  kt_io_errors :: u64
  kt_slots :: "pending_slot list"
  kt_sync_completions :: "sync_completion list"
  kt_ring :: "raw_ring option"

definition kv_page_offset :: "kv_tier \<Rightarrow> u32 \<Rightarrow> u32 \<Rightarrow> u32 \<Rightarrow> axiom_status + u64" where
  "kv_page_offset tier family layer logical_page =
     (let plan = kt_plan tier in
      if logical_page \<ge> pl_logical_pages plan then Inl AXIOM_ERR_INVALID_ARGUMENT
      else
        let offset = ucast HEADER_BYTES;
            result =
              (if family = FAMILY_TARGET then
                 (if layer \<ge> pl_target_layers plan then None
                  else region_offset offset (pl_logical_pages plan) (pl_target_page_bytes plan)
                    layer logical_page)
               else if family = FAMILY_DSPARK then
                 (if layer \<ge> pl_dspark_layers plan then None
                  else Option.bind (checked_add offset (pl_target_payload_bytes plan)) (\<lambda>offset.
                    region_offset offset (pl_logical_pages plan) (pl_dspark_page_bytes plan)
                      layer logical_page))
               else None)
        in case result of None \<Rightarrow> Inl AXIOM_ERR_INVALID_ARGUMENT | Some offset \<Rightarrow> Inr offset)"

text \<open>\<open>address\<close> is the page that \<open>posix_memalign\<close> returns.\<close>

definition host_page_alloc :: "u64 \<Rightarrow> u64 \<Rightarrow> world \<Rightarrow> (axiom_status + u64) \<times> world" where
  "host_page_alloc address bytes w =
     (if bytes \<noteq> TARGET_PAGE_BYTES \<and> bytes \<noteq> DSPARK_PAGE_BYTES then (Inl AXIOM_ERR_INVALID_ARGUMENT, w)
      else case take_answer w of (a, w) \<Rightarrow>
        (if a \<noteq> io_done \<or> address = 0
         then (Inl (if a = io_failed then AXIOM_ERR_BUDGET else AXIOM_ERR_RUNTIME), w)
         else (Inr address, w\<lparr>w_pages := (w_pages w)(address := replicate (unat bytes) 0)\<rparr>)))"

section \<open>Opening\<close>

definition write_header :: "kv_tier \<Rightarrow> world \<Rightarrow> axiom_status \<times> world" where
  "write_header tier w =
     (case sys_ok w of
        (False, w) \<Rightarrow> (AXIOM_ERR_BUDGET, w)
      | (True, w) \<Rightarrow>
          (case exact_pwrite (kt_fd tier)
              (header_image (fill_header (kt_plan tier) (kt_generation tier) (kt_committed_tokens tier))) 0 w of
             (rc, w) \<Rightarrow>
               if rc \<noteq> AXIOM_OK then (rc, w)
               else case sys_ok w of (synced, w) \<Rightarrow> (if synced then AXIOM_OK else AXIOM_ERR_IO, w)))"

definition read_header :: "nat \<Rightarrow> world \<Rightarrow> (axiom_status + disk_header) \<times> world" where
  "read_header fd w =
     (case sys_ok w of
        (False, w) \<Rightarrow> (Inl AXIOM_ERR_BUDGET, w)
      | (True, w) \<Rightarrow>
          (case exact_pread fd 4096 0 w of
             (Inl rc, w) \<Rightarrow> (Inl rc, w)
           | (Inr bs, w) \<Rightarrow> (Inr (header_of bs), w)))"

definition FLAG_PREALLOCATE :: u64 where "FLAG_PREALLOCATE = push_bit 0 1"
definition FLAG_REQUIRE_IO_URING :: u64 where "FLAG_REQUIRE_IO_URING = push_bit 1 1"
definition FLAG_REQUIRE_DIRECT :: u64 where "FLAG_REQUIRE_DIRECT = push_bit 2 1"

definition kKnownFlags :: u64 where
  "kKnownFlags = FLAG_PREALLOCATE OR FLAG_REQUIRE_IO_URING OR FLAG_REQUIRE_DIRECT"

definition kDefaultQueueDepth :: u32 where "kDefaultQueueDepth = 64"
definition kMaximumQueueDepth :: u32 where "kMaximumQueueDepth = 1024"

record kv_config =
  kc_abi_version :: u32
  kc_path :: string
  kc_max_context :: u32
  kc_hot_pages :: u32
  kc_queue_depth :: u32
  kc_flags :: u64

text \<open>The file of a new tier: every block allocated, or sparse; both read as zero bytes.\<close>

definition size_new_file :: "nat \<Rightarrow> u64 \<Rightarrow> kv_plan \<Rightarrow> world \<Rightarrow> axiom_status \<times> world" where
  "size_new_file fd flags plan w =
     (case sys_ok w of
        (False, w) \<Rightarrow> (AXIOM_ERR_IO, w)
      | (True, w) \<Rightarrow> (AXIOM_OK, set_bytes fd (replicate (unat (pl_file_bytes plan)) 0) w))"

definition open_new :: "kv_tier \<Rightarrow> world \<Rightarrow> axiom_status \<times> kv_tier \<times> world" where
  "open_new tier w =
     (case size_new_file (kt_fd tier) (kt_flags tier) (kt_plan tier) w of (rc, w) \<Rightarrow>
        let tier = tier\<lparr>kt_generation := 1, kt_committed_tokens := 0\<rparr>
        in if rc = AXIOM_OK then (case write_header tier w of (rc, w) \<Rightarrow> (rc, tier, w))
           else (rc, tier, w))"

definition open_existing :: "kv_tier \<Rightarrow> world \<Rightarrow> axiom_status \<times> kv_tier \<times> world" where
  "open_existing tier w =
     (if length (file_bytes w (kt_fd tier)) \<noteq> unat (pl_file_bytes (kt_plan tier))
      then (AXIOM_ERR_INVALID_ARGUMENT, tier, w)
      else case read_header (kt_fd tier) w of
        (Inl rc, w) \<Rightarrow> (rc, tier, w)
      | (Inr header, w) \<Rightarrow>
          if \<not> valid_header header (kt_plan tier) then (AXIOM_ERR_INVALID_ARGUMENT, tier, w)
          else (AXIOM_OK, tier\<lparr>kt_generation := dh_generation header,
                 kt_committed_tokens := ucast (dh_committed_tokens header)\<rparr>, w))"

definition open_file :: "kv_tier \<Rightarrow> world \<Rightarrow> axiom_status \<times> kv_tier \<times> world" where
  "open_file tier w = (if file_bytes w (kt_fd tier) = [] then open_new tier w else open_existing tier w)"

definition attach_ring :: "kernel \<Rightarrow> kv_tier \<Rightarrow> world \<Rightarrow> axiom_status \<times> kv_tier \<times> world" where
  "attach_ring kn tier w =
     (case ring_create kn (kt_queue_depth tier) w of
        (Inr ring, w) \<Rightarrow> (AXIOM_OK, tier\<lparr>kt_ring := Some ring, kt_backend := BACKEND_IO_URING_DIRECT\<rparr>, w)
      | (Inl ring_rc, w) \<Rightarrow>
          (if kt_flags tier AND FLAG_REQUIRE_IO_URING \<noteq> 0 then ring_rc else AXIOM_OK, tier, w))"

definition new_tier :: "nat \<Rightarrow> u64 \<Rightarrow> kv_plan \<Rightarrow> u32 \<Rightarrow> kv_tier" where
  "new_tier fd flags plan depth =
     \<lparr>kt_fd = fd, kt_flags = flags, kt_plan = plan, kt_backend = BACKEND_SYNC_DIRECT, kt_queue_depth = depth,
      kt_outstanding = 0, kt_committed_tokens = 0, kt_generation = 0, kt_submitted_reads = 0,
      kt_submitted_writes = 0, kt_completed_bytes = 0, kt_io_errors = 0,
      kt_slots = replicate (unat depth) free_slot, kt_sync_completions = [], kt_ring = None\<rparr>"

text \<open>The arguments that \<open>create\<close> accepts: the queue depth and the plan.\<close>

definition create_arguments :: "kv_config option \<Rightarrow> axiom_status + u32 \<times> kv_plan" where
  "create_arguments config = (case config of
       None \<Rightarrow> Inl AXIOM_ERR_INVALID_ARGUMENT
     | Some c \<Rightarrow>
         if kc_abi_version c \<noteq> kAbi \<or> kc_path c = [] \<or> kc_max_context c = 0 \<or>
            kc_flags c AND NOT kKnownFlags \<noteq> 0 then Inl AXIOM_ERR_INVALID_ARGUMENT
         else
           let depth = (if kc_queue_depth c = 0 then kDefaultQueueDepth else kc_queue_depth c)
           in if depth = 0 \<or> depth > kMaximumQueueDepth then Inl AXIOM_ERR_INVALID_ARGUMENT
              else case plan_get (kc_max_context c) (kc_hot_pages c) (Some kAbi) of
                Inl rc \<Rightarrow> Inl rc
              | Inr plan \<Rightarrow> if unat (pl_file_bytes plan) > 2 ^ 63 - 1 then Inl AXIOM_ERR_BUDGET
                             else Inr (depth, plan))"

definition kv_create :: "kernel \<Rightarrow> kv_config option \<Rightarrow> world \<Rightarrow> (axiom_status + kv_tier) \<times> world" where
  "kv_create kn config w =
     (case create_arguments config of
        Inl rc \<Rightarrow> (Inl rc, w)
      | Inr (depth, plan) \<Rightarrow>
          (case sys_open_creat False (kc_path (the config)) w of
             (None, w) \<Rightarrow> (Inl AXIOM_ERR_IO, w)
           | (Some fd, w) \<Rightarrow> (case sys_ok w of
               (False, w) \<Rightarrow> (Inl AXIOM_ERR_IO, w)
             | (True, w) \<Rightarrow> (case sys_ok w of
                 (False, w) \<Rightarrow> (Inl AXIOM_ERR_BUDGET, w)
               | (True, w) \<Rightarrow>
                   (case open_file (new_tier fd (kc_flags (the config)) plan depth) w of
                      (rc, tier, w) \<Rightarrow>
                        if rc \<noteq> AXIOM_OK then (Inl rc, w)
                        else case attach_ring kn tier w of
                          (rc, tier, w) \<Rightarrow> if rc \<noteq> AXIOM_OK then (Inl rc, w) else (Inr tier, w))))))"

record kv_info =
  ki_abi_version :: u32
  ki_backend :: kv_backend
  ki_direct_io :: u32
  ki_preallocated :: u32
  ki_queue_depth :: u32
  ki_outstanding :: u32
  ki_committed_tokens :: u32
  ki_plan :: kv_plan
  ki_submitted_reads :: u64
  ki_submitted_writes :: u64
  ki_completed_bytes :: u64
  ki_io_errors :: u64

definition kv_info_get :: "kv_tier option \<Rightarrow> u32 option \<Rightarrow> axiom_status + kv_info" where
  "kv_info_get tier abi = (case tier of
       None \<Rightarrow> Inl AXIOM_ERR_INVALID_ARGUMENT
     | Some t \<Rightarrow> if abi \<noteq> Some kAbi then Inl AXIOM_ERR_INVALID_ARGUMENT
         else Inr \<lparr>ki_abi_version = kAbi, ki_backend = kt_backend t, ki_direct_io = 1,
           ki_preallocated = (if kt_flags t AND FLAG_PREALLOCATE \<noteq> 0 then 1 else 0),
           ki_queue_depth = kt_queue_depth t, ki_outstanding = kt_outstanding t,
           ki_committed_tokens = kt_committed_tokens t, ki_plan = kt_plan t,
           ki_submitted_reads = kt_submitted_reads t, ki_submitted_writes = kt_submitted_writes t,
           ki_completed_bytes = kt_completed_bytes t, ki_io_errors = kt_io_errors t\<rparr>)"

section \<open>Submitting\<close>

definition OP_READ :: u32 where "OP_READ = 1"
definition OP_WRITE :: u32 where "OP_WRITE = 2"

record kv_request =
  rq_abi_version :: u32
  rq_operation :: u32
  rq_family :: u32
  rq_layer :: u32
  rq_logical_page :: u32
  rq_host_page :: u64
  rq_host_page_bytes :: u64
  rq_user_data :: u64

definition aligned_4096 :: "u64 \<Rightarrow> bool" where
  "aligned_4096 pointer \<longleftrightarrow> pointer \<noteq> 0 \<and> pointer AND (ucast HEADER_BYTES - 1) = 0"

text \<open>The checks of \<open>submit\<close> before the lock: the page size and the offset in the file.\<close>

definition submit_arguments :: "kv_tier \<Rightarrow> kv_request \<Rightarrow> axiom_status + u64 \<times> u64" where
  "submit_arguments tier r =
     (if rq_abi_version r \<noteq> kAbi \<or> (rq_operation r \<noteq> OP_READ \<and> rq_operation r \<noteq> OP_WRITE) \<or>
         \<not> aligned_4096 (rq_host_page r) then Inl AXIOM_ERR_INVALID_ARGUMENT
      else
        let expected = family_page_bytes (rq_family r)
        in if expected = 0 \<or> rq_host_page_bytes r \<noteq> expected \<or> expected > ucast (- 1 :: u32)
           then Inl AXIOM_ERR_INVALID_ARGUMENT
           else case kv_page_offset tier (rq_family r) (rq_layer r) (rq_logical_page r) of
             Inl rc \<Rightarrow> Inl rc
           | Inr offset \<Rightarrow> Inr (expected, offset))"

fun first_free :: "pending_slot list \<Rightarrow> nat" where
  "first_free [] = 0"
| "first_free (s # slots) = (if \<not> ps_active s then 0 else Suc (first_free slots))"

definition request_sqe :: "nat \<Rightarrow> kv_request \<Rightarrow> u64 \<Rightarrow> u64 \<Rightarrow> nat \<Rightarrow> ring_sqe" where
  "request_sqe fd r expected offset slot_index =
     \<lparr>sqe_opcode = (if rq_operation r = OP_READ then IORING_OP_READ else IORING_OP_WRITE),
      sqe_fd = fd, sqe_off = offset, sqe_addr = rq_host_page r, sqe_len = ucast expected,
      sqe_user_data = of_nat slot_index + 1\<rparr>"

text \<open>The entry is stored behind the tail of the submission queue.\<close>

definition ring_push :: "ring_sqe \<Rightarrow> raw_ring \<Rightarrow> raw_ring" where
  "ring_push sqe ring =
     (let sq_index = rg_sq_tail ring AND rg_sq_mask ring
      in ring\<lparr>rg_sqes := (rg_sqes ring)(sq_index := sqe),
              rg_sq_array := (rg_sq_array ring)(sq_index := sq_index),
              rg_sq_tail := rg_sq_tail ring + 1\<rparr>)"

definition submit_ring :: "kernel \<Rightarrow> raw_ring \<Rightarrow> kv_request \<Rightarrow> u64 \<Rightarrow> u64 \<Rightarrow> kv_tier \<Rightarrow> axiom_status \<times> kv_tier" where
  "submit_ring kn ring r expected offset tier =
     (let slot_index = first_free (kt_slots tier)
      in if slot_index = length (kt_slots tier) then (AXIOM_ERR_BUDGET, tier)
         else if rg_sq_tail ring - rg_sq_head ring \<ge> rg_sq_entries ring then (AXIOM_ERR_BUDGET, tier)
         else
           let ring = ring_push (request_sqe (kt_fd tier) r expected offset slot_index) ring;
               slots = (kt_slots tier)[slot_index := \<lparr>ps_active = True, ps_operation = rq_operation r,
                 ps_expected_bytes = expected, ps_user_data = rq_user_data r\<rparr>];
               (submitted, ring) = kn_submit kn ring
           in if submitted \<noteq> 1
              then (AXIOM_ERR_IO, tier\<lparr>kt_ring := Some ring, kt_slots := slots[slot_index := free_slot]\<rparr>)
              else (AXIOM_OK, tier\<lparr>kt_ring := Some ring, kt_slots := slots,
                      kt_outstanding := kt_outstanding tier + 1\<rparr>))"

definition submit_sync :: "kv_request \<Rightarrow> u64 \<Rightarrow> u64 \<Rightarrow> kv_tier \<Rightarrow> world \<Rightarrow> axiom_status \<times> kv_tier \<times> world" where
  "submit_sync r expected offset tier w =
     (let (io_rc, w) =
            (if rq_operation r = OP_READ
             then (case exact_pread (kt_fd tier) (unat expected) (unat offset) w of
                     (Inl rc, w') \<Rightarrow>
                       (let part = pread_stored (kt_fd tier) (unat expected) (unat offset) w
                        in (rc, w'\<lparr>w_pages := (w_pages w')(rq_host_page r :=
                             part @ drop (length part) (w_pages w' (rq_host_page r)))\<rparr>))
                   | (Inr bs, w') \<Rightarrow> (AXIOM_OK, w'\<lparr>w_pages := (w_pages w')(rq_host_page r := bs)\<rparr>))
             else exact_pwrite (kt_fd tier) (take (unat expected) (w_pages w (rq_host_page r))) (unat offset) w)
      in (AXIOM_OK, tier\<lparr>kt_sync_completions := kt_sync_completions tier @
              [\<lparr>sc_operation = rq_operation r, sc_result = io_rc,
                sc_bytes = (if io_rc = AXIOM_OK then expected else 0), sc_user_data = rq_user_data r\<rparr>],
            kt_outstanding := kt_outstanding tier + 1\<rparr>, w))"

definition kv_submit :: "kernel \<Rightarrow> kv_request \<Rightarrow> kv_tier \<Rightarrow> world \<Rightarrow> axiom_status \<times> kv_tier \<times> world" where
  "kv_submit kn r tier w =
     (case submit_arguments tier r of
        Inl rc \<Rightarrow> (rc, tier, w)
      | Inr (expected, offset) \<Rightarrow>
          if kt_outstanding tier \<ge> kt_queue_depth tier then (AXIOM_ERR_BUDGET, tier, w)
          else
            let tier = (if rq_operation r = OP_READ
                  then tier\<lparr>kt_submitted_reads := kt_submitted_reads tier + 1\<rparr>
                  else tier\<lparr>kt_submitted_writes := kt_submitted_writes tier + 1\<rparr>)
            in case (kt_backend tier, kt_ring tier) of
                 (BACKEND_IO_URING_DIRECT, Some ring) \<Rightarrow>
                   (case submit_ring kn ring r expected offset tier of (rc, tier) \<Rightarrow> (rc, tier, w))
               | _ \<Rightarrow> submit_sync r expected offset tier w)"

section \<open>Waiting\<close>

record kv_completion =
  cp_abi_version :: u32
  cp_operation :: u32
  cp_result :: axiom_status
  cp_transferred_bytes :: u64
  cp_user_data :: u64

text \<open>One entry of the completion queue: \<open>None\<close> when it names no pending slot.\<close>

definition reap_cqe :: "ring_cqe \<Rightarrow> kv_tier \<Rightarrow> (kv_completion \<times> kv_tier) option" where
  "reap_cqe cqe tier =
     (if cqe_user_data cqe = 0 \<or> unat (cqe_user_data cqe) > length (kt_slots tier) then None
      else
        let slot_index = unat (cqe_user_data cqe - 1);
            slot = kt_slots tier ! slot_index
        in if \<not> ps_active slot then None
           else
             let exact = cqe_res cqe \<ge> 0 \<and> cqe_res cqe = int (unat (ps_expected_bytes slot));
                 bytes = (if cqe_res cqe > 0 then of_int (cqe_res cqe) else 0)
             in Some (\<lparr>cp_abi_version = kAbi, cp_operation = ps_operation slot,
                       cp_result = (if exact then AXIOM_OK else AXIOM_ERR_IO),
                       cp_transferred_bytes = bytes, cp_user_data = ps_user_data slot\<rparr>,
                      (if exact then tier\<lparr>kt_completed_bytes := kt_completed_bytes tier + bytes\<rparr>
                       else tier\<lparr>kt_io_errors := kt_io_errors tier + 1\<rparr>)
                        \<lparr>kt_slots := (kt_slots tier)[slot_index := free_slot],
                         kt_outstanding := kt_outstanding tier - 1\<rparr>))"

text \<open>The loop over the completion queue, up to the capacity of the caller's array; \<open>None\<close> is the
  early return on an entry that names no pending slot.\<close>

fun reap_ring :: "raw_ring \<Rightarrow> nat \<Rightarrow> u32 \<Rightarrow> kv_tier \<Rightarrow> (kv_completion list \<times> u32) option \<times> kv_tier" where
  "reap_ring ring 0 head tier = (Some ([], head), tier)"
| "reap_ring ring (Suc capacity) head tier =
     (if head = rg_cq_tail ring then (Some ([], head), tier)
      else case reap_cqe (rg_cqes ring (head AND rg_cq_mask ring)) tier of
        None \<Rightarrow> (None, tier)
      | Some (completion, tier) \<Rightarrow>
          (case reap_ring ring capacity (head + 1) tier of
             (None, tier) \<Rightarrow> (None, tier)
           | (Some (completions, head), tier) \<Rightarrow> (Some (completion # completions, head), tier)))"

definition reap_sync_one :: "sync_completion \<Rightarrow> kv_tier \<Rightarrow> kv_completion \<times> kv_tier" where
  "reap_sync_one ready tier =
     (\<lparr>cp_abi_version = kAbi, cp_operation = sc_operation ready, cp_result = sc_result ready,
       cp_transferred_bytes = sc_bytes ready, cp_user_data = sc_user_data ready\<rparr>,
      (if sc_result ready = AXIOM_OK
       then tier\<lparr>kt_completed_bytes := kt_completed_bytes tier + sc_bytes ready\<rparr>
       else tier\<lparr>kt_io_errors := kt_io_errors tier + 1\<rparr>)
        \<lparr>kt_sync_completions := drop 1 (kt_sync_completions tier),
         kt_outstanding := kt_outstanding tier - 1\<rparr>)"

fun reap_sync :: "nat \<Rightarrow> kv_tier \<Rightarrow> kv_completion list \<times> kv_tier" where
  "reap_sync 0 tier = ([], tier)"
| "reap_sync (Suc capacity) tier = (case kt_sync_completions tier of
       [] \<Rightarrow> ([], tier)
     | ready # rest \<Rightarrow>
         (let (completion, tier) = reap_sync_one ready tier;
              (completions, tier) = reap_sync capacity tier
          in (completion # completions, tier)))"

text \<open>\<open>wait\<close> returns the completions that \<open>out_count\<close> announces.\<close>

definition kv_wait :: "kernel \<Rightarrow> u32 \<Rightarrow> u32 \<Rightarrow> kv_tier \<Rightarrow> axiom_status \<times> kv_completion list \<times> kv_tier" where
  "kv_wait kn min_complete capacity tier =
     (if min_complete > capacity then (AXIOM_ERR_INVALID_ARGUMENT, [], tier)
      else if min_complete > kt_outstanding tier then (AXIOM_ERR_INVALID_ARGUMENT, [], tier)
      else
        let finish = (\<lambda>completions tier.
              if length completions < unat min_complete then (AXIOM_ERR_IO, [], tier)
              else (AXIOM_OK, completions, tier))
        in case (kt_backend tier, kt_ring tier) of
             (BACKEND_IO_URING_DIRECT, Some ring) \<Rightarrow>
               (case (if min_complete \<noteq> 0 then kn_wait kn min_complete ring else ((0, False), kn_poll kn ring)) of
                  ((entered, eintr), ring) \<Rightarrow>
                    (let tier = tier\<lparr>kt_ring := Some ring\<rparr>
                     in if entered < 0 \<and> \<not> eintr then (AXIOM_ERR_IO, [], tier)
                        else case reap_ring ring (unat capacity) (rg_cq_head ring) tier of
                          (None, tier) \<Rightarrow> (AXIOM_ERR_RUNTIME, [], tier)
                        | (Some (completions, head), tier) \<Rightarrow>
                            finish completions (tier\<lparr>kt_ring := Some (ring\<lparr>rg_cq_head := head\<rparr>)\<rparr>)))
           | _ \<Rightarrow> (case reap_sync (unat capacity) tier of
                    (completions, tier) \<Rightarrow> finish completions tier))"

section \<open>The watermark\<close>

definition kv_commit :: "u32 \<Rightarrow> kv_tier \<Rightarrow> world \<Rightarrow> axiom_status \<times> kv_tier \<times> world" where
  "kv_commit committed_tokens tier w =
     (if committed_tokens > pl_max_context (kt_plan tier) then (AXIOM_ERR_INVALID_ARGUMENT, tier, w)
      else if kt_outstanding tier \<noteq> 0 \<or> committed_tokens < kt_committed_tokens tier
      then (AXIOM_ERR_INVALID_ARGUMENT, tier, w)
      else
        let previous = kt_committed_tokens tier;
            tier = tier\<lparr>kt_committed_tokens := committed_tokens\<rparr>
        in case write_header tier w of (rc, w) \<Rightarrow>
             (rc, if rc \<noteq> AXIOM_OK then tier\<lparr>kt_committed_tokens := previous\<rparr> else tier, w))"

definition kv_reset :: "kv_tier \<Rightarrow> world \<Rightarrow> axiom_status \<times> kv_tier \<times> world" where
  "kv_reset tier w =
     (if kt_outstanding tier \<noteq> 0 \<or> kt_generation tier = - 1 then (AXIOM_ERR_INVALID_ARGUMENT, tier, w)
      else
        let previous_generation = kt_generation tier;
            previous_tokens = kt_committed_tokens tier;
            tier = tier\<lparr>kt_generation := kt_generation tier + 1, kt_committed_tokens := 0\<rparr>
        in case write_header tier w of (rc, w) \<Rightarrow>
             (rc, if rc \<noteq> AXIOM_OK
                  then tier\<lparr>kt_generation := previous_generation, kt_committed_tokens := previous_tokens\<rparr>
                  else tier, w))"

end
