(* ===== verification/KvTx.thy ===== *)
theory KvTx
  imports KvTier
begin

text \<open>
  The append transactions of a KV tier (\<open>src/axiom_qwen38_kv_tier.cpp\<close>): writing the journal,
  loading it, restoring a tier from it, and the calls begin, rollback, recover and discard.
\<close>

section \<open>Records of the tail page\<close>

text \<open>The two nested loops over families and layers, as the list of pairs they visit.\<close>

definition plan_records :: "kv_plan \<Rightarrow> (u32 \<times> u32) list" where
  "plan_records plan =
     map (\<lambda>layer. (FAMILY_TARGET, of_nat layer)) [0..<unat (pl_target_layers plan)] @
     map (\<lambda>layer. (FAMILY_DSPARK, of_nat layer)) [0..<unat (pl_dspark_layers plan)]"

fun read_records ::
  "kv_plan \<Rightarrow> nat \<Rightarrow> u32 \<Rightarrow> (u32 \<times> u32) list \<Rightarrow> world \<Rightarrow> (axiom_status + byte list) \<times> world" where
  "read_records plan fd page [] w = (Inr [], w)"
| "read_records plan fd page ((family, layer) # records) w =
     (case page_offset_for_plan plan family layer page of
        Inl rc \<Rightarrow> (Inl rc, w)
      | Inr offset \<Rightarrow>
          (case exact_pread fd (unat (family_page_bytes family)) (unat offset) w of
             (Inl rc, w) \<Rightarrow> (Inl rc, w)
           | (Inr bs, w) \<Rightarrow>
               (case read_records plan fd page records w of
                  (Inl rc, w) \<Rightarrow> (Inl rc, w)
                | (Inr rest, w) \<Rightarrow> (Inr (bs @ rest), w))))"

text \<open>Writing the records back; the bytes of the payload that are left when every record is written.\<close>

fun write_records ::
  "kv_plan \<Rightarrow> nat \<Rightarrow> u32 \<Rightarrow> (u32 \<times> u32) list \<Rightarrow> byte list \<Rightarrow> world \<Rightarrow> (axiom_status + byte list) \<times> world" where
  "write_records plan fd page [] payload w = (Inr payload, w)"
| "write_records plan fd page ((family, layer) # records) payload w =
     (let bytes = unat (family_page_bytes family)
      in if bytes > length payload then (Inl AXIOM_ERR_IO, w)
         else case page_offset_for_plan plan family layer page of
           Inl rc \<Rightarrow> (Inl rc, w)
         | Inr offset \<Rightarrow>
             (case exact_pwrite fd (take bytes payload) (unat offset) w of
                (rc, w) \<Rightarrow>
                  if rc \<noteq> AXIOM_OK then (Inl rc, w)
                  else write_records plan fd page records (drop bytes payload) w))"

section \<open>Loading the journal\<close>

record loaded_journal =
  lj_header :: journal_header
  lj_old_tier_header :: disk_header
  lj_plan :: kv_plan
  lj_payload :: "byte list"

definition journal_header_ok :: "journal_header \<Rightarrow> bool" where
  "journal_header_ok header \<longleftrightarrow>
     \<not> (jh_magic header \<noteq> journal_magic \<or>
        jh_abi_version header \<noteq> kTransactionAbi \<or> jh_header_bytes header \<noteq> HEADER_BYTES \<or>
        jh_target_layers header \<noteq> TARGET_LAYERS \<or> jh_dspark_layers header \<noteq> DSPARK_LAYERS \<or>
        jh_target_page_bytes header \<noteq> ucast TARGET_PAGE_BYTES \<or>
        jh_dspark_page_bytes header \<noteq> ucast DSPARK_PAGE_BYTES \<or>
        jh_record_count header \<noteq>
          (if jh_base_committed_tokens header mod PAGE_TOKENS = 0 then 0
           else jh_target_layers header + jh_dspark_layers header))"

definition expected_payload :: "journal_header \<Rightarrow> u64 option" where
  "expected_payload header =
     (if jh_record_count header = 0 then Some 4096
      else
        Option.bind (checked_mul (ucast (jh_target_layers header)) (ucast (jh_target_page_bytes header)))
          (\<lambda>target_bytes.
        Option.bind (checked_mul (ucast (jh_dspark_layers header)) (ucast (jh_dspark_page_bytes header)))
          (\<lambda>dspark_bytes.
        Option.bind (checked_add 4096 target_bytes) (\<lambda>sum. checked_add sum dspark_bytes))))"

text \<open>The checks after the file is closed.\<close>

definition accept_journal :: "journal_header \<Rightarrow> byte list \<Rightarrow> axiom_status + loaded_journal option" where
  "accept_journal header payload =
     (if jh_checksum header \<noteq> journal_checksum header payload \<or> length payload < 4096
      then Inl AXIOM_ERR_IO
      else
        let old_header = header_of (take 4096 payload)
        in case plan_get (dh_max_context old_header) 0 (Some kAbi) of
             Inl rc \<Rightarrow> Inl AXIOM_ERR_IO
           | Inr plan \<Rightarrow>
               if \<not> valid_header old_header plan \<or>
                  ucast (jh_base_committed_tokens header) \<noteq> dh_committed_tokens old_header \<or>
                  jh_tier_generation header \<noteq> dh_generation old_header \<or>
                  jh_tier_file_bytes header \<noteq> dh_file_bytes old_header \<or>
                  jh_logical_page header \<noteq> jh_base_committed_tokens header div PAGE_TOKENS
               then Inl AXIOM_ERR_IO
               else Inr (Some \<lparr>lj_header = header, lj_old_tier_header = old_header, lj_plan = plan,
                           lj_payload = payload\<rparr>))"

text \<open>\<open>Inr None\<close>: there is no journal.\<close>

definition load_transaction_journal ::
  "string \<Rightarrow> world \<Rightarrow> (axiom_status + loaded_journal option) \<times> world" where
  "load_transaction_journal path w =
     (if path = [] then (Inl AXIOM_ERR_INVALID_ARGUMENT, w)
      else case sys_open path w of
        (Inl enoent, w) \<Rightarrow> (if enoent then Inr None else Inl AXIOM_ERR_IO, w)
      | (Inr fd, w) \<Rightarrow>
          (case exact_pread fd 4096 0 w of
             (Inl rc, w) \<Rightarrow> (Inl rc, w)
           | (Inr bs, w) \<Rightarrow>
               (let header = journal_of bs
                in if \<not> journal_header_ok header then (Inl AXIOM_ERR_IO, w)
                   else case expected_payload header of
                     None \<Rightarrow> (Inl AXIOM_ERR_IO, w)
                   | Some expected \<Rightarrow>
                       if jh_payload_bytes header \<noteq> expected then (Inl AXIOM_ERR_IO, w)
                       else case regular_private_file fd (4096 + unat (jh_payload_bytes header)) w of
                         (False, w) \<Rightarrow> (Inl AXIOM_ERR_IO, w)
                       | (True, w) \<Rightarrow> (case sys_ok w of
                           (False, w) \<Rightarrow> (Inl AXIOM_ERR_BUDGET, w)
                         | (True, w) \<Rightarrow>
                             (case exact_pread fd (unat (jh_payload_bytes header)) 4096 w of
                                (Inl rc, w) \<Rightarrow> (Inl rc, w)
                              | (Inr payload, w) \<Rightarrow> (accept_journal header payload, w))))))"

section \<open>Restoring\<close>

definition restore_records :: "nat \<Rightarrow> loaded_journal \<Rightarrow> world \<Rightarrow> axiom_status \<times> world" where
  "restore_records fd journal w =
     (if jh_record_count (lj_header journal) = 0 then (AXIOM_OK, w)
      else case sys_ok w of
        (False, w) \<Rightarrow> (AXIOM_ERR_BUDGET, w)
      | (True, w) \<Rightarrow>
          (case write_records (lj_plan journal) fd (jh_logical_page (lj_header journal))
              (plan_records (lj_plan journal)) (drop 4096 (lj_payload journal)) w of
             (Inl rc, w) \<Rightarrow> (AXIOM_ERR_IO, w)
           | (Inr left, w) \<Rightarrow>
               if left \<noteq> [] then (AXIOM_ERR_IO, w)
               else case sys_ok w of (synced, w) \<Rightarrow> (if synced then AXIOM_OK else AXIOM_ERR_IO, w)))"

definition restore_transaction_fd :: "nat \<Rightarrow> loaded_journal \<Rightarrow> world \<Rightarrow> axiom_status \<times> world" where
  "restore_transaction_fd fd journal w =
     (case regular_private_file fd (unat (pl_file_bytes (lj_plan journal))) w of
        (False, w) \<Rightarrow> (AXIOM_ERR_IO, w)
      | (True, w) \<Rightarrow>
          (case restore_records fd journal w of (rc, w) \<Rightarrow>
             if rc \<noteq> AXIOM_OK then (rc, w)
             else case sys_ok w of
               (False, w) \<Rightarrow> (AXIOM_ERR_BUDGET, w)
             | (True, w) \<Rightarrow>
                 (case exact_pwrite fd (header_image (lj_old_tier_header journal)) 0 w of (rc, w) \<Rightarrow>
                    if rc \<noteq> AXIOM_OK then (AXIOM_ERR_IO, w)
                    else case sys_ok w of (synced, w) \<Rightarrow> (if synced then AXIOM_OK else AXIOM_ERR_IO, w))))"

definition discard_transaction_path :: "string \<Rightarrow> world \<Rightarrow> axiom_status \<times> world" where
  "discard_transaction_path path w =
     (if path = [] then (AXIOM_ERR_INVALID_ARGUMENT, w)
      else case sys_unlink path w of
        (False, w) \<Rightarrow> (AXIOM_ERR_IO, w)
      | (True, w) \<Rightarrow>
          (case parent_directory_sync path w of (synced, w) \<Rightarrow> (if synced then AXIOM_OK else AXIOM_ERR_IO, w)))"

section \<open>Beginning\<close>

text \<open>The saved bytes: the header of the tier, and the records of the tail page when it is partial.\<close>

definition journal_payload_bytes :: "kv_plan \<Rightarrow> bool \<Rightarrow> u64 option" where
  "journal_payload_bytes plan partial =
     (if partial then
        Option.bind (checked_add 4096 (ucast (pl_target_layers plan) * pl_target_page_bytes plan)) (\<lambda>sum.
          checked_add sum (ucast (pl_dspark_layers plan) * pl_dspark_page_bytes plan))
      else Some 4096)"

definition collect_payload ::
  "kv_tier \<Rightarrow> disk_header \<Rightarrow> bool \<Rightarrow> u32 \<Rightarrow> world \<Rightarrow> (axiom_status + byte list) \<times> world" where
  "collect_payload tier old_header partial base w =
     (case journal_payload_bytes (kt_plan tier) partial of
        None \<Rightarrow> (Inl AXIOM_ERR_BUDGET, w)
      | Some payload_bytes \<Rightarrow>
          (case sys_ok w of
             (False, w) \<Rightarrow> (Inl AXIOM_ERR_BUDGET, w)
           | (True, w) \<Rightarrow>
               (case (if partial then sys_ok w else (True, w)) of
                  (False, w) \<Rightarrow> (Inl AXIOM_ERR_BUDGET, w)
                | (True, w) \<Rightarrow>
                    (case (if partial
                           then read_records (kt_plan tier) (kt_fd tier) (base div PAGE_TOKENS)
                             (plan_records (kt_plan tier)) w
                           else (Inr [], w)) of
                       (Inl rc, w) \<Rightarrow> (Inl AXIOM_ERR_IO, w)
                     | (Inr records, w) \<Rightarrow>
                         let payload = header_image old_header @ records
                         in if length payload \<noteq> unat payload_bytes then (Inl AXIOM_ERR_IO, w)
                            else (Inr payload, w)))))"

definition make_journal_header :: "kv_tier \<Rightarrow> bool \<Rightarrow> u32 \<Rightarrow> byte list \<Rightarrow> journal_header" where
  "make_journal_header tier partial base payload =
     (let plan = kt_plan tier;
          header = \<lparr>jh_magic = journal_magic, jh_abi_version = kTransactionAbi, jh_header_bytes = 4096,
            jh_record_count = (if partial then pl_target_layers plan + pl_dspark_layers plan else 0),
            jh_logical_page = base div PAGE_TOKENS, jh_base_committed_tokens = base,
            jh_target_layers = pl_target_layers plan, jh_dspark_layers = pl_dspark_layers plan,
            jh_target_page_bytes = ucast (pl_target_page_bytes plan),
            jh_dspark_page_bytes = ucast (pl_dspark_page_bytes plan), jh_reserved0 = 0,
            jh_tier_generation = kt_generation tier, jh_tier_file_bytes = pl_file_bytes plan,
            jh_payload_bytes = of_nat (length payload), jh_checksum = 0, jh_reserved = replicate 4016 0\<rparr>
      in header\<lparr>jh_checksum := journal_checksum header payload\<rparr>)"

text \<open>Writing the temporary file and publishing it under the name of the journal.\<close>

definition write_journal_file :: "nat \<Rightarrow> journal_header \<Rightarrow> byte list \<Rightarrow> world \<Rightarrow> axiom_status \<times> world" where
  "write_journal_file fd header payload w =
     (case exact_pwrite fd (journal_image header) 0 w of (rc, w) \<Rightarrow>
        (case (if rc = AXIOM_OK then exact_pwrite fd payload 4096 w else (rc, w)) of (rc, w) \<Rightarrow>
           (case (if rc = AXIOM_OK then sys_ok w else (True, w)) of (synced, w) \<Rightarrow>
              (let rc = (if rc = AXIOM_OK \<and> \<not> synced then AXIOM_ERR_IO else rc)
               in case sys_ok w of (closed, w) \<Rightarrow>
                    (if \<not> closed \<and> rc = AXIOM_OK then AXIOM_ERR_IO else rc, w)))))"

definition publish_journal :: "string \<Rightarrow> journal_header \<Rightarrow> byte list \<Rightarrow> world \<Rightarrow> axiom_status \<times> world" where
  "publish_journal path header payload w =
     (let temporary = path @ ''.tmp''
      in case sys_unlink temporary w of
           (False, w) \<Rightarrow> (AXIOM_ERR_IO, w)
         | (True, w) \<Rightarrow> (case sys_open_creat True temporary w of
             (None, w) \<Rightarrow> (AXIOM_ERR_IO, w)
           | (Some fd, w) \<Rightarrow>
               (case write_journal_file fd header payload w of (rc, w) \<Rightarrow>
                  (case (if rc = AXIOM_OK then sys_rename temporary path w else (True, w)) of (renamed, w) \<Rightarrow>
                     (let rc = (if rc = AXIOM_OK \<and> \<not> renamed then AXIOM_ERR_IO else rc)
                      in case (if rc = AXIOM_OK then parent_directory_sync path w else (True, w)) of (synced, w) \<Rightarrow>
                           (let rc = (if rc = AXIOM_OK \<and> \<not> synced then AXIOM_ERR_IO else rc)
                            in if rc \<noteq> AXIOM_OK then (rc, snd (sys_unlink temporary w)) else (rc, w)))))))"

definition transaction_begin :: "kv_tier \<Rightarrow> string \<Rightarrow> u32 \<Rightarrow> world \<Rightarrow> axiom_status \<times> world" where
  "transaction_begin tier journal_path base w =
     (if journal_path = [] \<or> base = 0 then (AXIOM_ERR_INVALID_ARGUMENT, w)
      else if kt_outstanding tier \<noteq> 0 \<or> base \<noteq> kt_committed_tokens tier \<or> base > pl_max_context (kt_plan tier)
      then (AXIOM_ERR_INVALID_ARGUMENT, w)
      else case sys_open journal_path w of
        (Inr fd, w) \<Rightarrow> (AXIOM_ERR_IO, w)
      | (Inl enoent, w) \<Rightarrow>
          if \<not> enoent then (AXIOM_ERR_IO, w)
          else case read_header (kt_fd tier) w of
            (Inl rc, w) \<Rightarrow> (AXIOM_ERR_IO, w)
          | (Inr old_header, w) \<Rightarrow>
              if \<not> valid_header old_header (kt_plan tier) \<or> dh_generation old_header \<noteq> kt_generation tier \<or>
                 dh_committed_tokens old_header \<noteq> ucast base then (AXIOM_ERR_IO, w)
              else
                let partial = (base mod PAGE_TOKENS \<noteq> 0)
                in case collect_payload tier old_header partial base w of
                     (Inl rc, w) \<Rightarrow> (rc, w)
                   | (Inr payload, w) \<Rightarrow>
                       publish_journal journal_path (make_journal_header tier partial base payload) payload w)"

section \<open>Rolling back and recovering\<close>

definition transaction_rollback :: "kv_tier \<Rightarrow> string \<Rightarrow> world \<Rightarrow> axiom_status \<times> kv_tier \<times> world" where
  "transaction_rollback tier journal_path w =
     (case load_transaction_journal journal_path w of
        (Inl rc, w) \<Rightarrow> (rc, tier, w)
      | (Inr None, w) \<Rightarrow> (AXIOM_OK, tier, w)
      | (Inr (Some journal), w) \<Rightarrow>
          if kt_outstanding tier \<noteq> 0 \<or> pl_file_bytes (kt_plan tier) \<noteq> pl_file_bytes (lj_plan journal) \<or>
             kt_generation tier \<noteq> dh_generation (lj_old_tier_header journal)
          then (AXIOM_ERR_INVALID_ARGUMENT, tier, w)
          else case restore_transaction_fd (kt_fd tier) journal w of (rc, w) \<Rightarrow>
            (if rc = AXIOM_OK
             then (let tier = tier\<lparr>kt_generation := dh_generation (lj_old_tier_header journal),
                         kt_committed_tokens := ucast (dh_committed_tokens (lj_old_tier_header journal))\<rparr>
                   in case discard_transaction_path journal_path w of (rc, w) \<Rightarrow> (rc, tier, w))
             else (rc, tier, w)))"

text \<open>What the restart does with the tier file, once the journal is loaded and the file is open.\<close>

definition recover_decision :: "nat \<Rightarrow> loaded_journal \<Rightarrow> u32 \<Rightarrow> world \<Rightarrow> axiom_status \<times> world" where
  "recover_decision fd journal manifest w =
     (case read_header fd w of (current, w) \<Rightarrow>
        let current_valid = (case current of
              Inl rc \<Rightarrow> False
            | Inr h \<Rightarrow> valid_header h (lj_plan journal) \<and>
                dh_generation h = dh_generation (lj_old_tier_header journal) \<and>
                dh_committed_tokens h = ucast manifest)
        in if manifest = jh_base_committed_tokens (lj_header journal) then restore_transaction_fd fd journal w
           else (if current_valid then AXIOM_OK else AXIOM_ERR_IO, w))"

definition transaction_recover_file :: "string \<Rightarrow> string \<Rightarrow> u32 \<Rightarrow> world \<Rightarrow> axiom_status \<times> world" where
  "transaction_recover_file tier_path journal_path manifest w =
     (if tier_path = [] \<or> journal_path = [] then (AXIOM_ERR_INVALID_ARGUMENT, w)
      else case load_transaction_journal journal_path w of
        (Inl rc, w) \<Rightarrow> (rc, w)
      | (Inr None, w) \<Rightarrow> (AXIOM_OK, w)
      | (Inr (Some journal), w) \<Rightarrow>
          (case sys_open tier_path w of
             (Inl enoent, w) \<Rightarrow> (AXIOM_ERR_IO, w)
           | (Inr fd, w) \<Rightarrow>
               (case regular_private_file fd (unat (pl_file_bytes (lj_plan journal))) w of
                  (False, w) \<Rightarrow> (AXIOM_ERR_IO, w)
                | (True, w) \<Rightarrow>
                    (case recover_decision fd journal manifest w of (rc, w) \<Rightarrow>
                       (case sys_ok w of (closed, w) \<Rightarrow>
                          (let rc = (if \<not> closed \<and> rc = AXIOM_OK then AXIOM_ERR_IO else rc)
                           in if rc = AXIOM_OK then discard_transaction_path journal_path w else (rc, w)))))))"

definition transaction_discard :: "string \<Rightarrow> world \<Rightarrow> axiom_status \<times> world" where
  "transaction_discard journal_path w = discard_transaction_path journal_path w"

end
