(* ===== verification/KvLayout.thy ===== *)
theory KvLayout
  imports KvTx
begin

text \<open>
  The layout of a tier file: the plan never overflows, and the page records lie side by side behind
  the header, one after another, within the file.
\<close>

section \<open>Checked arithmetic\<close>

lemma unat_max_u64: "unat (- 1 :: u64) = 2 ^ 64 - 1"
  by (simp add: unsigned_minus_1_eq_mask mask_eq_exp_minus_1)

lemma checked_add_nat:
  "checked_add a b = (if unat a + unat b < 2 ^ 64 then Some (a + b) else None)"
proof -
  have "unat (- 1 - a) = 2 ^ 64 - 1 - unat a"
    using unat_sub [of a "- 1"] by (simp add: unat_max_u64)
  moreover have "unat a < 2 ^ 64"
    by (rule unat_u64_less)
  ultimately show ?thesis
    by (auto simp: checked_add_def word_less_nat_alt)
qed

lemma checked_mul_nat:
  "checked_mul a b = (if unat a * unat b < 2 ^ 64 then Some (a * b) else None)"
proof (cases "a = 0")
  case False
  then have "0 < unat a" by (simp add: unat_gt_0)
  moreover have "unat (- 1 div a) = (2 ^ 64 - 1) div unat a"
    by (simp add: unat_div_distrib unat_max_u64)
  moreover have "(2 ^ 64 - 1) div unat a < unat b \<longleftrightarrow> \<not> unat a * unat b < 2 ^ 64"
    using calculation(1) by (auto simp: div_less_iff_less_mult mult.commute)
  ultimately have "b > - 1 div a \<longleftrightarrow> \<not> unat a * unat b < 2 ^ 64"
    by (simp add: word_less_nat_alt)
  then show ?thesis
    using False by (simp add: checked_mul_def)
qed (simp add: checked_mul_def)

lemma checked_add_some:
  "unat a + unat b < 2 ^ 64 \<Longrightarrow> checked_add a b = Some (a + b) \<and> unat (a + b) = unat a + unat b"
  by (simp add: checked_add_nat unat_word_ariths)

lemma checked_mul_some:
  "unat a * unat b < 2 ^ 64 \<Longrightarrow> checked_mul a b = Some (a * b) \<and> unat (a * b) = unat a * unat b"
  by (simp add: checked_mul_nat unat_word_ariths)

section \<open>The plan\<close>

text \<open>The number of logical pages of a context, and the plan in natural numbers.\<close>

definition page_count :: "u32 \<Rightarrow> nat" where
  "page_count max_context = (unat max_context + 255) div 256"

lemma page_count_bounds:
  "page_count mc \<le> 2 ^ 24" "unat mc \<le> 256 * page_count mc" "mc \<noteq> 0 \<Longrightarrow> 0 < page_count mc"
proof -
  have "unat mc < 2 ^ 32"
    by (rule unat_u32_less)
  then show "page_count mc \<le> 2 ^ 24" "unat mc \<le> 256 * page_count mc"
    by (simp_all add: page_count_def)
  show "mc \<noteq> 0 \<Longrightarrow> 0 < page_count mc"
    by (simp add: page_count_def unat_gt_0 div_greater_zero_iff flip: unat_gt_0)
qed

lemma logical_pages_value:
  "unat (ucast (((ucast mc :: u64) + ucast PAGE_TOKENS - 1) div ucast PAGE_TOKENS) :: u32) = page_count mc"
proof -
  have mc: "unat (ucast mc :: u64) = unat mc" "unat mc < 2 ^ 32"
    using unat_u32_less [of mc] by simp_all
  have "(ucast mc :: u64) + ucast PAGE_TOKENS - 1 = 255 + ucast mc"
    by (simp add: PAGE_TOKENS_def)
  moreover have "unat (255 + (ucast mc :: u64)) = unat mc + 255"
    using mc by (simp add: unat_word_ariths)
  ultimately have "unat (((ucast mc :: u64) + ucast PAGE_TOKENS - 1) div ucast PAGE_TOKENS) = page_count mc"
    by (simp add: unat_div_distrib page_count_def PAGE_TOKENS_def)
  then show ?thesis
    using page_count_bounds(1) [of mc] by (simp add: unat_ucast_u32)
qed

lemma plan_sizes_value:
  assumes "unat pages \<le> 2 ^ 24" and "unat hot \<le> 2 ^ 24"
  shows "\<exists>target dspark payload file device.
    plan_sizes pages hot = Some (target, dspark, payload, file, device) \<and>
    unat target = unat pages * 8388608 \<and> unat dspark = unat pages * 2621440 \<and>
    unat payload = unat pages * 11010048 \<and> unat file = 4096 + unat pages * 11010048 \<and>
    unat device = unat hot * 11010048"
proof -
  let ?p = "ucast pages :: u64" and ?h = "ucast hot :: u64"
  have p: "unat ?p = unat pages" and h: "unat ?h = unat hot"
    by simp_all
  note c = kv_constants
  have m1: "checked_mul ?p TARGET_PAGE_BYTES = Some (?p * TARGET_PAGE_BYTES)"
    "unat (?p * TARGET_PAGE_BYTES) = unat pages * 524288"
    using checked_mul_some [of ?p TARGET_PAGE_BYTES] assms p by (simp_all add: c)
  have m2: "checked_mul (?p * TARGET_PAGE_BYTES) (ucast TARGET_LAYERS) =
      Some (?p * TARGET_PAGE_BYTES * ucast TARGET_LAYERS)"
    "unat (?p * TARGET_PAGE_BYTES * ucast TARGET_LAYERS) = unat pages * 8388608"
    using checked_mul_some [of "?p * TARGET_PAGE_BYTES" "ucast TARGET_LAYERS"] assms m1(2)
    by (simp_all add: TARGET_LAYERS_def)
  have m3: "checked_mul ?p DSPARK_PAGE_BYTES = Some (?p * DSPARK_PAGE_BYTES)"
    "unat (?p * DSPARK_PAGE_BYTES) = unat pages * 524288"
    using checked_mul_some [of ?p DSPARK_PAGE_BYTES] assms p by (simp_all add: c)
  have m4: "checked_mul (?p * DSPARK_PAGE_BYTES) (ucast DSPARK_LAYERS) =
      Some (?p * DSPARK_PAGE_BYTES * ucast DSPARK_LAYERS)"
    "unat (?p * DSPARK_PAGE_BYTES * ucast DSPARK_LAYERS) = unat pages * 2621440"
    using checked_mul_some [of "?p * DSPARK_PAGE_BYTES" "ucast DSPARK_LAYERS"] assms m3(2)
    by (simp_all add: DSPARK_LAYERS_def)
  let ?t = "?p * TARGET_PAGE_BYTES * ucast TARGET_LAYERS" and ?d = "?p * DSPARK_PAGE_BYTES * ucast DSPARK_LAYERS"
  have m5: "checked_add ?t ?d = Some (?t + ?d)" "unat (?t + ?d) = unat pages * 11010048"
    using checked_add_some [of ?t ?d] assms m2(2) m4(2) by simp_all
  have m6: "checked_add (ucast HEADER_BYTES) (?t + ?d) = Some (ucast HEADER_BYTES + (?t + ?d))"
    "unat (ucast HEADER_BYTES + (?t + ?d)) = 4096 + unat pages * 11010048"
    using checked_add_some [of "ucast HEADER_BYTES" "?t + ?d"] assms m5(2) by (simp_all add: HEADER_BYTES_def)
  have m7: "checked_mul ?h COMBINED_PAGE_BYTES = Some (?h * COMBINED_PAGE_BYTES)"
    "unat (?h * COMBINED_PAGE_BYTES) = unat hot * 11010048"
    using checked_mul_some [of ?h COMBINED_PAGE_BYTES] assms h by (simp_all add: c)
  have "plan_sizes pages hot = Some (?t, ?d, ?t + ?d, ucast HEADER_BYTES + (?t + ?d), ?h * COMBINED_PAGE_BYTES)"
    unfolding plan_sizes_def by (simp only: m1(1) m2(1) m3(1) m4(1) m5(1) m6(1) m7(1) bind.bind_lunit)
  then show ?thesis
    using m2(2) m4(2) m5(2) m6(2) m7(2) by blast
qed

text \<open>Plans as \<open>plan_get\<close> makes them.\<close>

definition wf_plan :: "kv_plan \<Rightarrow> bool" where
  "wf_plan plan \<longleftrightarrow> (\<exists>max_context hot_pages. plan_get max_context hot_pages (Some kAbi) = Inr plan)"

text \<open>The plan in natural numbers: \<open>p\<close> logical pages.\<close>

definition plan_values :: "kv_plan \<Rightarrow> nat \<Rightarrow> bool" where
  "plan_values plan p \<longleftrightarrow>
     pl_abi_version plan = kAbi \<and> pl_max_context plan \<noteq> 0 \<and> p = page_count (pl_max_context plan) \<and>
     pl_page_tokens plan = PAGE_TOKENS \<and> unat (pl_logical_pages plan) = p \<and>
     pl_target_layers plan = TARGET_LAYERS \<and> pl_dspark_layers plan = DSPARK_LAYERS \<and>
     pl_target_page_bytes plan = TARGET_PAGE_BYTES \<and> pl_dspark_page_bytes plan = DSPARK_PAGE_BYTES \<and>
     unat (pl_target_payload_bytes plan) = p * 8388608 \<and>
     unat (pl_dspark_payload_bytes plan) = p * 2621440 \<and>
     unat (pl_payload_bytes plan) = p * 11010048 \<and> unat (pl_file_bytes plan) = 4096 + p * 11010048 \<and>
     unat (pl_hot_pages plan) \<le> p \<and> unat (pl_hot_device_bytes plan) = unat (pl_hot_pages plan) * 11010048"

lemma plan_get_total:
  assumes "max_context \<noteq> 0" and "unat hot_pages \<le> page_count max_context"
  shows "\<exists>plan. plan_get max_context hot_pages (Some kAbi) = Inr plan \<and>
    pl_max_context plan = max_context \<and> pl_hot_pages plan = hot_pages \<and>
    pl_hot_tokens plan = hot_pages * PAGE_TOKENS \<and> plan_values plan (page_count max_context)"
proof -
  let ?p = "ucast (((ucast max_context :: u64) + ucast PAGE_TOKENS - 1) div ucast PAGE_TOKENS) :: u32"
  have p: "unat ?p = page_count max_context"
    by (rule logical_pages_value)
  have hot: "\<not> hot_pages > ?p"
    unfolding word_less_nat_alt p using assms(2) by simp
  obtain t d pl f dv where s: "plan_sizes ?p hot_pages = Some (t, d, pl, f, dv)"
    "unat t = unat ?p * 8388608" "unat d = unat ?p * 2621440" "unat pl = unat ?p * 11010048"
    "unat f = 4096 + unat ?p * 11010048" "unat dv = unat hot_pages * 11010048"
    using plan_sizes_value [of ?p hot_pages] page_count_bounds(1) [of max_context] assms(2)
    unfolding p by (auto simp del: One_nat_def)
  show ?thesis
    unfolding plan_get_def Let_def s(1) using assms hot s(2-) p
    by (simp add: plan_values_def)
qed

lemma plan_get_values:
  assumes "plan_get max_context hot_pages abi = Inr plan"
  shows "plan_values plan (page_count max_context)" and "pl_max_context plan = max_context"
    and "abi = Some kAbi" and "max_context \<noteq> 0" and "unat hot_pages \<le> page_count max_context"
proof -
  have abi: "abi = Some kAbi" and mc: "max_context \<noteq> 0"
    using assms by (auto simp: plan_get_def split: if_splits)
  have hot: "unat hot_pages \<le> page_count max_context"
    using assms unfolding plan_get_def Let_def word_less_nat_alt logical_pages_value
    by (auto split: if_splits)
  from plan_get_total [OF mc hot] assms abi
  show "plan_values plan (page_count max_context)" "pl_max_context plan = max_context"
    by auto
  show "abi = Some kAbi" "max_context \<noteq> 0" "unat hot_pages \<le> page_count max_context"
    by fact+
qed

lemma wf_plan_values: "wf_plan plan \<Longrightarrow> plan_values plan (page_count (pl_max_context plan))"
  unfolding wf_plan_def using plan_get_values(1,2) by metis

lemma plan_values_bounds: "plan_values plan p \<Longrightarrow> 0 < p \<and> p \<le> 2 ^ 24"
  using page_count_bounds(1,3) [of "pl_max_context plan"] by (simp add: plan_values_def)

section \<open>Page records\<close>

text \<open>The place of a record among the layers of both families.\<close>

definition record_index :: "u32 \<Rightarrow> u32 \<Rightarrow> nat" where
  "record_index family layer = (if family = FAMILY_TARGET then unat layer else 16 + unat layer)"

definition known_record :: "u32 \<Rightarrow> u32 \<Rightarrow> bool" where
  "known_record family layer \<longleftrightarrow>
     family = FAMILY_TARGET \<and> layer < TARGET_LAYERS \<or> family = FAMILY_DSPARK \<and> layer < DSPARK_LAYERS"

definition record_offset :: "nat \<Rightarrow> u32 \<Rightarrow> u32 \<Rightarrow> nat \<Rightarrow> nat" where
  "record_offset p family layer page = 4096 + (record_index family layer * p + page) * 524288"

lemma record_index_less: "known_record family layer \<Longrightarrow> record_index family layer < 21"
  by (auto simp: known_record_def record_index_def kv_constants word_less_nat_alt)

lemma record_index_inj:
  assumes "known_record f1 l1" and "known_record f2 l2" and "record_index f1 l1 = record_index f2 l2"
  shows "f1 = f2 \<and> l1 = l2"
  using assms
  by (auto simp: known_record_def record_index_def kv_constants word_less_nat_alt word_unat_eq_iff)

lemma record_in_file:
  assumes "known_record family layer" and "page < p"
  shows "4096 \<le> record_offset p family layer page"
    and "record_offset p family layer page + 524288 \<le> 4096 + p * 11010048"
proof -
  have "record_index family layer * p \<le> 20 * p"
    using record_index_less [OF assms(1)] by (intro mult_right_mono) simp_all
  then have "record_index family layer * p + page + 1 \<le> 20 * p + p"
    using assms(2) by linarith
  then show "record_offset p family layer page + 524288 \<le> 4096 + p * 11010048"
    by (simp add: record_offset_def algebra_simps)
qed (simp add: record_offset_def)

lemma record_disjoint:
  assumes "known_record f1 l1" and "known_record f2 l2" and "pg1 < p" and "pg2 < p"
    and "(f1, l1, pg1) \<noteq> (f2, l2, pg2)"
  shows "record_offset p f1 l1 pg1 + 524288 \<le> record_offset p f2 l2 pg2 \<or>
    record_offset p f2 l2 pg2 + 524288 \<le> record_offset p f1 l1 pg1"
proof -
  let ?i = "record_index f1 l1 * p + pg1" and ?j = "record_index f2 l2 * p + pg2"
  have "?i \<noteq> ?j"
  proof
    assume eq: "?i = ?j"
    have "record_index f1 l1 = record_index f2 l2"
      using arg_cong [OF eq, of "\<lambda>x. x div p"] assms(3,4) by simp
    moreover from this have "pg1 = pg2"
      using eq by simp
    ultimately show False
      using record_index_inj [OF assms(1,2)] assms(5) by simp
  qed
  then show ?thesis
    by (auto simp: record_offset_def)
qed

lemma unat_of_nat_small: "n < 2 ^ 64 \<Longrightarrow> unat (of_nat n :: u64) = n"
  by (rule unat_of_nat_u64)

lemma unat_eq_of_nat: "unat w = n \<Longrightarrow> w = of_nat n" for w :: u64
  by auto

lemma region_offset_value:
  assumes "unat base + (unat layer * unat pages + unat page) * 524288 < 2 ^ 64"
    and "unat pages \<le> 2 ^ 24" and "unat layer < 21" and "unat page < unat pages"
    and "page_bytes = 524288"
  shows "\<exists>w. region_offset base pages page_bytes layer page = Some w \<and>
    unat w = unat base + (unat layer * unat pages + unat page) * 524288"
proof -
  have l: "unat layer * unat pages \<le> 20 * 2 ^ 24"
    using assms(2,3) by (intro mult_mono) simp_all
  have m1: "checked_mul (ucast pages) page_bytes = Some (ucast pages * page_bytes)"
    "unat ((ucast pages :: u64) * page_bytes) = unat pages * 524288"
    using checked_mul_some [of "ucast pages" page_bytes] assms(2,5) by simp_all
  have m2: "checked_mul (ucast layer) (ucast pages * page_bytes) = Some (ucast layer * (ucast pages * page_bytes))"
    "unat ((ucast layer :: u64) * (ucast pages * page_bytes)) = unat layer * unat pages * 524288"
    using checked_mul_some [of "ucast layer" "ucast pages * page_bytes"] l m1(2) by (simp_all add: mult.assoc)
  let ?w = "(ucast layer :: u64) * (ucast pages * page_bytes)"
  have m3: "checked_add base ?w = Some (base + ?w)"
    "unat (base + ?w) = unat base + unat layer * unat pages * 524288"
    using checked_add_some [of base ?w] m2(2) assms(1) by (simp_all add: algebra_simps)
  have m4: "checked_mul (ucast page) page_bytes = Some (ucast page * page_bytes)"
    "unat ((ucast page :: u64) * page_bytes) = unat page * 524288"
    using checked_mul_some [of "ucast page" page_bytes] assms(2,4,5) by simp_all
  let ?v = "(ucast page :: u64) * page_bytes"
  have m5: "checked_add (base + ?w) ?v = Some (base + ?w + ?v)"
    "unat (base + ?w + ?v) = unat base + unat layer * unat pages * 524288 + unat page * 524288"
    using checked_add_some [of "base + ?w" ?v] m3(2) m4(2) assms(1) by (simp_all add: algebra_simps)
  have "region_offset base pages page_bytes layer page = Some (base + ?w + ?v)"
    unfolding region_offset_def by (simp only: m1(1) m2(1) m3(1) m4(1) m5(1) bind.bind_lunit)
  then show ?thesis
    using m5(2) by (simp add: algebra_simps)
qed

lemma page_offset_value:
  assumes "plan_values plan p"
  shows "page_offset_for_plan plan family layer page =
    (if known_record family layer \<and> unat page < p
     then Inr (of_nat (record_offset p family layer (unat page))) else Inl AXIOM_ERR_INVALID_ARGUMENT)"
proof (cases "known_record family layer \<and> unat page < p")
  case True
  note b = plan_values_bounds [OF assms]
  have lt: "record_index family layer < 21" "unat layer < 21"
    using record_index_less [of family layer] True by (auto simp: record_index_def split: if_splits)
  have "(record_index family layer * p + unat page) * 524288 < 2 ^ 50"
    using record_in_file(2) [of family layer "unat page" p] True b by (simp add: record_offset_def)
  note small = this
  have page: "\<not> page \<ge> pl_logical_pages plan"
    using True assms by (simp add: word_le_nat_alt plan_values_def)
  show ?thesis
  proof (cases "family = FAMILY_TARGET")
    case target: True
    obtain w where w: "region_offset (ucast HEADER_BYTES) (pl_logical_pages plan) (pl_target_page_bytes plan)
        layer page = Some w" "unat w = record_offset p family layer (unat page)"
      using region_offset_value [of "ucast HEADER_BYTES" layer "pl_logical_pages plan" page "pl_target_page_bytes plan"]
        True target assms b lt(2) small
      by (auto simp: plan_values_def record_offset_def record_index_def HEADER_BYTES_def TARGET_PAGE_BYTES_def)
    note w(1) unat_eq_of_nat [OF w(2)]
    then show ?thesis
      using True target page assms by (auto simp: page_offset_for_plan_def plan_values_def known_record_def
          FAMILY_TARGET_def FAMILY_DSPARK_def)
  next
    case False
    then have dspark: "family = FAMILY_DSPARK" "layer < DSPARK_LAYERS"
      using True by (auto simp: known_record_def)
    let ?o = "ucast HEADER_BYTES :: u64" and ?t = "pl_target_payload_bytes plan"
    have o: "checked_add ?o ?t = Some (?o + ?t)" "unat (?o + ?t) = 4096 + p * 8388608"
      using checked_add_some [of ?o ?t] assms b by (simp_all add: plan_values_def HEADER_BYTES_def)
    obtain w where w: "region_offset (?o + ?t) (pl_logical_pages plan) (pl_dspark_page_bytes plan)
        layer page = Some w" "unat w = record_offset p family layer (unat page)"
      using region_offset_value [of "?o + ?t" layer "pl_logical_pages plan" page "pl_dspark_page_bytes plan"]
        True False assms b lt(2) small o(2)
      by (auto simp: plan_values_def record_offset_def record_index_def DSPARK_PAGE_BYTES_def algebra_simps)
    note w(1) unat_eq_of_nat [OF w(2)]
    then show ?thesis
      using True False dspark page assms o(1) by (auto simp: page_offset_for_plan_def plan_values_def
          FAMILY_TARGET_def FAMILY_DSPARK_def)
  qed
next
  case False
  then show ?thesis
    using assms by (auto simp: page_offset_for_plan_def plan_values_def known_record_def word_le_nat_alt
        not_le not_less word_less_nat_alt Let_def split: option.split)
qed

lemma page_offset_inr:
  assumes "plan_values plan p" and "page_offset_for_plan plan family layer page = Inr offset"
  shows "known_record family layer" and "unat page < p" and "unat offset = record_offset p family layer (unat page)"
proof -
  show k: "known_record family layer" "unat page < p"
    using assms by (auto simp: page_offset_value split: if_splits)
  have "record_offset p family layer (unat page) < 2 ^ 64"
    using record_in_file(2) [OF k] plan_values_bounds [OF assms(1)] by simp
  then show "unat offset = record_offset p family layer (unat page)"
    using assms k by (auto simp: page_offset_value unat_of_nat_u64 split: if_splits)
qed

lemma kv_page_offset_eq: "kv_page_offset tier = page_offset_for_plan (kt_plan tier)"
  by (simp add: fun_eq_iff kv_page_offset_def page_offset_for_plan_def Let_def)

lemma family_page_bytes_known: "known_record family layer \<Longrightarrow> family_page_bytes family = 524288"
  by (auto simp: known_record_def family_page_bytes_def kv_constants)

end
