(* ===== verification/KvIo.thy ===== *)
theory KvIo
  imports KvLayout
begin

text \<open>
  What the system calls and the exact loops do to a world, for every sequence of answers: reading
  changes nothing, writing changes a prefix of its range, and only a success is a full transfer.
\<close>

section \<open>Worlds that differ in the answers left\<close>

definition quiet :: "world \<Rightarrow> world \<Rightarrow> bool" where
  "quiet w w' \<longleftrightarrow> w' = w\<lparr>w_answers := w_answers w'\<rparr>"

lemma quiet_iff:
  "quiet w w' \<longleftrightarrow> w_names w' = w_names w \<and> w_files w' = w_files w \<and> w_next w' = w_next w \<and> w_pages w' = w_pages w"
  by (cases w; cases w') (auto simp: quiet_def)

lemma quiet_refl [simp, intro]: "quiet w w"
  by (simp add: quiet_iff)

lemma quiet_trans [trans]: "quiet w w' \<Longrightarrow> quiet w' w'' \<Longrightarrow> quiet w w''"
  by (simp add: quiet_iff)

lemma quiet_file_bytes: "quiet w w' \<Longrightarrow> file_bytes w' = file_bytes w"
  by (simp add: quiet_iff file_bytes_def fun_eq_iff)

lemma quiet_files: "quiet w w' \<Longrightarrow> w_files w' = w_files w" "quiet w w' \<Longrightarrow> w_names w' = w_names w"
  by (simp_all add: quiet_iff)

lemma quiet_set_bytes: "quiet w w' \<Longrightarrow> quiet (set_bytes fd bs w) (set_bytes fd bs w')"
  by (auto simp: quiet_iff set_bytes_def split: option.split)

lemma take_answer_quiet: "take_answer w = (a, w') \<Longrightarrow> quiet w w'"
  by (auto simp: take_answer_def quiet_iff split: list.splits)

lemma take_answer_empty: "w_answers w = [] \<Longrightarrow> take_answer w = (io_done, w)"
  by (simp add: take_answer_def)

lemma sys_ok_quiet: "sys_ok w = (ok, w') \<Longrightarrow> quiet w w'"
  using take_answer_quiet by (auto simp: sys_ok_def split: prod.splits)

lemma sys_ok_empty: "w_answers w = [] \<Longrightarrow> sys_ok w = (True, w)"
  by (simp add: sys_ok_def take_answer_empty)

lemma regular_private_file_quiet: "regular_private_file fd n w = (ok, w') \<Longrightarrow> quiet w w'"
  using sys_ok_quiet by (auto simp: regular_private_file_def split: prod.splits)

lemma regular_private_file_true:
  "regular_private_file fd n w = (True, w') \<Longrightarrow> length (file_bytes w fd) = n \<and> (\<exists>f. w_files w fd = Some f)"
  using sys_ok_quiet [of w]
  by (fastforce simp: regular_private_file_def file_bytes_def quiet_iff split: prod.splits option.splits)

lemma parent_directory_sync_quiet: "parent_directory_sync path w = (ok, w') \<Longrightarrow> quiet w w'"
  by (auto simp: parent_directory_sync_def dest!: sys_ok_quiet split: prod.splits bool.splits intro: quiet_trans)

section \<open>Files after a write\<close>

lemma file_bytes_set_bytes:
  "w_files w fd = Some f \<Longrightarrow> file_bytes (set_bytes fd bs w) fd = bs"
  by (simp add: file_bytes_def set_bytes_def)

lemma file_bytes_set_other: "fd' \<noteq> fd \<Longrightarrow> file_bytes (set_bytes fd bs w) fd' = file_bytes w fd'"
  by (simp add: file_bytes_def set_bytes_def split: option.split)

lemma set_bytes_set_bytes [simp]: "set_bytes fd bs (set_bytes fd cs w) = set_bytes fd bs w"
  by (auto simp: set_bytes_def split: option.splits)

lemma set_bytes_same: "set_bytes fd (file_bytes w fd) w = w"
  by (auto simp: set_bytes_def file_bytes_def fun_upd_idem split: option.splits)

lemma w_names_set_bytes [simp]: "w_names (set_bytes fd bs w) = w_names w"
  "w_pages (set_bytes fd bs w) = w_pages w" "w_next (set_bytes fd bs w) = w_next w"
  by (simp_all add: set_bytes_def split: option.split)

lemma w_files_set_bytes:
  "w_files (set_bytes fd bs w) fd' =
     (if fd' = fd then map_option (\<lambda>f. f\<lparr>df_bytes := bs\<rparr>) (w_files w fd) else w_files w fd')"
  by (simp add: set_bytes_def split: option.split)

section \<open>Exact reads\<close>

lemma sys_pread_quiet: "sys_pread fd n offset w = (r, w') \<Longrightarrow> quiet w w'"
  using take_answer_quiet by (auto simp: sys_pread_def Let_def split: prod.splits)

lemma sys_pread_data:
  assumes "sys_pread fd n offset w = (transferred d, w')"
  shows "\<exists>k\<le>n. d = field_at offset k (file_bytes w fd)"
proof -
  obtain a w1 where a: "take_answer w = (a, w1)" by fastforce
  have "file_bytes w1 = file_bytes w"
    using take_answer_quiet [OF a] by (rule quiet_file_bytes)
  then show ?thesis
    using assms a by (cases a) (auto simp: sys_pread_def intro: exI [of _ n] min.cobounded2)
qed

lemma field_at_split:
  assumes "d = field_at offset k file" and "k \<le> n"
  shows "d @ field_at (offset + length d) (n - length d) file = field_at offset n file"
proof (cases "length d = k")
  case True
  then show ?thesis
    using assms take_add [of k "n - k" "drop offset file"] by (simp add: field_at_def add.commute)
next
  case False
  then have "length file < offset + k"
    using assms(1) by (auto simp: field_at_def)
  moreover from this have "d = drop offset file"
    using assms(1) by (simp add: field_at_def)
  ultimately show ?thesis
    using assms(2) by (auto simp: field_at_def)
qed

lemma exact_pread_spec:
  "exact_pread fd n offset w = (r, w') \<Longrightarrow> quiet w w' \<and> r \<in> {Inl AXIOM_ERR_IO, Inr (field_at offset n (file_bytes w fd))} \<and>
    (\<forall>bs. r = Inr bs \<longrightarrow> length bs = n)"
proof (induction fd n offset w arbitrary: r w' rule: exact_pread.induct)
  case (1 fd n offset w)
  note eq = "1.prems" [unfolded exact_pread.simps [of fd n offset w]]
  show ?case
  proof (cases "n = 0")
    case True
    then show ?thesis using eq by (auto simp: field_at_def)
  next
    case False
    obtain t w1 where t: "sys_pread fd n offset w = (t, w1)" by fastforce
    have q: "quiet w w1" by (rule sys_pread_quiet [OF t])
    show ?thesis
    proof (cases t)
      case (transferred d)
      note t = t [unfolded transferred]
      obtain k where k: "k \<le> n" "d = field_at offset k (file_bytes w fd)"
        using sys_pread_data [OF t] by blast
      show ?thesis
      proof (cases "d = []")
        case True
        then show ?thesis using eq t False q by auto
      next
        case d: False
        obtain r1 w2 where r1: "exact_pread fd (n - length d) (offset + length d) w1 = (r1, w2)" by fastforce
        have ih: "quiet w1 w2 \<and> r1 \<in> {Inl AXIOM_ERR_IO, Inr (field_at (offset + length d) (n - length d) (file_bytes w1 fd))} \<and>
            (\<forall>bs. r1 = Inr bs \<longrightarrow> length bs = n - length d)"
          using "1.IH"(1) [OF False t [symmetric] refl d r1] .
        moreover have "length d \<le> n"
          using k by (simp add: field_at_def)
        moreover have "length (field_at offset n (file_bytes w fd)) =
            length d + length (field_at (offset + length d) (n - length d) (file_bytes w fd))"
          by (metis length_append field_at_split [OF k(2,1)])
        ultimately show ?thesis
          using eq t False d r1 q field_at_split [OF k(2,1)] quiet_trans [OF q]
          by (cases r1) (auto simp: quiet_file_bytes [OF q])
      qed
    next
      case interrupted
      then show ?thesis
        using "1.IH"(2) [OF False t [unfolded interrupted, symmetric] refl] eq t False quiet_trans [OF q]
        by (auto simp: quiet_file_bytes [OF q])
    next
      case transfer_failed
      then show ?thesis using eq t False q by auto
    qed
  qed
qed

lemma exact_pread_ok:
  assumes "exact_pread fd n offset w = (Inr bs, w')"
  shows "bs = field_at offset n (file_bytes w fd)" and "length bs = n" and "quiet w w'"
  using exact_pread_spec [OF assms] by auto

lemma exact_pread_empty:
  assumes "w_answers w = []" and "offset + n \<le> length (file_bytes w fd)"
  shows "exact_pread fd n offset w = (Inr (field_at offset n (file_bytes w fd)), w)"
proof -
  have "field_at offset n (file_bytes w fd) = [] \<longleftrightarrow> n = 0"
    using length_field_at [OF assms(2)] by auto
  then show ?thesis
    using assms length_field_at [OF assms(2)]
    by (subst exact_pread.simps) (auto simp: sys_pread_def take_answer_empty exact_pread.simps field_at_def)
qed

section \<open>Exact writes\<close>

lemma length_write_at_any:
  "length (write_at offset bs file) = (if bs = [] then length file else max (length file) (offset + length bs))"
  by (auto simp: write_at_def)

lemma nth_write_at_any:
  "i < length (write_at offset bs file) \<Longrightarrow> write_at offset bs file ! i =
     (if offset \<le> i \<and> i < offset + length bs then bs ! (i - offset) else if i < length file then file ! i else 0)"
proof (cases "offset \<le> length file")
  case True
  assume i: "i < length (write_at offset bs file)"
  have eq: "write_at offset bs file = take offset file @ bs @ drop (offset + length bs) file"
    using True by (simp add: write_at_def)
  have "i < offset \<or> offset \<le> i \<and> i < offset + length bs \<or> offset + length bs \<le> i \<and> i < length file"
    using i True by (auto simp: eq)
  then show ?thesis
    using True unfolding eq by (elim disjE) (auto simp: nth_append)
next
  case False
  assume "i < length (write_at offset bs file)"
  with False show ?thesis
    by (cases "i < length file"; cases "i < offset") (auto simp: write_at_def nth_append split: if_splits)
qed

lemma write_at_append_any:
  assumes "xs \<noteq> []"
  shows "write_at (offset + length xs) ys (write_at offset xs file) = write_at offset (xs @ ys) file"
proof (rule nth_equalityI)
  show len: "length (write_at (offset + length xs) ys (write_at offset xs file)) =
      length (write_at offset (xs @ ys) file)"
    using assms by (auto simp: length_write_at_any)
  fix i assume "i < length (write_at (offset + length xs) ys (write_at offset xs file))"
  then show "write_at (offset + length xs) ys (write_at offset xs file) ! i = write_at offset (xs @ ys) file ! i"
    using assms len
    by (auto simp: nth_write_at_any nth_append length_write_at_any split: if_splits)
qed

lemma sys_pwrite_effect:
  assumes "sys_pwrite fd bs offset w = (r, w')"
  shows "case r of transferred d \<Rightarrow>
      (\<exists>k. d = take k bs) \<and> quiet (set_bytes fd (write_at offset d (file_bytes w fd)) w) w'
    | _ \<Rightarrow> quiet w w'"
proof -
  obtain a w1 where a: "take_answer w = (a, w1)" by fastforce
  have q: "quiet w w1" by (rule take_answer_quiet [OF a])
  have "\<exists>k. bs = take k bs"
    by (metis order_refl take_all)
  then show ?thesis
    using assms a q quiet_set_bytes [OF q] quiet_file_bytes [OF q]
    by (cases a) (auto simp: sys_pwrite_def Let_def)
qed

lemma exact_pwrite_spec:
  assumes "w_files w fd = Some f"
  shows "exact_pwrite fd bs offset w = (rc, w') \<Longrightarrow>
    \<exists>k. quiet (set_bytes fd (write_at offset (take k bs) (file_bytes w fd)) w) w' \<and>
      (rc = AXIOM_OK \<and> take k bs = bs \<or> rc = AXIOM_ERR_IO)"
  using assms
proof (induction fd bs offset w arbitrary: f rc w' rule: exact_pwrite.induct)
  case (1 fd bs offset w)
  note eq = "1.prems"(1) [unfolded exact_pwrite.simps [of fd bs offset w]]
  show ?case
  proof (cases "bs = []")
    case True
    then show ?thesis using eq by (simp add: set_bytes_same)
  next
    case False
    obtain t w1 where t: "sys_pwrite fd bs offset w = (t, w1)" by fastforce
    note effect = sys_pwrite_effect [OF t]
    show ?thesis
    proof (cases t)
      case (transferred d)
      note t = t [unfolded transferred]
      obtain k where k: "d = take k bs"
        and q: "quiet (set_bytes fd (write_at offset d (file_bytes w fd)) w) w1"
        using effect transferred by auto
      show ?thesis
      proof (cases "d = []")
        case True
        then have "quiet w w1" using q by (simp add: set_bytes_same)
        then show ?thesis
          using eq t False True by (intro exI [of _ 0]) (simp add: set_bytes_same)
      next
        case d: False
        have f1: "w_files w1 fd = Some (f\<lparr>df_bytes := write_at offset d (file_bytes w fd)\<rparr>)"
          using quiet_files(1) [OF q] "1.prems"(2) by (simp add: w_files_set_bytes)
        have b1: "file_bytes w1 fd = write_at offset d (file_bytes w fd)"
          using f1 by (simp add: file_bytes_def)
        obtain j where j: "quiet (set_bytes fd (write_at (offset + length d) (take j (drop (length d) bs)) (file_bytes w1 fd)) w1) w'"
          "rc = AXIOM_OK \<and> take j (drop (length d) bs) = drop (length d) bs \<or> rc = AXIOM_ERR_IO"
          using "1.IH"(1) [OF False t [symmetric] refl d _ f1] eq t False d by auto
        have pre: "d @ take j (drop (length d) bs) = take (length d + j) bs"
          using k by (metis append_take_drop_id append_eq_conv_conj take_add)
        have "set_bytes fd (write_at (offset + length d) (take j (drop (length d) bs)) (file_bytes w1 fd)) w1 = set_bytes fd (write_at offset (take (length d + j) bs) (file_bytes w fd)) w1"
          using write_at_append_any [OF d, of offset "take j (drop (length d) bs)" "file_bytes w fd"] pre by (simp add: b1)
        moreover have "quiet (set_bytes fd (write_at offset (take (length d + j) bs) (file_bytes w fd)) w)
            (set_bytes fd (write_at offset (take (length d + j) bs) (file_bytes w fd)) w1)"
          using quiet_set_bytes [OF q, of fd] by simp
        ultimately have "quiet (set_bytes fd (write_at offset (take (length d + j) bs) (file_bytes w fd)) w) w'"
          using j(1) quiet_trans by simp
        moreover have "rc = AXIOM_OK \<Longrightarrow> take (length d + j) bs = bs"
          using j(2) pre k by (metis append_take_drop_id append_eq_conv_conj axiom_status.distinct(3))
        ultimately show ?thesis
          using j(2) by blast
      qed
    next
      case interrupted
      then have q: "quiet w w1" using effect by simp
      have "w_files w1 fd = Some f"
        using "1.prems"(2) quiet_files(1) [OF q] by simp
      then obtain k where "quiet (set_bytes fd (write_at offset (take k bs) (file_bytes w1 fd)) w1) w'"
        "rc = AXIOM_OK \<and> take k bs = bs \<or> rc = AXIOM_ERR_IO"
        using "1.IH"(2) [OF False t [unfolded interrupted, symmetric] refl] eq t False interrupted by auto
      then show ?thesis
        using quiet_trans [OF quiet_set_bytes [OF q]] by (metis quiet_file_bytes [OF q])
    next
      case transfer_failed
      then show ?thesis
        using eq t False effect by (intro exI [of _ 0]) (simp add: set_bytes_same)
    qed
  qed
qed

lemma exact_pwrite_ok:
  assumes "w_files w fd = Some f" and "exact_pwrite fd bs offset w = (AXIOM_OK, w')"
  shows "quiet (set_bytes fd (write_at offset bs (file_bytes w fd)) w) w'"
  using exact_pwrite_spec [OF assms] by auto

lemma exact_pwrite_empty:
  assumes "w_answers w = []"
  shows "exact_pwrite fd bs offset w = (AXIOM_OK, set_bytes fd (write_at offset bs (file_bytes w fd)) w)"
  by (subst exact_pwrite.simps)
    (simp add: sys_pwrite_def take_answer_empty assms exact_pwrite.simps set_bytes_same)

end
