(* ===== verification/KvImage.thy ===== *)
theory KvImage
  imports KvIo
begin

text \<open>
  The memory images of the two headers: reading back an image gives the structure, and writing back
  a structure that was read gives the same 4096 bytes. Headers that the code fills are valid.
\<close>

section \<open>Fields\<close>

lemma field_at_drop: "offset + n = k \<Longrightarrow> field_at offset n bs @ drop k bs = drop offset bs"
  unfolding field_at_def by (metis add.commute append_take_drop_id drop_drop)

lemma field_at_to_end: "length bs = offset + n \<Longrightarrow> field_at offset n bs = drop offset bs"
  by (simp add: field_at_def)

lemma le_bytes_u32_at: "offset + 4 \<le> length bs \<Longrightarrow> le_bytes 4 (u32_at offset bs) = field_at offset 4 bs"
  using le_bytes_word [of "field_at offset 4 bs", where 'a = 32] by (simp add: u32_at_def length_field_at)

lemma le_bytes_u64_at: "offset + 8 \<le> length bs \<Longrightarrow> le_bytes 8 (u64_at offset bs) = field_at offset 8 bs"
  using le_bytes_word [of "field_at offset 8 bs", where 'a = 64] by (simp add: u64_at_def length_field_at)

section \<open>Tier headers\<close>

definition wf_header :: "disk_header \<Rightarrow> bool" where
  "wf_header h \<longleftrightarrow> length (dh_magic h) = 8 \<and> length (dh_reserved h) = 3992"

lemma length_header_image: "wf_header h \<Longrightarrow> length (header_image h) = 4096"
  by (simp add: header_image_def wf_header_def)

lemma header_of_image: "wf_header h \<Longrightarrow> header_of (header_image h) = h"
  by (cases h) (simp add: header_image_def header_of_def wf_header_def u32_at_def u64_at_def field_at_def)

lemma header_image_of: "length bs = 4096 \<Longrightarrow> header_image (header_of bs) = bs"
  by (simp add: header_image_def header_of_def le_bytes_u32_at le_bytes_u64_at field_at_to_end [of bs 104] field_at_drop)

lemma wf_header_of: "length bs = 4096 \<Longrightarrow> wf_header (header_of bs)"
  by (simp add: wf_header_def header_of_def length_field_at)

lemma length_tier_magic [simp]: "length tier_magic = 8"
  by (simp add: tier_magic_def)

lemma wf_fill_header [simp]: "wf_header (fill_header plan generation committed)"
  by (simp add: wf_header_def fill_header_def Let_def)

lemma valid_fill_header:
  assumes "committed \<le> pl_max_context plan"
  shows "valid_header (fill_header plan generation committed) plan"
proof -
  have "\<not> (ucast committed :: u64) > ucast (pl_max_context plan)"
    using assms by (simp add: word_less_nat_alt word_le_nat_alt)
  then show ?thesis
    by (simp add: valid_header_def fill_header_def Let_def)
qed

lemma fill_header_sel [simp]:
  "dh_generation (fill_header plan g c) = g" "dh_committed_tokens (fill_header plan g c) = ucast c"
  "dh_max_context (fill_header plan g c) = pl_max_context plan"
  "dh_file_bytes (fill_header plan g c) = pl_file_bytes plan"
  by (simp_all add: fill_header_def Let_def)

section \<open>Journal headers\<close>

definition wf_journal :: "journal_header \<Rightarrow> bool" where
  "wf_journal h \<longleftrightarrow> length (jh_magic h) = 8 \<and> length (jh_reserved h) = 4016"

lemma length_journal_image: "wf_journal h \<Longrightarrow> length (journal_image h) = 4096"
  by (simp add: journal_image_def wf_journal_def)

lemma journal_of_image: "wf_journal h \<Longrightarrow> journal_of (journal_image h) = h"
  by (cases h) (simp add: journal_image_def journal_of_def wf_journal_def u32_at_def u64_at_def field_at_def)

lemma length_journal_magic [simp]: "length journal_magic = 8"
  by (simp add: journal_magic_def)

lemma wf_make_journal_header [simp]: "wf_journal (make_journal_header tier partial base payload)"
  by (simp add: wf_journal_def make_journal_header_def Let_def)

end
