(* ===== verification/KvRecords.thy ===== *)
theory KvRecords
  imports KvImage
begin

text \<open>
  The page records of a tier file: reading the records of one logical page collects them in order,
  writing them back puts each in its place and changes nothing else.
\<close>

section \<open>Records of a file\<close>

definition page_record :: "nat \<Rightarrow> u32 \<Rightarrow> u32 \<Rightarrow> nat \<Rightarrow> byte list \<Rightarrow> byte list" where
  "page_record p family layer page file = field_at (record_offset p family layer page) 524288 file"

definition tier_sized :: "nat \<Rightarrow> byte list \<Rightarrow> bool" where
  "tier_sized p file \<longleftrightarrow> length file = 4096 + p * 11010048"

definition records_of :: "nat \<Rightarrow> nat \<Rightarrow> (u32 \<times> u32) list \<Rightarrow> byte list \<Rightarrow> byte list" where
  "records_of p page recs file = concat (map (\<lambda>(family, layer). page_record p family layer page file) recs)"

lemma length_page_record:
  "tier_sized p file \<Longrightarrow> known_record family layer \<Longrightarrow> page < p \<Longrightarrow>
     length (page_record p family layer page file) = 524288"
  unfolding page_record_def tier_sized_def
  by (intro length_field_at) (metis record_in_file(2))

lemma plan_records_known:
  assumes "plan_values plan p"
  shows "set (plan_records plan) = {(family, layer). known_record family layer}" and "distinct (plan_records plan)"
    and "length (plan_records plan) = 21"
proof -
  have small: "(of_nat i :: u32) = of_nat j \<longleftrightarrow> i = j" if "i < 16" "j < 16" for i j
    using that by (simp add: word_of_nat_eq_iff take_bit_nat_eq_self)
  have lay: "pl_target_layers plan = 16" "pl_dspark_layers plan = 5"
    using assms by (simp_all add: plan_values_def kv_constants)
  have "x < 16 \<longleftrightarrow> (\<exists>i<16. x = of_nat i)" "x < 5 \<longleftrightarrow> (\<exists>i<5. x = of_nat i)" for x :: u32
    by (auto simp: word_less_nat_alt unat_of_nat take_bit_nat_eq_self intro!: exI [of _ "unat x"])
  then show "set (plan_records plan) = {(family, layer). known_record family layer}"
    by (auto simp: plan_records_def known_record_def lay kv_constants)
  have "inj_on (\<lambda>i. (f, of_nat i :: u32)) {0..<n}" if "n \<le> 16" for n and f :: u32
    using that small by (auto intro!: inj_onI)
  then show "distinct (plan_records plan)"
    by (auto simp: plan_records_def lay distinct_map kv_constants)
  show "length (plan_records plan) = 21"
    by (simp add: plan_records_def lay)
qed

section \<open>Reading\<close>

lemma read_records_ok:
  assumes "plan_values plan p" and "read_records plan fd page recs w = (Inr bs, w')"
  shows "quiet w w'" and "bs = records_of p (unat page) recs (file_bytes w fd)"
    and "length bs = 524288 * length recs"
proof -
  have "quiet w w' \<and> bs = records_of p (unat page) recs (file_bytes w fd) \<and> length bs = 524288 * length recs"
    using assms(2)
  proof (induction recs arbitrary: bs w)
    case (Cons rec recs)
    obtain family layer where rec: "rec = (family, layer)" by fastforce
    from Cons.prems obtain offset b w1 rest where s: "page_offset_for_plan plan family layer page = Inr offset"
      "exact_pread fd (unat (family_page_bytes family)) (unat offset) w = (Inr b, w1)"
      "read_records plan fd page recs w1 = (Inr rest, w')" "bs = b @ rest"
      by (auto simp: rec split: sum.splits prod.splits)
    note o = page_offset_inr [OF assms(1) s(1)]
    note r = exact_pread_ok [OF s(2)]
    have b: "b = page_record p family layer (unat page) (file_bytes w fd)" "length b = 524288"
      using r o by (simp_all add: page_record_def family_page_bytes_known)
    show ?case
      using Cons.IH [OF s(3)] b s(4) r(3) quiet_trans quiet_file_bytes [OF r(3)]
      by (auto simp: rec records_of_def)
  qed (simp add: records_of_def)
  then show "quiet w w'" "bs = records_of p (unat page) recs (file_bytes w fd)"
    "length bs = 524288 * length recs"
    by blast+
qed

lemma read_records_empty:
  assumes "plan_values plan p" and "w_answers w = []" and "tier_sized p (file_bytes w fd)"
    and "unat page < p" and "list_all (\<lambda>(family, layer). known_record family layer) recs"
  shows "read_records plan fd page recs w = (Inr (records_of p (unat page) recs (file_bytes w fd)), w)"
  using assms(5)
proof (induction recs)
  case (Cons rec recs)
  obtain family layer where rec: "rec = (family, layer)" by fastforce
  have k: "known_record family layer"
    using Cons.prems by (simp add: rec)
  have o: "page_offset_for_plan plan family layer page = Inr (of_nat (record_offset p family layer (unat page)))"
    using page_offset_value [OF assms(1)] k assms(4) by simp
  note off = page_offset_inr(3) [OF assms(1) o]
  have "exact_pread fd 524288 (record_offset p family layer (unat page)) w =
      (Inr (page_record p family layer (unat page) (file_bytes w fd)), w)"
    unfolding page_record_def
    using exact_pread_empty [OF assms(2)] record_in_file(2) [OF k assms(4)] assms(3)
    by (simp add: tier_sized_def)
  then show ?case
    using Cons o off by (simp add: rec records_of_def family_page_bytes_known [OF k])
qed (simp add: records_of_def)

section \<open>Writing back\<close>

fun put_records :: "nat \<Rightarrow> nat \<Rightarrow> (u32 \<times> u32) list \<Rightarrow> byte list \<Rightarrow> byte list \<Rightarrow> byte list" where
  "put_records p page [] payload file = file"
| "put_records p page ((family, layer) # recs) payload file =
     put_records p page recs (drop 524288 payload)
       (write_at (record_offset p family layer page) (take 524288 payload) file)"

lemma write_records_ok:
  assumes "plan_values plan p"
  shows "write_records plan fd page recs payload w = (Inr rest, w') \<Longrightarrow> w_files w fd = Some f \<Longrightarrow>
    quiet (set_bytes fd (put_records p (unat page) recs payload (file_bytes w fd)) w) w' \<and>
    rest = drop (524288 * length recs) payload \<and> 524288 * length recs \<le> length payload \<and>
    (recs \<noteq> [] \<longrightarrow> unat page < p)"
proof (induction recs arbitrary: payload w f)
  case Nil
  then show ?case by (auto simp: set_bytes_same)
next
  case (Cons rec recs)
  obtain family layer where rec: "rec = (family, layer)" by fastforce
  obtain offset w1 where s: "page_offset_for_plan plan family layer page = Inr offset"
    "unat (family_page_bytes family) \<le> length payload"
    "exact_pwrite fd (take (unat (family_page_bytes family)) payload) (unat offset) w = (AXIOM_OK, w1)"
    "write_records plan fd page recs (drop (unat (family_page_bytes family)) payload) w1 = (Inr rest, w')"
    using Cons.prems(1) by (auto simp: rec Let_def split: sum.splits prod.splits if_splits)
  note o = page_offset_inr [OF assms s(1)]
  have bytes: "unat (family_page_bytes family) = 524288"
    using family_page_bytes_known [OF o(1)] by simp
  let ?file = "write_at (record_offset p family layer (unat page)) (take 524288 payload) (file_bytes w fd)"
  have q: "quiet (set_bytes fd ?file w) w1"
    using exact_pwrite_ok [OF Cons.prems(2) s(3)] bytes o(3) by simp
  have f1: "w_files w1 fd = Some (f\<lparr>df_bytes := ?file\<rparr>)"
    using quiet_files(1) [OF q] Cons.prems(2) by (simp add: w_files_set_bytes)
  then have b1: "file_bytes w1 fd = ?file"
    by (simp add: file_bytes_def)
  have ih: "quiet (set_bytes fd (put_records p (unat page) recs (drop 524288 payload) ?file) w1) w'"
    "rest = drop (524288 * length recs) (drop 524288 payload)" "524288 * length recs \<le> length payload - 524288"
    using Cons.IH [OF s(4) f1] by (simp_all add: bytes b1)
  have "quiet (set_bytes fd (put_records p (unat page) recs (drop 524288 payload) ?file) w) w'"
    using quiet_trans [OF quiet_set_bytes [OF q, of fd] ih(1)] by simp
  then show ?case
    using ih(2,3) s(2) bytes o(2) by (simp add: rec add.commute)
qed

text \<open>Writing one record.\<close>

lemma put_one:
  assumes "tier_sized p file" and "page < p" and "known_record fm ly" and "length bs = 524288"
  defines "file' \<equiv> write_at (record_offset p fm ly page) bs file"
  shows "tier_sized p file'" and "field_at 0 4096 file' = field_at 0 4096 file"
    and "page_record p fm ly page file' = bs"
    and "known_record family layer \<Longrightarrow> pg < p \<Longrightarrow> (family, layer, pg) \<noteq> (fm, ly, page) \<Longrightarrow>
      page_record p family layer pg file' = page_record p family layer pg file"
proof -
  let ?o = "record_offset p fm ly page"
  have fit: "?o + length bs \<le> length file" "4096 \<le> ?o"
    using record_in_file [OF assms(3,2)] assms(1,4) by (simp_all add: tier_sized_def)
  show "tier_sized p file'"
    using assms(1) fit by (simp add: tier_sized_def length_write_at file'_def)
  show "field_at 0 4096 file' = field_at 0 4096 file"
    unfolding file'_def using fit by (intro field_write_at_other) auto
  show "page_record p fm ly page file' = bs"
    using field_write_at_same [OF fit(1)] assms(4) by (simp add: page_record_def file'_def)
  assume other: "known_record family layer" "pg < p" "(family, layer, pg) \<noteq> (fm, ly, page)"
  then show "page_record p family layer pg file' = page_record p family layer pg file"
    unfolding page_record_def file'_def
    using record_disjoint [OF other(1) assms(3) other(2) assms(2)] record_in_file(2) [OF other(1,2)] fit(1) assms(1,4)
    by (intro field_write_at_other) (auto simp: tier_sized_def)
qed

text \<open>What a list of records may be put with.\<close>

definition puttable :: "nat \<Rightarrow> (u32 \<times> u32) list \<Rightarrow> byte list \<Rightarrow> bool" where
  "puttable p recs payload \<longleftrightarrow> 524288 * length recs \<le> length payload \<and> distinct recs \<and>
     list_all (\<lambda>(family, layer). known_record family layer) recs"

lemma puttable_Cons:
  "puttable p ((fm, ly) # recs) payload \<Longrightarrow>
     known_record fm ly \<and> length (take 524288 payload) = 524288 \<and> (fm, ly) \<notin> set recs \<and>
     puttable p recs (drop 524288 payload)"
  by (auto simp: puttable_def)

lemma put_records_frame:
  "tier_sized p file \<Longrightarrow> page < p \<Longrightarrow> puttable p recs payload \<Longrightarrow>
     tier_sized p (put_records p page recs payload file) \<and>
     field_at 0 4096 (put_records p page recs payload file) = field_at 0 4096 file \<and>
     (\<forall>family layer pg. known_record family layer \<and> pg < p \<and> (pg \<noteq> page \<or> (family, layer) \<notin> set recs) \<longrightarrow>
        page_record p family layer pg (put_records p page recs payload file) = page_record p family layer pg file)"
proof (induction recs arbitrary: "file" payload)
  case (Cons rec recs)
  obtain fm ly where rec: "rec = (fm, ly)" by fastforce
  note c = puttable_Cons [OF Cons.prems(3) [unfolded rec]]
  note one = put_one [OF Cons.prems(1,2), of fm ly "take 524288 payload"]
  have ih: "tier_sized p (put_records p page (rec # recs) payload file)"
    "field_at 0 4096 (put_records p page (rec # recs) payload file) = field_at 0 4096 file"
    "known_record family layer \<Longrightarrow> pg < p \<Longrightarrow> pg \<noteq> page \<or> (family, layer) \<notin> set recs \<Longrightarrow>
       page_record p family layer pg (put_records p page (rec # recs) payload file) =
       page_record p family layer pg (write_at (record_offset p fm ly page) (take 524288 payload) file)" for family layer pg
    using Cons.IH [OF one(1) Cons.prems(2), of "drop 524288 payload"] c one(2) by (simp_all add: rec)
  then show ?case
    using one(4) c by (auto simp: rec simp del: put_records.simps)
qed simp

lemma put_records_same:
  "tier_sized p file \<Longrightarrow> page < p \<Longrightarrow> puttable p recs payload \<Longrightarrow> i < length recs \<Longrightarrow> recs ! i = (family, layer) \<Longrightarrow>
     page_record p family layer page (put_records p page recs payload file) = field_at (524288 * i) 524288 payload"
proof (induction recs arbitrary: "file" payload i)
  case (Cons rec recs)
  obtain fm ly where rec: "rec = (fm, ly)" by fastforce
  note c = puttable_Cons [OF Cons.prems(3) [unfolded rec]]
  note one = put_one [OF Cons.prems(1,2), of fm ly "take 524288 payload"]
  show ?case
  proof (cases i)
    case 0
    then have "family = fm" "layer = ly"
      using Cons.prems by (simp_all add: rec)
    then show ?thesis
      using put_records_frame [OF one(1) Cons.prems(2), of recs "drop 524288 payload"] one(3) c Cons.prems(2) 0
      by (simp add: rec field_at_def)
  next
    case (Suc j)
    then show ?thesis
      using Cons.IH [OF one(1) Cons.prems(2), of "drop 524288 payload" j] c Cons.prems
      by (simp add: rec field_at_def add.commute)
  qed
qed simp

text \<open>Records of one file put into another.\<close>

lemma nth_records_of:
  "tier_sized p file \<Longrightarrow> page < p \<Longrightarrow> list_all (\<lambda>(family, layer). known_record family layer) recs \<Longrightarrow>
     i < length recs \<Longrightarrow> recs ! i = (family, layer) \<Longrightarrow>
     field_at (524288 * i) 524288 (records_of p page recs file) = page_record p family layer page file"
proof (induction recs arbitrary: i)
  case (Cons rec recs)
  obtain fm ly where rec: "rec = (fm, ly)" by fastforce
  have "length (page_record p fm ly page file) = 524288"
    using Cons.prems by (intro length_page_record) (simp_all add: rec)
  then show ?case
    using Cons.prems Cons.IH [of "i - 1"] by (cases i) (simp_all add: rec records_of_def field_at_def)
qed simp

lemma length_records_of:
  "tier_sized p file \<Longrightarrow> page < p \<Longrightarrow> list_all (\<lambda>(family, layer). known_record family layer) recs \<Longrightarrow>
     length (records_of p page recs file) = 524288 * length recs"
  by (induction recs) (auto simp: records_of_def length_page_record)

lemma put_records_of:
  assumes "tier_sized p file" and "tier_sized p old" and "page < p" and "distinct recs"
    and "list_all (\<lambda>(family, layer). known_record family layer) recs" and "(family, layer) \<in> set recs"
  shows "page_record p family layer page (put_records p page recs (records_of p page recs old) file) =
    page_record p family layer page old"
proof -
  obtain i where i: "i < length recs" "recs ! i = (family, layer)"
    using assms(6) by (auto simp: in_set_conv_nth)
  have "puttable p recs (records_of p page recs old)"
    using assms length_records_of [OF assms(2,3,5)] by (simp add: puttable_def)
  then show ?thesis
    using put_records_same [OF assms(1,3) _ i] nth_records_of [OF assms(2,3,5) i] by simp
qed

end
