(* ===== verification/KvTxSpec.thy ===== *)
theory KvTxSpec
  imports KvRecords
begin

text \<open>
  What the transaction calls do: a successful begin leaves a journal with the header and the tail page
  of the tier, loading gives back exactly that journal, restoring puts both into the tier file.
\<close>

section \<open>Names\<close>

lemma sys_open_quiet: "sys_open path w = (r, w') \<Longrightarrow> quiet w w'"
  using take_answer_quiet by (auto simp: sys_open_def split: prod.splits if_splits)

lemma sys_open_inr: "sys_open path w = (Inr fd, w') \<Longrightarrow> w_names w path = Some fd"
  using take_answer_quiet [of w]
  by (fastforce simp: sys_open_def quiet_iff split: prod.splits if_splits option.splits)

lemma sys_open_enoent: "sys_open path w = (Inl True, w') \<Longrightarrow> w_names w path = None"
  using take_answer_quiet [of w]
  by (fastforce simp: sys_open_def quiet_iff split: prod.splits if_splits option.splits)

lemma sys_unlink_true:
  "sys_unlink path w = (True, w') \<Longrightarrow> quiet (w\<lparr>w_names := (w_names w)(path := None)\<rparr>) w'"
  using take_answer_quiet [of w] by (fastforce simp: sys_unlink_def quiet_iff split: prod.splits if_splits)

lemma sys_rename_true:
  "sys_rename old new w = (True, w') \<Longrightarrow>
     quiet (w\<lparr>w_names := (w_names w)(new := w_names w old, old := None)\<rparr>) w'"
  using take_answer_quiet [of w] by (fastforce simp: sys_rename_def quiet_iff split: prod.splits if_splits)

lemma sys_open_creat_excl:
  "sys_open_creat True path w = (Some fd, w') \<Longrightarrow> w_names w path = None \<and> fd = w_next w \<and> quiet (snd (new_file path w)) w'"
  using take_answer_quiet [of w]
  by (fastforce simp: sys_open_creat_def new_file_def quiet_iff split: prod.splits if_splits option.splits)

section \<open>Publishing the journal\<close>

lemma write_journal_file_ok:
  assumes "write_journal_file fd header payload w = (AXIOM_OK, w')"
    and "w_files w fd = Some f" and "df_bytes f = []" and "wf_journal header"
  shows "quiet (set_bytes fd (journal_image header @ payload) w) w'"
proof -
  obtain w1 w2 w3 where s: "exact_pwrite fd (journal_image header) 0 w = (AXIOM_OK, w1)"
    "exact_pwrite fd payload 4096 w1 = (AXIOM_OK, w2)" "sys_ok w2 = (True, w3)" "sys_ok w3 = (True, w')"
    using assms(1) by (auto simp: write_journal_file_def Let_def split: prod.splits if_splits)
  let ?h = "journal_image header"
  have len: "length ?h = 4096"
    using assms(4) by (rule length_journal_image)
  have "write_at 0 ?h (file_bytes w fd) = ?h"
    using assms(2,3) by (simp add: write_at_def file_bytes_def)
  then have q1: "quiet (set_bytes fd ?h w) w1"
    using exact_pwrite_ok [OF assms(2) s(1)] by simp
  have f1: "w_files w1 fd = Some (f\<lparr>df_bytes := ?h\<rparr>)"
    using quiet_files(1) [OF q1] assms(2) by (simp add: w_files_set_bytes)
  have "write_at 4096 payload ?h = ?h @ payload"
    using len by (simp add: write_at_def)
  then have q2: "quiet (set_bytes fd (?h @ payload) w1) w2"
    using exact_pwrite_ok [OF f1 s(2)] f1 by (simp add: file_bytes_def)
  have "quiet (set_bytes fd (?h @ payload) w) w2"
    using quiet_trans [OF quiet_set_bytes [OF q1, of fd] q2] by simp
  then show ?thesis
    using sys_ok_quiet [OF s(3)] sys_ok_quiet [OF s(4)] quiet_trans by blast
qed

text \<open>The world after a journal was published.\<close>

definition with_journal :: "string \<Rightarrow> byte list \<Rightarrow> world \<Rightarrow> world" where
  "with_journal path content w = w\<lparr>
     w_names := (w_names w)(path @ ''.tmp'' := None, path := Some (w_next w)),
     w_files := (w_files w)(w_next w := Some (empty_file\<lparr>df_bytes := content\<rparr>)), w_next := w_next w + 1\<rparr>"

lemma publish_journal_ok:
  assumes "publish_journal path header payload w = (AXIOM_OK, w')" and "wf_journal header"
  shows "quiet (with_journal path (journal_image header @ payload) w) w'"
proof -
  let ?t = "path @ ''.tmp''"
  obtain w1 fd w2 w3 w4 where s: "sys_unlink ?t w = (True, w1)" "sys_open_creat True ?t w1 = (Some fd, w2)"
    "write_journal_file fd header payload w2 = (AXIOM_OK, w3)" "sys_rename ?t path w3 = (True, w4)"
    "parent_directory_sync path w4 = (True, w')"
    using assms(1)
    by (auto simp: publish_journal_def Let_def split: prod.splits if_splits bool.splits option.splits)
  note q1 = sys_unlink_true [OF s(1)] and q2 = sys_open_creat_excl [OF s(2)]
  have fd: "fd = w_next w" "w_files w2 fd = Some empty_file"
    "w_names w2 = (w_names w)(?t := Some fd)" "w_next w2 = w_next w + 1"
    "w_files w2 = (w_files w)(fd := Some empty_file)" "w_pages w2 = w_pages w"
    using q1 q2 by (auto simp: quiet_iff new_file_def)
  have q3: "quiet (set_bytes fd (journal_image header @ payload) w2) w3"
    using write_journal_file_ok [OF s(3) fd(2) _ assms(2)] by (simp add: empty_file_def)
  have n3: "w_names w3 = w_names w2" "w_next w3 = w_next w2" "w_pages w3 = w_pages w2"
    "w_files w3 = (w_files w)(fd := Some (empty_file\<lparr>df_bytes := journal_image header @ payload\<rparr>))"
    using q3 fd by (auto simp: quiet_iff w_files_set_bytes fun_eq_iff)
  show ?thesis
    using sys_rename_true [OF s(4)] parent_directory_sync_quiet [OF s(5)] n3 fd
    by (auto simp: quiet_iff with_journal_def fun_upd_twist)
qed

section \<open>Beginning\<close>

lemma read_header_quiet: "read_header fd w = (r, w') \<Longrightarrow> quiet w w'"
  by (auto simp: read_header_def dest!: sys_ok_quiet exact_pread_spec split: prod.splits bool.splits sum.splits
      intro: quiet_trans)

lemma read_header_ok:
  assumes "read_header fd w = (Inr h, w')"
  shows "quiet w w'" and "h = header_of (field_at 0 4096 (file_bytes w fd))"
    and "length (field_at 0 4096 (file_bytes w fd)) = 4096"
proof -
  obtain w1 bs where s: "sys_ok w = (True, w1)" "exact_pread fd 4096 0 w1 = (Inr bs, w')" "h = header_of bs"
    using assms by (auto simp: read_header_def split: prod.splits bool.splits sum.splits)
  note q = sys_ok_quiet [OF s(1)] and r = exact_pread_ok [OF s(2)]
  show "quiet w w'" "h = header_of (field_at 0 4096 (file_bytes w fd))"
    "length (field_at 0 4096 (file_bytes w fd)) = 4096"
    using r s(3) quiet_trans [OF q] by (auto simp: quiet_file_bytes [OF q])
qed

text \<open>What a journal of a transaction that starts at \<open>base\<close> saves of a tier file.\<close>

definition saved_payload :: "nat \<Rightarrow> kv_plan \<Rightarrow> u32 \<Rightarrow> byte list \<Rightarrow> byte list" where
  "saved_payload p plan base file = field_at 0 4096 file @
     (if base mod PAGE_TOKENS \<noteq> 0 then records_of p (unat (base div PAGE_TOKENS)) (plan_records plan) file else [])"

definition begin_header :: "kv_tier \<Rightarrow> u32 \<Rightarrow> byte list \<Rightarrow> journal_header" where
  "begin_header tier base payload = make_journal_header tier (base mod PAGE_TOKENS \<noteq> 0) base payload"

lemma collect_payload_ok:
  assumes "plan_values (kt_plan tier) p"
    and "collect_payload tier (header_of (field_at 0 4096 (file_bytes w (kt_fd tier)))) (base mod PAGE_TOKENS \<noteq> 0) base w =
      (Inr payload, w')"
    and "length (field_at 0 4096 (file_bytes w (kt_fd tier))) = 4096"
  shows "quiet w w'" and "payload = saved_payload p (kt_plan tier) base (file_bytes w (kt_fd tier))"
    and "length payload = 4096 + (if base mod PAGE_TOKENS \<noteq> 0 then 11010048 else 0)"
proof -
  let ?partial = "base mod PAGE_TOKENS \<noteq> 0"
  obtain w1 w2 recs where s: "sys_ok w = (True, w1)"
    "(if ?partial then sys_ok w1 else (True, w1)) = (True, w2)"
    "(if ?partial then read_records (kt_plan tier) (kt_fd tier) (base div PAGE_TOKENS) (plan_records (kt_plan tier)) w2
      else (Inr [], w2)) = (Inr recs, w')"
    "payload = header_image (header_of (field_at 0 4096 (file_bytes w (kt_fd tier)))) @ recs"
    using assms(2) by (auto simp: collect_payload_def Let_def split: prod.splits bool.splits option.splits sum.splits if_splits)
  have q2: "quiet w w2"
    using s(1,2) sys_ok_quiet quiet_trans by (metis prod.inject)
  have recs: "recs = (if ?partial then records_of p (unat (base div PAGE_TOKENS)) (plan_records (kt_plan tier))
      (file_bytes w (kt_fd tier)) else []) \<and> quiet w2 w' \<and> length recs = (if ?partial then 11010048 else 0)"
    using s(3) read_records_ok [OF assms(1), of "kt_fd tier" "base div PAGE_TOKENS" "plan_records (kt_plan tier)" w2 recs w']
      plan_records_known(3) [OF assms(1)]
    by (simp add: quiet_file_bytes [OF q2] split: if_splits)
  then show "quiet w w'" "payload = saved_payload p (kt_plan tier) base (file_bytes w (kt_fd tier))"
    "length payload = 4096 + (if ?partial then 11010048 else 0)"
    using q2 quiet_trans s(4) assms(3) by (auto simp: saved_payload_def header_image_of)
qed

lemma collect_payload_not_ok: "fst (collect_payload tier h partial base w) \<noteq> Inl AXIOM_OK"
  by (auto simp: collect_payload_def Let_def split: option.split prod.split bool.split sum.split)

lemma transaction_begin_ok:
  assumes "plan_values (kt_plan tier) p" and "transaction_begin tier jp base w = (AXIOM_OK, w')"
  defines "file \<equiv> file_bytes w (kt_fd tier)"
  defines "payload \<equiv> saved_payload p (kt_plan tier) base file"
  shows "quiet (with_journal jp (journal_image (begin_header tier base payload) @ payload) w) w'"
    and "valid_header (header_of (field_at 0 4096 file)) (kt_plan tier)"
    and "dh_generation (header_of (field_at 0 4096 file)) = kt_generation tier"
    and "dh_committed_tokens (header_of (field_at 0 4096 file)) = ucast base"
    and "length (field_at 0 4096 file) = 4096" and "base \<le> pl_max_context (kt_plan tier)" and "base \<noteq> 0"
    and "length payload = 4096 + (if base mod PAGE_TOKENS \<noteq> 0 then 11010048 else 0)"
    and "w_names w jp = None" and "jp \<noteq> []" and "kt_committed_tokens tier = base"
proof -
  let ?partial = "base mod PAGE_TOKENS \<noteq> 0"
  obtain r1 w1 where r1: "sys_open jp w = (r1, w1)" by fastforce
  obtain r2 w2 where r2: "read_header (kt_fd tier) w1 = (r2, w2)" by fastforce
  have g: "jp \<noteq> []" "base \<noteq> 0" "base \<le> pl_max_context (kt_plan tier)" "kt_committed_tokens tier = base"
    "r1 = Inl True"
    using assms(2) r1
    by (auto simp: transaction_begin_def not_less simp del: split_paired_Ex split: if_splits sum.splits)
  obtain h where h: "r2 = Inr h"
    using assms(2) g r1 r2 by (cases r2) (simp_all add: transaction_begin_def split: if_splits)
  obtain r3 w3 where r3: "collect_payload tier h ?partial base w2 = (r3, w3)" by fastforce
  have v: "valid_header h (kt_plan tier)" "dh_generation h = kt_generation tier" "dh_committed_tokens h = ucast base"
    using assms(2) g r1 r2 h by (auto simp: transaction_begin_def split: if_splits)
  obtain pay where pay: "r3 = Inr pay" "publish_journal jp (make_journal_header tier ?partial base pay) pay w3 = (AXIOM_OK, w')"
    using assms(2) g r1 r2 h v r3 collect_payload_not_ok [of tier h ?partial base w2]
    by (cases r3) (auto simp: transaction_begin_def Let_def split: if_splits)
  note s = g(1-3) r1 [unfolded g(5)] r2 [unfolded h] v r3 [unfolded pay(1)] pay(2) g(4)
  note q1 = sys_open_quiet [OF s(4)] and r = read_header_ok [OF s(5)]
  have f: "file_bytes w2 (kt_fd tier) = file" "file_bytes w1 (kt_fd tier) = file" "quiet w w2"
    using quiet_file_bytes q1 r(1) quiet_trans [OF q1 r(1)] by (simp_all add: file_def)
  have h: "h = header_of (field_at 0 4096 file)" "length (field_at 0 4096 file) = 4096"
    using r(2,3) f(2) by simp_all
  note c = collect_payload_ok [OF assms(1), of w2 base pay w3]
  have pay: "pay = payload" "quiet w2 w3" "length payload = 4096 + (if base mod PAGE_TOKENS \<noteq> 0 then 11010048 else 0)"
    using c s(9) h f(1) by (simp_all add: payload_def)
  have "quiet w w3" using f(3) pay(2) by (rule quiet_trans)
  then have "with_journal jp (journal_image (begin_header tier base payload) @ payload) w3 =
      (with_journal jp (journal_image (begin_header tier base payload) @ payload) w)\<lparr>w_answers := w_answers w3\<rparr>"
    by (simp add: quiet_iff with_journal_def)
  moreover have "quiet (with_journal jp (journal_image (begin_header tier base payload) @ payload) w3) w'"
    using publish_journal_ok [OF s(10)] pay(1) by (simp add: begin_header_def)
  ultimately show "quiet (with_journal jp (journal_image (begin_header tier base payload) @ payload) w) w'"
    by (simp add: quiet_iff)
  show "valid_header (header_of (field_at 0 4096 file)) (kt_plan tier)"
    "dh_generation (header_of (field_at 0 4096 file)) = kt_generation tier"
    "dh_committed_tokens (header_of (field_at 0 4096 file)) = ucast base"
    "length (field_at 0 4096 file) = 4096" "base \<le> pl_max_context (kt_plan tier)" "base \<noteq> 0"
    "length payload = 4096 + (if base mod PAGE_TOKENS \<noteq> 0 then 11010048 else 0)" "jp \<noteq> []"
    "kt_committed_tokens tier = base"
    using s h pay(3) by simp_all
  show "w_names w jp = None"
    using sys_open_enoent [OF s(4)] .
qed

end
