(* ===== verification/KvRecover.thy ===== *)
theory KvRecover
  imports KvTxSpec
begin

text \<open>
  Loading a published journal and restoring from it: rollback and recovery give back the header and
  every committed record of the tier file as the transaction found them.
\<close>

section \<open>Loading\<close>

lemma plan_values_cong:
  assumes "plan_values a p" and "plan_values b p" and "pl_max_context a = pl_max_context b"
  shows "valid_header h a = valid_header h b" and "pl_file_bytes a = pl_file_bytes b"
    and "plan_records a = plan_records b"
proof -
  have "pl_logical_pages a = pl_logical_pages b" "pl_target_payload_bytes a = pl_target_payload_bytes b"
    "pl_dspark_payload_bytes a = pl_dspark_payload_bytes b" "pl_file_bytes a = pl_file_bytes b"
    using assms(1,2) by (simp_all add: plan_values_def word_unat_eq_iff)
  then show "valid_header h a = valid_header h b" "pl_file_bytes a = pl_file_bytes b"
    "plan_records a = plan_records b"
    using assms by (simp_all add: valid_header_def plan_values_def plan_records_def)
qed

lemma tail_page_less:
  assumes "plan_values plan p" and "base \<le> pl_max_context plan" and "base mod PAGE_TOKENS \<noteq> 0"
  shows "unat (base div PAGE_TOKENS) < p"
proof -
  have d: "unat (base div PAGE_TOKENS) = unat base div 256" "unat (base mod PAGE_TOKENS) = unat base mod 256"
    by (simp_all add: PAGE_TOKENS_def unat_div_distrib unat_mod_distrib)
  have "unat base mod 256 \<noteq> 0"
    using assms(3) d(2) by (metis unsigned_0 word_unat_eq_iff)
  moreover have "unat base \<le> 256 * p"
    using assms(1,2) page_count_bounds(2) [of "pl_max_context plan"] by (simp add: plan_values_def word_le_nat_alt)
  ultimately show ?thesis
    unfolding d using mult_div_mod_eq [of 256 "unat base"] by linarith
qed

text \<open>A tier file on which a transaction that starts at \<open>base\<close> can begin.\<close>

definition begins_on :: "kv_tier \<Rightarrow> nat \<Rightarrow> u32 \<Rightarrow> byte list \<Rightarrow> bool" where
  "begins_on tier p base file \<longleftrightarrow> plan_values (kt_plan tier) p \<and> tier_sized p file \<and>
     valid_header (header_of (field_at 0 4096 file)) (kt_plan tier) \<and>
     dh_generation (header_of (field_at 0 4096 file)) = kt_generation tier \<and>
     dh_committed_tokens (header_of (field_at 0 4096 file)) = ucast base \<and>
     base \<le> pl_max_context (kt_plan tier) \<and> base \<noteq> 0"

definition tier_journal :: "kv_tier \<Rightarrow> nat \<Rightarrow> u32 \<Rightarrow> byte list \<Rightarrow> loaded_journal" where
  "tier_journal tier p base file =
     (let payload = saved_payload p (kt_plan tier) base file
      in \<lparr>lj_header = begin_header tier base payload,
          lj_old_tier_header = header_of (field_at 0 4096 file),
          lj_plan = projr (plan_get (pl_max_context (kt_plan tier)) 0 (Some kAbi)),
          lj_payload = payload\<rparr>)"

definition journal_content :: "kv_tier \<Rightarrow> nat \<Rightarrow> u32 \<Rightarrow> byte list \<Rightarrow> byte list" where
  "journal_content tier p base file =
     (let payload = saved_payload p (kt_plan tier) base file
      in journal_image (begin_header tier base payload) @ payload)"

lemma journal_plan:
  assumes "plan_values (kt_plan tier) p"
  shows "\<exists>plan. plan_get (pl_max_context (kt_plan tier)) 0 (Some kAbi) = Inr plan \<and> plan_values plan p \<and>
    pl_max_context plan = pl_max_context (kt_plan tier)"
  using plan_get_total [of "pl_max_context (kt_plan tier)" 0] assms by (auto simp: plan_values_def)

lemma saved_payload_length:
  assumes "begins_on tier p base file"
  shows "length (saved_payload p (kt_plan tier) base file) =
      4096 + (if base mod PAGE_TOKENS \<noteq> 0 then 11010048 else 0)"
    and "take 4096 (saved_payload p (kt_plan tier) base file) = field_at 0 4096 file"
    and "drop 4096 (saved_payload p (kt_plan tier) base file) =
      (if base mod PAGE_TOKENS \<noteq> 0
       then records_of p (unat (base div PAGE_TOKENS)) (plan_records (kt_plan tier)) file else [])"
proof -
  have pv: "plan_values (kt_plan tier) p" and sz: "tier_sized p file"
    using assms by (simp_all add: begins_on_def)
  have len: "length (field_at 0 4096 file) = 4096"
    using sz by (simp add: tier_sized_def length_field_at)
  then show "take 4096 (saved_payload p (kt_plan tier) base file) = field_at 0 4096 file"
    "drop 4096 (saved_payload p (kt_plan tier) base file) =
      (if base mod PAGE_TOKENS \<noteq> 0
       then records_of p (unat (base div PAGE_TOKENS)) (plan_records (kt_plan tier)) file else [])"
    by (simp_all add: saved_payload_def)
  have "length (records_of p (unat (base div PAGE_TOKENS)) (plan_records (kt_plan tier)) file) = 11010048"
    if "base mod PAGE_TOKENS \<noteq> 0"
    using length_records_of [OF sz tail_page_less [OF pv _ that], of "plan_records (kt_plan tier)"]
      plan_records_known [OF pv] assms by (auto simp: list_all_iff begins_on_def)
  then show "length (saved_payload p (kt_plan tier) base file) =
      4096 + (if base mod PAGE_TOKENS \<noteq> 0 then 11010048 else 0)"
    using len by (simp add: saved_payload_def)
qed

lemma sys_open_named:
  assumes "sys_open path w = (r, w')" and "w_names w path = Some fd"
  shows "r = Inl False \<or> r = Inr fd"
proof -
  obtain a w1 where a: "take_answer w = (a, w1)" by fastforce
  then have "w_names w1 path = Some fd"
    using assms(2) quiet_files(2) [OF take_answer_quiet [OF a]] by simp
  then show ?thesis
    using assms(1) a by (auto simp: sys_open_def split: if_splits)
qed

lemma begin_header_fields:
  assumes "begins_on tier p base file"
  shows "journal_header_ok (begin_header tier base payload)"
    and "expected_payload (begin_header tier base payload) =
      Some (if base mod PAGE_TOKENS \<noteq> 0 then 11014144 else 4096)"
    and "jh_payload_bytes (begin_header tier base payload) = of_nat (length payload)"
    and "jh_checksum (begin_header tier base payload) = journal_checksum (begin_header tier base payload) payload"
    and "jh_base_committed_tokens (begin_header tier base payload) = base"
    and "jh_tier_generation (begin_header tier base payload) = kt_generation tier"
    and "jh_tier_file_bytes (begin_header tier base payload) = pl_file_bytes (kt_plan tier)"
    and "jh_logical_page (begin_header tier base payload) = base div PAGE_TOKENS"
    and "jh_record_count (begin_header tier base payload) = (if base mod PAGE_TOKENS \<noteq> 0 then 21 else 0)"
proof -
  have l: "pl_target_layers (kt_plan tier) = 16" "pl_dspark_layers (kt_plan tier) = 5"
    "pl_target_page_bytes (kt_plan tier) = 524288" "pl_dspark_page_bytes (kt_plan tier) = 524288"
    using assms by (simp_all add: begins_on_def plan_values_def kv_constants)
  note defs = begin_header_def make_journal_header_def Let_def
  show "journal_header_ok (begin_header tier base payload)"
    by (simp add: journal_header_ok_def defs l kv_constants)
  show "expected_payload (begin_header tier base payload) =
      Some (if base mod PAGE_TOKENS \<noteq> 0 then 11014144 else 4096)"
    by (simp add: expected_payload_def defs l checked_mul_nat checked_add_nat)
  show "jh_payload_bytes (begin_header tier base payload) = of_nat (length payload)"
    "jh_checksum (begin_header tier base payload) = journal_checksum (begin_header tier base payload) payload"
    "jh_base_committed_tokens (begin_header tier base payload) = base"
    "jh_tier_generation (begin_header tier base payload) = kt_generation tier"
    "jh_tier_file_bytes (begin_header tier base payload) = pl_file_bytes (kt_plan tier)"
    "jh_logical_page (begin_header tier base payload) = base div PAGE_TOKENS"
    "jh_record_count (begin_header tier base payload) = (if base mod PAGE_TOKENS \<noteq> 0 then 21 else 0)"
    by (simp_all add: defs journal_checksum_def l)
qed

lemma accept_tier_journal:
  assumes "begins_on tier p base file"
  defines "payload \<equiv> saved_payload p (kt_plan tier) base file"
  shows "accept_journal (begin_header tier base payload) payload = Inr (Some (tier_journal tier p base file))"
proof -
  note f = begin_header_fields [OF assms(1), of payload] and l = saved_payload_length [OF assms(1), folded payload_def]
  have pv: "plan_values (kt_plan tier) p" and v: "valid_header (header_of (field_at 0 4096 file)) (kt_plan tier)"
    using assms(1) by (simp_all add: begins_on_def)
  obtain plan where plan: "plan_get (pl_max_context (kt_plan tier)) 0 (Some kAbi) = Inr plan" "plan_values plan p"
    "pl_max_context plan = pl_max_context (kt_plan tier)"
    using journal_plan [OF pv] by blast
  have v': "valid_header (header_of (field_at 0 4096 file)) plan"
    using plan_values_cong(1) [OF pv plan(2) plan(3) [symmetric]] v by simp
  have h: "dh_max_context (header_of (field_at 0 4096 file)) = pl_max_context (kt_plan tier)"
    "dh_file_bytes (header_of (field_at 0 4096 file)) = pl_file_bytes (kt_plan tier)"
    using v by (simp_all add: valid_header_def)
  show ?thesis
    using f l(1,2) plan(1) v' h assms(1)
    by (simp add: accept_journal_def tier_journal_def begins_on_def Let_def flip: payload_def)
qed

lemma load_tier_journal:
  assumes "begins_on tier p base file" and "jp \<noteq> []"
    and "w_names w jp = Some jfd" and "w_files w jfd = Some (empty_file\<lparr>df_bytes := journal_content tier p base file\<rparr>)"
  shows "load_transaction_journal jp w = (r, w') \<Longrightarrow>
      quiet w w' \<and> (r = Inr (Some (tier_journal tier p base file)) \<or> (\<exists>rc. r = Inl rc \<and> rc \<noteq> AXIOM_OK))"
    and "w_answers w = [] \<Longrightarrow> load_transaction_journal jp w = (Inr (Some (tier_journal tier p base file)), w)"
proof -
  define payload where "payload = saved_payload p (kt_plan tier) base file"
  let ?h = "begin_header tier base payload"
  note f = begin_header_fields [OF assms(1), of payload] and l = saved_payload_length [OF assms(1), folded payload_def]
  note acc = accept_tier_journal [OF assms(1), folded payload_def]
  have img: "length (journal_image ?h) = 4096"
    by (rule length_journal_image) (simp add: begin_header_def)
  have content: "journal_content tier p base file = journal_image ?h @ payload"
    by (simp add: journal_content_def payload_def Let_def)
  have bytes: "file_bytes w jfd = journal_image ?h @ payload"
    using assms(4) content by (simp add: file_bytes_def)
  have h: "field_at 0 4096 (journal_image ?h @ payload) = journal_image ?h"
    "field_at 4096 (length payload) (journal_image ?h @ payload) = payload"
    using img by (simp_all add: field_at_def)
  have jh: "journal_of (journal_image ?h) = ?h"
    by (rule journal_of_image) (simp add: begin_header_def)
  have pb: "unat (jh_payload_bytes ?h) = length payload" "jh_payload_bytes ?h = (if base mod PAGE_TOKENS \<noteq> 0 then 11014144 else 4096)"
    using f(3) l(1) by (auto simp: unat_of_nat_u64)
  show "w_answers w = [] \<Longrightarrow> load_transaction_journal jp w = (Inr (Some (tier_journal tier p base file)), w)"
    using assms(2-4) img h jh f(1,2) pb acc bytes content
    by (simp add: load_transaction_journal_def sys_open_def take_answer_empty exact_pread_empty
        regular_private_file_def sys_ok_empty Let_def empty_file_def)
  assume load: "load_transaction_journal jp w = (r, w')"
  obtain r1 w1 where r1: "sys_open jp w = (r1, w1)" by fastforce
  note q1 = sys_open_quiet [OF r1] and n1 = sys_open_named [OF r1 assms(3)]
  show "quiet w w' \<and> (r = Inr (Some (tier_journal tier p base file)) \<or> (\<exists>rc. r = Inl rc \<and> rc \<noteq> AXIOM_OK))"
  proof (cases "r1 = Inl False")
    case True
    then show ?thesis
      using load r1 q1 assms(2) by (auto simp: load_transaction_journal_def)
  next
    case False
    then have fd: "sys_open jp w = (Inr jfd, w1)"
      using n1 r1 by simp
    obtain r2 w2 where r2: "exact_pread jfd 4096 0 w1 = (r2, w2)" by fastforce
    have p2: "quiet w1 w2" "r2 = Inl AXIOM_ERR_IO \<or> r2 = Inr (journal_image ?h)"
      using exact_pread_spec [OF r2] bytes h(1) by (auto simp: quiet_file_bytes [OF q1])
    obtain ok w3 where r3: "regular_private_file jfd (4096 + length payload) w2 = (ok, w3)" by fastforce
    obtain ok2 w4 where r4: "sys_ok w3 = (ok2, w4)" by fastforce
    obtain r5 w5 where r5: "exact_pread jfd (length payload) 4096 w4 = (r5, w5)" by fastforce
    have q4: "quiet w w3" "quiet w w4"
      using quiet_trans [OF quiet_trans [OF q1 p2(1)] regular_private_file_quiet [OF r3]] sys_ok_quiet [OF r4]
        quiet_trans by blast+
    have p5: "quiet w4 w5" "r5 = Inl AXIOM_ERR_IO \<or> r5 = Inr payload"
      using exact_pread_spec [OF r5] bytes h(2) by (auto simp: quiet_file_bytes [OF q4(2)])
    have q5: "quiet w w2" "quiet w w5"
      using quiet_trans [OF q1 p2(1)] quiet_trans [OF q4(2) p5(1)] by blast+
    show ?thesis
      using load fd r2 r3 r4 r5 p2(2) p5(2) q1 q4 q5 assms(2) jh f(1,2) pb acc
      by (cases ok; cases ok2) (auto simp: load_transaction_journal_def Let_def)
  qed
qed

section \<open>Restoring\<close>

lemma full_page: "page * 256 < n \<Longrightarrow> page \<noteq> n div 256 \<Longrightarrow> (page + 1) * 256 \<le> n" for n :: nat
  using less_eq_div_iff_mult_less_eq [of 256 page n] less_eq_div_iff_mult_less_eq [of 256 "page + 1" n]
  by simp

text \<open>Two tier files agree on the header and on every record of the committed tokens.\<close>

definition same_committed :: "nat \<Rightarrow> u32 \<Rightarrow> byte list \<Rightarrow> byte list \<Rightarrow> bool" where
  "same_committed p base old new \<longleftrightarrow> tier_sized p new \<and> field_at 0 4096 new = field_at 0 4096 old \<and>
     (\<forall>family layer page. known_record family layer \<longrightarrow> page * 256 < unat base \<longrightarrow>
        page_record p family layer page new = page_record p family layer page old)"

text \<open>What an append that starts at \<open>base\<close> may have done to the file: it never writes a full page of
  committed tokens.\<close>

definition appended :: "nat \<Rightarrow> u32 \<Rightarrow> byte list \<Rightarrow> byte list \<Rightarrow> bool" where
  "appended p base old new \<longleftrightarrow> tier_sized p new \<and>
     (\<forall>family layer page. known_record family layer \<longrightarrow> (page + 1) * 256 \<le> unat base \<longrightarrow>
        page_record p family layer page new = page_record p family layer page old)"

definition restored :: "nat \<Rightarrow> kv_plan \<Rightarrow> u32 \<Rightarrow> byte list \<Rightarrow> byte list \<Rightarrow> byte list" where
  "restored p plan base old current = write_at 0 (field_at 0 4096 old)
     (if base mod PAGE_TOKENS \<noteq> 0
      then put_records p (unat (base div PAGE_TOKENS)) (plan_records plan)
        (records_of p (unat (base div PAGE_TOKENS)) (plan_records plan) old) current
      else current)"

lemma restored_same_committed:
  assumes "begins_on tier p base old" and "appended p base old current"
  shows "same_committed p base old (restored p (kt_plan tier) base old current)"
proof -
  let ?recs = "plan_records (kt_plan tier)" and ?page = "unat (base div PAGE_TOKENS)"
  have pv: "plan_values (kt_plan tier) p" and so: "tier_sized p old" and sc: "tier_sized p current"
    and le: "base \<le> pl_max_context (kt_plan tier)"
    using assms by (simp_all add: begins_on_def appended_def)
  note rk = plan_records_known [OF pv]
  have known: "list_all (\<lambda>(family, layer). known_record family layer) ?recs"
    using rk(1) by (auto simp: list_all_iff)
  have d: "?page = unat base div 256" "unat (base mod PAGE_TOKENS) = unat base mod 256"
    by (simp_all add: PAGE_TOKENS_def unat_div_distrib unat_mod_distrib)
  have partial: "base mod PAGE_TOKENS \<noteq> 0 \<longleftrightarrow> unat base mod 256 \<noteq> 0"
    by (metis d(2) unsigned_0 word_unat_eq_iff)
  have base_le: "unat base \<le> 256 * p"
    using pv le page_count_bounds(2) [of "pl_max_context (kt_plan tier)"] by (simp add: plan_values_def word_le_nat_alt)
  define mid where "mid = (if base mod PAGE_TOKENS \<noteq> 0
      then put_records p ?page ?recs (records_of p ?page ?recs old) current else current)"
  have mid: "tier_sized p mid \<and> (\<forall>family layer page. known_record family layer \<longrightarrow> page * 256 < unat base \<longrightarrow>
      page_record p family layer page mid = page_record p family layer page old)"
  proof (cases "base mod PAGE_TOKENS \<noteq> 0")
    case True
    have less: "?page < p" by (rule tail_page_less [OF pv le True])
    have pt: "puttable p ?recs (records_of p ?page ?recs old)"
      using length_records_of [OF so less known] rk(2) known by (simp add: puttable_def)
    note frame = put_records_frame [OF sc less pt]
    have "page_record p family layer page mid = page_record p family layer page old"
      if k: "known_record family layer" and pg: "page * 256 < unat base" for family layer page
    proof (cases "page = ?page")
      case tail: True
      show ?thesis
        using put_records_of [OF sc so less rk(2) known, of family layer] k rk(1) True by (simp add: mid_def tail)
    next
      case False
      have full: "(page + 1) * 256 \<le> unat base"
        using full_page [OF pg] False d(1) by simp
      have "page_record p family layer page mid = page_record p family layer page current"
        using frame k False pg base_le True by (simp add: mid_def)
      also have "\<dots> = page_record p family layer page old"
        using assms(2) k full unfolding appended_def by blast
      finally show ?thesis .
    qed
    then show ?thesis
      using frame True by (simp add: mid_def)
  next
    case False
    then have "page * 256 < unat base \<Longrightarrow> (page + 1) * 256 \<le> unat base" for page
      unfolding partial by (auto simp: algebra_simps)
    then show ?thesis
      using False assms(2) by (auto simp: mid_def appended_def)
  qed
  have hl: "length (field_at 0 4096 old) = 4096" "4096 \<le> length mid"
    using so mid by (simp_all add: tier_sized_def length_field_at)
  have rec: "page_record p family layer page (write_at 0 (field_at 0 4096 old) mid) = page_record p family layer page mid"
    if "known_record family layer" "page < p" for family layer page
    unfolding page_record_def
    using record_in_file [OF that] hl mid by (intro field_write_at_other) (auto simp: tier_sized_def)
  have "page < p" if "page * 256 < unat base" for page
    using that base_le by simp
  then show ?thesis
    using mid hl rec field_write_at_same [of 0 "field_at 0 4096 old" mid]
    by (simp add: same_committed_def restored_def mid_def [symmetric] tier_sized_def length_write_at)
qed

lemma tier_journal_sel:
  assumes "begins_on tier p base old"
  shows "plan_values (lj_plan (tier_journal tier p base old)) p"
    and "plan_records (lj_plan (tier_journal tier p base old)) = plan_records (kt_plan tier)"
    and "pl_file_bytes (lj_plan (tier_journal tier p base old)) = pl_file_bytes (kt_plan tier)"
    and "jh_record_count (lj_header (tier_journal tier p base old)) = (if base mod PAGE_TOKENS \<noteq> 0 then 21 else 0)"
    and "jh_logical_page (lj_header (tier_journal tier p base old)) = base div PAGE_TOKENS"
    and "jh_base_committed_tokens (lj_header (tier_journal tier p base old)) = base"
    and "header_image (lj_old_tier_header (tier_journal tier p base old)) = field_at 0 4096 old"
    and "dh_generation (lj_old_tier_header (tier_journal tier p base old)) = kt_generation tier"
    and "dh_committed_tokens (lj_old_tier_header (tier_journal tier p base old)) = ucast base"
    and "drop 4096 (lj_payload (tier_journal tier p base old)) =
      (if base mod PAGE_TOKENS \<noteq> 0
       then records_of p (unat (base div PAGE_TOKENS)) (plan_records (kt_plan tier)) old else [])"
    and "valid_header h (lj_plan (tier_journal tier p base old)) = valid_header h (kt_plan tier)"
proof -
  have pv: "plan_values (kt_plan tier) p"
    using assms by (simp add: begins_on_def)
  obtain plan where plan: "plan_get (pl_max_context (kt_plan tier)) 0 (Some kAbi) = Inr plan" "plan_values plan p"
    "pl_max_context plan = pl_max_context (kt_plan tier)"
    using journal_plan [OF pv] by blast
  have lp: "lj_plan (tier_journal tier p base old) = plan"
    by (simp add: tier_journal_def plan(1) Let_def)
  note cong = plan_values_cong [OF plan(2) pv plan(3)]
  show "plan_values (lj_plan (tier_journal tier p base old)) p"
    "plan_records (lj_plan (tier_journal tier p base old)) = plan_records (kt_plan tier)"
    "pl_file_bytes (lj_plan (tier_journal tier p base old)) = pl_file_bytes (kt_plan tier)"
    "valid_header h (lj_plan (tier_journal tier p base old)) = valid_header h (kt_plan tier)"
    using plan(2) cong by (simp_all add: lp)
  show "header_image (lj_old_tier_header (tier_journal tier p base old)) = field_at 0 4096 old"
    using assms by (simp add: tier_journal_def Let_def header_image_of begins_on_def tier_sized_def length_field_at)
  show "dh_generation (lj_old_tier_header (tier_journal tier p base old)) = kt_generation tier"
    "dh_committed_tokens (lj_old_tier_header (tier_journal tier p base old)) = ucast base"
    using assms by (simp_all add: tier_journal_def Let_def begins_on_def)
qed (simp_all add: tier_journal_def Let_def begin_header_fields [OF assms] saved_payload_length(3) [OF assms])

lemma restore_records_ok:
  assumes "begins_on tier p base old" and "restore_records fd (tier_journal tier p base old) w = (AXIOM_OK, w')"
    and "w_files w fd = Some f"
  shows "quiet (set_bytes fd (if base mod PAGE_TOKENS \<noteq> 0
      then put_records p (unat (base div PAGE_TOKENS)) (plan_records (kt_plan tier))
        (records_of p (unat (base div PAGE_TOKENS)) (plan_records (kt_plan tier)) old) (file_bytes w fd)
      else file_bytes w fd) w) w'"
proof (cases "base mod PAGE_TOKENS \<noteq> 0")
  case True
  note j = tier_journal_sel [OF assms(1)]
  obtain w1 w2 where s: "sys_ok w = (True, w1)"
    "write_records (lj_plan (tier_journal tier p base old)) fd (base div PAGE_TOKENS) (plan_records (kt_plan tier))
      (records_of p (unat (base div PAGE_TOKENS)) (plan_records (kt_plan tier)) old) w1 = (Inr [], w2)"
    "sys_ok w2 = (True, w')"
    using assms(2) True by (auto simp: restore_records_def j split: prod.splits bool.splits sum.splits if_splits)
  note q1 = sys_ok_quiet [OF s(1)] and q3 = sys_ok_quiet [OF s(3)]
  have f1: "w_files w1 fd = Some f"
    using assms(3) quiet_files(1) [OF q1] by simp
  note wr = write_records_ok [OF j(1) s(2) f1]
  show ?thesis
    using quiet_trans [OF quiet_trans [OF quiet_set_bytes [OF q1] wr [THEN conjunct1]] q3] True
    by (simp add: quiet_file_bytes [OF q1])
next
  case False
  then show ?thesis
    using assms(2) by (simp add: restore_records_def tier_journal_sel [OF assms(1)] set_bytes_same)
qed

lemma restore_transaction_ok:
  assumes "begins_on tier p base old" and "restore_transaction_fd fd (tier_journal tier p base old) w = (AXIOM_OK, w')"
  shows "quiet (set_bytes fd (restored p (kt_plan tier) base old (file_bytes w fd)) w) w'"
    and "tier_sized p (file_bytes w fd)" and "\<exists>f. w_files w fd = Some f"
proof -
  let ?j = "tier_journal tier p base old"
  note j = tier_journal_sel [OF assms(1)]
  obtain w1 w2 w3 w4 where s: "regular_private_file fd (unat (pl_file_bytes (lj_plan ?j))) w = (True, w1)"
    "restore_records fd ?j w1 = (AXIOM_OK, w2)" "sys_ok w2 = (True, w3)"
    "exact_pwrite fd (header_image (lj_old_tier_header ?j)) 0 w3 = (AXIOM_OK, w4)" "sys_ok w4 = (True, w')"
    using assms(2) by (auto simp: restore_transaction_fd_def split: prod.splits bool.splits if_splits)
  note q1 = regular_private_file_quiet [OF s(1)] and q3 = sys_ok_quiet [OF s(3)] and q5 = sys_ok_quiet [OF s(5)]
  obtain f where f: "w_files w fd = Some f" and len: "length (file_bytes w fd) = unat (pl_file_bytes (lj_plan ?j))"
    using regular_private_file_true [OF s(1)] by auto
  show "\<exists>f. w_files w fd = Some f" using f by blast
  show "tier_sized p (file_bytes w fd)"
    using len j(1) by (simp add: tier_sized_def plan_values_def)
  define mid where "mid = (if base mod PAGE_TOKENS \<noteq> 0
      then put_records p (unat (base div PAGE_TOKENS)) (plan_records (kt_plan tier))
        (records_of p (unat (base div PAGE_TOKENS)) (plan_records (kt_plan tier)) old) (file_bytes w fd)
      else file_bytes w fd)"
  have f1: "w_files w1 fd = Some f"
    using f quiet_files(1) [OF q1] by simp
  have "quiet (set_bytes fd mid w1) w2"
    using restore_records_ok [OF assms(1) s(2) f1] by (simp add: mid_def quiet_file_bytes [OF q1] split: if_splits)
  then have q2: "quiet (set_bytes fd mid w) w3"
    using quiet_trans [OF quiet_trans [OF quiet_set_bytes [OF q1]] q3] by blast
  have f3: "w_files w3 fd = Some (f\<lparr>df_bytes := mid\<rparr>)"
    using quiet_files(1) [OF q2] f by (simp add: w_files_set_bytes)
  have "quiet (set_bytes fd (write_at 0 (field_at 0 4096 old) mid) w3) w4"
    using exact_pwrite_ok [OF f3 s(4)] f3 j(7) by (simp add: file_bytes_def)
  then have "quiet (set_bytes fd (write_at 0 (field_at 0 4096 old) mid) w) w'"
    using quiet_trans [OF quiet_trans [OF quiet_set_bytes [OF q2, of fd]] q5] by simp
  then show "quiet (set_bytes fd (restored p (kt_plan tier) base old (file_bytes w fd)) w) w'"
    by (simp add: restored_def mid_def [symmetric])
qed

lemma discard_ok:
  "discard_transaction_path path w = (AXIOM_OK, w') \<Longrightarrow> quiet (w\<lparr>w_names := (w_names w)(path := None)\<rparr>) w'"
  by (auto simp: discard_transaction_path_def dest!: sys_unlink_true parent_directory_sync_quiet
      split: prod.splits bool.splits if_splits intro: quiet_trans)

end
