(* ===== verification/KvFaultFree.thy ===== *)
theory KvFaultFree
  imports KvRecover
begin

text \<open>
  Runs in which every system call ends as asked: begin publishes the journal, recovery and rollback
  succeed. These are the counterparts of the facts about arbitrary answers: the calls do return.
\<close>

lemma set_bytes_file: "w_files w fd = Some f \<Longrightarrow> w_files (set_bytes fd bs w) fd = Some (f\<lparr>df_bytes := bs\<rparr>)"
  by (simp add: w_files_set_bytes)

lemma write_records_empty:
  assumes "plan_values plan p" and "unat page < p"
  shows "w_answers w = [] \<Longrightarrow> w_files w fd = Some f \<Longrightarrow> puttable p recs payload \<Longrightarrow>
    write_records plan fd page recs payload w =
      (Inr (drop (524288 * length recs) payload), set_bytes fd (put_records p (unat page) recs payload (file_bytes w fd)) w)"
proof (induction recs arbitrary: payload w f)
  case (Cons rec recs)
  obtain family layer where rec: "rec = (family, layer)" by fastforce
  note c = puttable_Cons [OF Cons.prems(3) [unfolded rec]]
  have o: "page_offset_for_plan plan family layer page = Inr (of_nat (record_offset p family layer (unat page)))"
    using page_offset_value [OF assms(1)] c assms(2) by simp
  note off = page_offset_inr(3) [OF assms(1) o]
  have b: "unat (family_page_bytes family) = 524288"
    using family_page_bytes_known [of family layer] c by simp
  let ?file = "write_at (record_offset p family layer (unat page)) (take 524288 payload) (file_bytes w fd)"
  have "write_records plan fd page recs (drop 524288 payload) (set_bytes fd ?file w) =
      (Inr (drop (524288 * length recs) (drop 524288 payload)),
       set_bytes fd (put_records p (unat page) recs (drop 524288 payload) ?file) w)"
    using Cons.IH [OF _ set_bytes_file [OF Cons.prems(2)], of ?file "drop 524288 payload"] Cons.prems(1) c
      file_bytes_set_bytes [OF Cons.prems(2)] by simp
  moreover have "\<not> length payload < 524288"
    using c by auto
  ultimately show ?case
    using o off b exact_pwrite_empty [OF Cons.prems(1)]
    by (simp add: rec Let_def add.commute)
qed (simp add: set_bytes_same)

definition private_file :: "world \<Rightarrow> nat \<Rightarrow> bool" where
  "private_file w fd \<longleftrightarrow> (\<exists>f. w_files w fd = Some f \<and> df_regular f \<and> df_nlink f = 1 \<and> df_owned f)"

lemma regular_private_file_empty:
  "w_answers w = [] \<Longrightarrow> private_file w fd \<Longrightarrow> length (file_bytes w fd) = n \<Longrightarrow>
     regular_private_file fd n w = (True, w)"
  by (auto simp: regular_private_file_def sys_ok_empty private_file_def file_bytes_def)

lemma restore_transaction_empty:
  assumes "begins_on tier p base old" and "w_answers w = []" and "private_file w fd"
    and "tier_sized p (file_bytes w fd)"
  shows "restore_transaction_fd fd (tier_journal tier p base old) w =
    (AXIOM_OK, set_bytes fd (restored p (kt_plan tier) base old (file_bytes w fd)) w)"
proof -
  let ?j = "tier_journal tier p base old" and ?recs = "plan_records (kt_plan tier)"
  let ?page = "unat (base div PAGE_TOKENS)"
  note j = tier_journal_sel [OF assms(1)]
  have pv: "plan_values (kt_plan tier) p" "base \<le> pl_max_context (kt_plan tier)" "tier_sized p old"
    using assms(1) by (simp_all add: begins_on_def)
  obtain f where f: "w_files w fd = Some f"
    using assms(3) by (auto simp: private_file_def)
  define mid where "mid = (if base mod PAGE_TOKENS \<noteq> 0
      then put_records p ?page ?recs (records_of p ?page ?recs old) (file_bytes w fd) else file_bytes w fd)"
  have recs: "restore_records fd ?j w = (AXIOM_OK, set_bytes fd mid w)"
  proof (cases "base mod PAGE_TOKENS \<noteq> 0")
    case True
    note less = tail_page_less [OF pv(1,2) True]
    have known: "list_all (\<lambda>(family, layer). known_record family layer) ?recs"
      using plan_records_known(1) [OF pv(1)] by (auto simp: list_all_iff)
    have len: "length (records_of p ?page ?recs old) = 524288 * length ?recs"
      using length_records_of [OF pv(3) less known] .
    then have "puttable p ?recs (records_of p ?page ?recs old)"
      using plan_records_known(2) [OF pv(1)] known by (simp add: puttable_def)
    then show ?thesis
      using write_records_empty [OF j(1) less assms(2) f] True len
      by (simp add: restore_records_def j sys_ok_empty assms(2) mid_def)
  next
    case False
    then show ?thesis
      by (simp add: restore_records_def j mid_def set_bytes_same)
  qed
  have "length (file_bytes w fd) = unat (pl_file_bytes (lj_plan ?j))"
    using assms(4) j(1) by (simp add: tier_sized_def plan_values_def)
  then show ?thesis
    using recs regular_private_file_empty [OF assms(2,3)] exact_pwrite_empty [of "set_bytes fd mid w" fd "field_at 0 4096 old" 0]
      file_bytes_set_bytes [OF f, of mid]
    by (simp add: restore_transaction_fd_def sys_ok_empty assms(2) j(7) restored_def mid_def [symmetric])
qed

lemma discard_empty:
  "w_answers w = [] \<Longrightarrow> path \<noteq> [] \<Longrightarrow>
     discard_transaction_path path w = (AXIOM_OK, w\<lparr>w_names := (w_names w)(path := None)\<rparr>)"
  by (simp add: discard_transaction_path_def sys_unlink_def take_answer_empty parent_directory_sync_def sys_ok_empty)

lemma read_header_empty:
  "w_answers w = [] \<Longrightarrow> 4096 \<le> length (file_bytes w fd) \<Longrightarrow>
     read_header fd w = (Inr (header_of (field_at 0 4096 (file_bytes w fd))), w)"
  by (simp add: read_header_def sys_ok_empty exact_pread_empty)

section \<open>Recovery\<close>

lemma recover_restores_empty:
  assumes "begins_on tier p base old" and "jp \<noteq> []" and "tp \<noteq> []" and "w_answers w = []"
    and "w_names w jp = Some jfd" and "w_files w jfd = Some (empty_file\<lparr>df_bytes := journal_content tier p base old\<rparr>)"
    and "w_names w tp = Some fd" and "private_file w fd" and "tier_sized p (file_bytes w fd)"
  shows "transaction_recover_file tp jp base w =
    (AXIOM_OK, (set_bytes fd (restored p (kt_plan tier) base old (file_bytes w fd)) w)
       \<lparr>w_names := (w_names w)(jp := None)\<rparr>)"
proof -
  note load = load_tier_journal(2) [OF assms(1,2,5,6,4)] and j = tier_journal_sel [OF assms(1)]
  have len: "length (file_bytes w fd) = unat (pl_file_bytes (kt_plan tier))" "4096 \<le> length (file_bytes w fd)"
    using assms(1,9) by (simp_all add: tier_sized_def plan_values_def begins_on_def)
  have "recover_decision fd (tier_journal tier p base old) base w =
      (AXIOM_OK, set_bytes fd (restored p (kt_plan tier) base old (file_bytes w fd)) w)"
    using restore_transaction_empty [OF assms(1,4,8,9)] read_header_empty [OF assms(4) len(2)]
    by (simp add: recover_decision_def j(6))
  then show ?thesis
    using load assms regular_private_file_empty [OF assms(4,8) len(1)]
    by (simp add: transaction_recover_file_def sys_open_def take_answer_empty j(3) sys_ok_empty discard_empty)
qed

section \<open>Beginning\<close>

lemma publish_journal_empty:
  assumes "w_answers w = []" and "wf_journal header"
  shows "publish_journal path header payload w =
    (AXIOM_OK, with_journal path (journal_image header @ payload) w)"
proof -
  let ?t = "path @ ''.tmp''" and ?fd = "w_next w" and ?h = "journal_image header"
  let ?w1 = "w\<lparr>w_names := (w_names w)(?t := Some ?fd), w_files := (w_files w)(?fd := Some empty_file), w_next := ?fd + 1\<rparr>"
  have len: "length ?h = 4096" by (rule length_journal_image [OF assms(2)])
  have ne: "?h \<noteq> []" using len by auto
  have f1: "w_files ?w1 ?fd = Some empty_file" "w_answers ?w1 = []" "file_bytes ?w1 ?fd = []"
    using assms(1) by (simp_all add: file_bytes_def empty_file_def)
  have "write_at 0 ?h [] = ?h" "write_at 4096 payload ?h = ?h @ payload"
    using len by (simp_all add: write_at_def)
  then have "write_journal_file ?fd header payload ?w1 = (AXIOM_OK, set_bytes ?fd (?h @ payload) ?w1)"
    using exact_pwrite_empty [OF f1(2), of ?fd ?h 0] f1(2,3) file_bytes_set_bytes [OF f1(1), of ?h]
      exact_pwrite_empty [of "set_bytes ?fd ?h ?w1" ?fd payload 4096]
    by (simp add: write_journal_file_def Let_def sys_ok_empty)
  moreover have "set_bytes ?fd (?h @ payload) ?w1 =
      ?w1\<lparr>w_files := (w_files w)(?fd := Some (empty_file\<lparr>df_bytes := ?h @ payload\<rparr>))\<rparr>"
    by (simp add: set_bytes_def)
  ultimately show ?thesis
    using assms(1)
    by (simp add: publish_journal_def sys_unlink_def take_answer_empty sys_open_creat_def new_file_def Let_def
        sys_rename_def parent_directory_sync_def sys_ok_empty with_journal_def fun_upd_twist)
qed

lemma transaction_begin_empty:
  assumes "begins_on tier p base (file_bytes w (kt_fd tier))" and "w_answers w = []" and "jp \<noteq> []"
    and "w_names w jp = None" and "kt_outstanding tier = 0" and "kt_committed_tokens tier = base"
  shows "transaction_begin tier jp base w =
    (AXIOM_OK, with_journal jp (journal_content tier p base (file_bytes w (kt_fd tier))) w)"
proof -
  let ?file = "file_bytes w (kt_fd tier)" and ?partial = "base mod PAGE_TOKENS \<noteq> 0"
  let ?h = "header_of (field_at 0 4096 ?file)"
  note b = assms(1) [unfolded begins_on_def]
  have pv: "plan_values (kt_plan tier) p" and sz: "tier_sized p ?file" using b by simp_all
  have l: "pl_target_layers (kt_plan tier) = 16" "pl_dspark_layers (kt_plan tier) = 5"
    "pl_target_page_bytes (kt_plan tier) = 524288" "pl_dspark_page_bytes (kt_plan tier) = 524288"
    using pv by (simp_all add: plan_values_def kv_constants)
  have len: "length (field_at 0 4096 ?file) = 4096" "4096 \<le> length ?file"
    using sz by (simp_all add: tier_sized_def length_field_at)
  have recs: "?partial \<Longrightarrow> read_records (kt_plan tier) (kt_fd tier) (base div PAGE_TOKENS) (plan_records (kt_plan tier)) w =
      (Inr (records_of p (unat (base div PAGE_TOKENS)) (plan_records (kt_plan tier)) ?file), w)"
    using read_records_empty [OF pv assms(2) sz tail_page_less [OF pv]] b plan_records_known(1) [OF pv]
    by (auto simp: list_all_iff)
  note sl = saved_payload_length(1) [OF assms(1)]
  have pay: "saved_payload p (kt_plan tier) base ?file = header_image ?h @ (if ?partial
      then records_of p (unat (base div PAGE_TOKENS)) (plan_records (kt_plan tier)) ?file else [])"
    using len(1) by (simp add: saved_payload_def header_image_of)
  have "collect_payload tier ?h ?partial base w = (Inr (saved_payload p (kt_plan tier) base ?file), w)"
  proof (cases ?partial)
    case True
    then show ?thesis
      using recs sl unfolding pay
      by (simp add: collect_payload_def journal_payload_bytes_def l checked_add_nat sys_ok_empty assms(2) Let_def
          del: mod_eq_0_iff_dvd)
  next
    case False
    then show ?thesis
      using sl unfolding pay
      by (simp add: collect_payload_def journal_payload_bytes_def sys_ok_empty assms(2) Let_def)
  qed
  then show ?thesis
    using b assms publish_journal_empty [OF assms(2) wf_make_journal_header] read_header_empty [OF assms(2) len(2)]
    by (simp add: transaction_begin_def sys_open_def take_answer_empty Let_def journal_content_def begin_header_def not_less)
qed

end
