(* ===== verification/KvTierInv.thy ===== *)
theory KvTierInv
  imports KvFaultFree
begin

text \<open>
  The invariant of an open tier, kept by every call on it whatever the kernel and the system calls
  answer, and the steps of a tier as a relation.
\<close>

section \<open>The invariant\<close>

definition active_slots :: "pending_slot list \<Rightarrow> nat" where
  "active_slots slots = length (filter ps_active slots)"

definition uses_ring :: "kv_tier \<Rightarrow> bool" where
  "uses_ring t \<longleftrightarrow> kt_backend t = BACKEND_IO_URING_DIRECT \<and> kt_ring t \<noteq> None"

definition tier_inv :: "kv_tier \<Rightarrow> bool" where
  "tier_inv t \<longleftrightarrow> wf_plan (kt_plan t) \<and> kt_queue_depth t \<noteq> 0 \<and> kt_queue_depth t \<le> kMaximumQueueDepth \<and>
     length (kt_slots t) = unat (kt_queue_depth t) \<and>
     unat (kt_committed_tokens t) \<le> 256 * unat (pl_logical_pages (kt_plan t)) \<and>
     kt_outstanding t \<le> kt_queue_depth t \<and>
     (uses_ring t \<longrightarrow> unat (kt_outstanding t) = active_slots (kt_slots t) \<and> kt_sync_completions t = []) \<and>
     (\<not> uses_ring t \<longrightarrow> unat (kt_outstanding t) = length (kt_sync_completions t) \<and> active_slots (kt_slots t) = 0)"

lemma uses_ring_update [simp]:
  "uses_ring (t\<lparr>kt_generation := g\<rparr>) = uses_ring t" "uses_ring (t\<lparr>kt_committed_tokens := c\<rparr>) = uses_ring t"
  "uses_ring (t\<lparr>kt_outstanding := o1\<rparr>) = uses_ring t" "uses_ring (t\<lparr>kt_slots := s\<rparr>) = uses_ring t"
  "uses_ring (t\<lparr>kt_sync_completions := cs\<rparr>) = uses_ring t" "uses_ring (t\<lparr>kt_submitted_reads := r\<rparr>) = uses_ring t"
  "uses_ring (t\<lparr>kt_submitted_writes := r\<rparr>) = uses_ring t" "uses_ring (t\<lparr>kt_completed_bytes := r\<rparr>) = uses_ring t"
  "uses_ring (t\<lparr>kt_io_errors := r\<rparr>) = uses_ring t"
  by (simp_all add: uses_ring_def)

lemma active_slots_update:
  assumes "i < length slots"
  shows "active_slots (slots[i := s]) + of_bool (ps_active (slots ! i)) = active_slots slots + of_bool (ps_active s)"
  using assms
proof (induction slots arbitrary: i)
  case (Cons a slots)
  then show ?case
    by (cases i) (auto simp: active_slots_def)
qed simp

lemma first_free_spec:
  "first_free slots \<le> length slots" "first_free slots < length slots \<Longrightarrow> \<not> ps_active (slots ! first_free slots)"
  by (induction slots) auto

lemma outstanding_suc:
  assumes "kt_outstanding t \<le> kt_queue_depth t" "\<not> kt_outstanding t \<ge> kt_queue_depth t" and "kt_queue_depth t \<le> kMaximumQueueDepth"
  shows "unat (kt_outstanding t + 1) = unat (kt_outstanding t) + 1" and "kt_outstanding t + 1 \<le> kt_queue_depth t"
proof -
  have "unat (kt_outstanding t) < unat (kt_queue_depth t)" "unat (kt_queue_depth t) \<le> 1024"
    using assms by (simp_all add: word_le_nat_alt kMaximumQueueDepth_def)
  then show "unat (kt_outstanding t + 1) = unat (kt_outstanding t) + 1" "kt_outstanding t + 1 \<le> kt_queue_depth t"
    by (simp_all add: unat_word_ariths word_le_nat_alt)
qed

section \<open>Opening\<close>

lemma create_arguments_ok:
  assumes "create_arguments config = Inr (depth, plan)"
  shows "wf_plan plan" and "depth \<noteq> 0" and "depth \<le> kMaximumQueueDepth" and "\<exists>c. config = Some c"
  using assms
  by (auto simp: create_arguments_def wf_plan_def Let_def not_less split: option.splits if_splits sum.splits)

lemma tier_inv_new:
  "wf_plan plan \<Longrightarrow> depth \<noteq> 0 \<Longrightarrow> depth \<le> kMaximumQueueDepth \<Longrightarrow> tier_inv (new_tier fd flags plan depth)"
  by (simp add: tier_inv_def new_tier_def active_slots_def free_slot_def uses_ring_def)

lemma tier_inv_generation [simp]: "tier_inv (t\<lparr>kt_generation := g\<rparr>) = tier_inv t"
  by (simp add: tier_inv_def)

lemma context_in_pages:
  assumes "wf_plan plan" and "c \<le> pl_max_context plan"
  shows "unat c \<le> 256 * unat (pl_logical_pages plan)"
  using page_count_bounds(2) [of "pl_max_context plan"] wf_plan_values [OF assms(1)] assms(2)
  by (simp add: plan_values_def word_le_nat_alt)

lemma tier_inv_committed: "tier_inv t \<Longrightarrow> c \<le> pl_max_context (kt_plan t) \<Longrightarrow> tier_inv (t\<lparr>kt_committed_tokens := c\<rparr>)"
  using context_in_pages by (simp add: tier_inv_def)

lemma tier_inv_mark:
  "tier_inv t \<Longrightarrow> c \<le> pl_max_context (kt_plan t) \<Longrightarrow> tier_inv (t\<lparr>kt_generation := g, kt_committed_tokens := c\<rparr>)"
  using tier_inv_committed [of "t\<lparr>kt_generation := g\<rparr>" c] by simp

lemma valid_header_committed:
  assumes "valid_header h plan"
  shows "(ucast (dh_committed_tokens h) :: u32) \<le> pl_max_context plan"
    and "unat (ucast (dh_committed_tokens h) :: u32) = unat (dh_committed_tokens h)"
proof -
  have "unat (dh_committed_tokens h) \<le> unat (pl_max_context plan)"
    using assms by (simp add: valid_header_def word_less_nat_alt not_less)
  moreover from this have "unat (dh_committed_tokens h) < 2 ^ 32"
    using unat_u32_less [of "pl_max_context plan"] by linarith
  ultimately show "(ucast (dh_committed_tokens h) :: u32) \<le> pl_max_context plan"
    "unat (ucast (dh_committed_tokens h) :: u32) = unat (dh_committed_tokens h)"
    by (simp_all add: word_le_nat_alt unat_ucast_u32)
qed

lemma open_inv:
  assumes "tier_inv t" and "open_file t w = (AXIOM_OK, t', w')"
  shows "tier_inv t'" and "kt_backend t' = kt_backend t" and "kt_ring t' = kt_ring t"
    and "kt_outstanding t' = kt_outstanding t" and "kt_slots t' = kt_slots t"
    and "kt_sync_completions t' = kt_sync_completions t"
proof -
  have "tier_inv t' \<and> kt_backend t' = kt_backend t \<and> kt_ring t' = kt_ring t \<and>
      kt_outstanding t' = kt_outstanding t \<and> kt_slots t' = kt_slots t \<and> kt_sync_completions t' = kt_sync_completions t"
    using assms valid_header_committed(1) tier_inv_mark [of t]
    by (auto simp: open_file_def open_new_def open_existing_def Let_def split: prod.splits sum.splits if_splits)
  then show "tier_inv t'" "kt_backend t' = kt_backend t" "kt_ring t' = kt_ring t"
    "kt_outstanding t' = kt_outstanding t" "kt_slots t' = kt_slots t" "kt_sync_completions t' = kt_sync_completions t"
    by blast+
qed

lemma attach_ring_inv:
  assumes "tier_inv t" and "attach_ring kn t w = (AXIOM_OK, t', w')" and "kt_backend t = BACKEND_SYNC_DIRECT"
    and "kt_outstanding t = 0"
  shows "tier_inv t'"
  using assms
  by (auto simp: attach_ring_def tier_inv_def uses_ring_def split: prod.splits sum.splits if_splits)

lemma kv_create_inv:
  assumes "kv_create kn config w = (Inr t, w')"
  shows "tier_inv t"
proof -
  obtain depth plan where a: "create_arguments config = Inr (depth, plan)"
    using assms by (auto simp: kv_create_def split: sum.splits)
  obtain fd w1 t1 w2 where s:
    "open_file (new_tier fd (kc_flags (the config)) plan depth) w1 = (AXIOM_OK, t1, w2)"
    "attach_ring kn t1 w2 = (AXIOM_OK, t, w')"
    using assms a by (auto simp: kv_create_def split: prod.splits option.splits bool.splits if_splits)
  let ?n = "new_tier fd (kc_flags (the config)) plan depth"
  have n: "tier_inv ?n"
    using create_arguments_ok [OF a] by (simp add: tier_inv_new)
  have sel: "kt_fd ?n = fd" "kt_backend ?n = BACKEND_SYNC_DIRECT" "kt_outstanding ?n = 0"
    by (simp_all add: new_tier_def)
  note o = open_inv [OF n s(1)]
  show ?thesis
    using attach_ring_inv [OF o(1) s(2)] o sel by simp
qed

section \<open>Submitting\<close>

lemma submit_ring_inv:
  assumes "tier_inv t" and "kt_backend t = BACKEND_IO_URING_DIRECT" and "kt_ring t = Some ring0"
    and "\<not> kt_outstanding t \<ge> kt_queue_depth t"
  shows "tier_inv (snd (submit_ring kn ring r expected offset t))"
proof -
  let ?i = "first_free (kt_slots t)"
  obtain submitted ring' where k: "kn_submit kn (ring_push (request_sqe (kt_fd t) r expected offset ?i) ring) = (submitted, ring')"
    by fastforce
  have u: "uses_ring t"
    using assms(2,3) by (simp add: uses_ring_def)
  note inv = assms(1) [unfolded tier_inv_def]
  note suc = outstanding_suc [of t]
  have act: "active_slots ((kt_slots t)[?i := s]) = active_slots (kt_slots t) + of_bool (ps_active s)"
    if "?i < length (kt_slots t)" for s
    using active_slots_update [OF that, of s] first_free_spec(2) [OF that] by simp
  have free: "\<not> ps_active free_slot"
    by (simp add: free_slot_def)
  show ?thesis
    using inv u suc assms(2,4) act free first_free_spec(1) [of "kt_slots t"] k
    by (auto simp: submit_ring_def Let_def tier_inv_def uses_ring_def)
qed

lemma submit_sync_inv:
  assumes "tier_inv t" and "\<not> uses_ring t" and "\<not> kt_outstanding t \<ge> kt_queue_depth t"
    and "submit_sync r expected offset t w = (rc, t', w')"
  shows "tier_inv t'"
proof -
  note inv = assms(1) [unfolded tier_inv_def]
  show ?thesis
    using inv outstanding_suc [of t] assms(2-4)
    by (auto simp: submit_sync_def tier_inv_def split: prod.splits)
qed

lemma tier_inv_counters [simp]:
  "tier_inv (t\<lparr>kt_submitted_reads := n\<rparr>) = tier_inv t" "tier_inv (t\<lparr>kt_submitted_writes := n\<rparr>) = tier_inv t"
  by (simp_all add: tier_inv_def)

lemma kv_submit_inv:
  assumes "tier_inv t" and "kv_submit kn r t w = (rc, t', w')"
  shows "tier_inv t'"
proof (cases "submit_arguments t r")
  case (Inl e)
  then show ?thesis using assms by (simp add: kv_submit_def)
next
  case (Inr a)
  then obtain expected offset where a: "submit_arguments t r = Inr (expected, offset)" by (cases a) simp
  define t1 where "t1 = (if rq_operation r = OP_READ
      then t\<lparr>kt_submitted_reads := kt_submitted_reads t + 1\<rparr> else t\<lparr>kt_submitted_writes := kt_submitted_writes t + 1\<rparr>)"
  have t1: "tier_inv t1" "kt_outstanding t1 = kt_outstanding t" "kt_queue_depth t1 = kt_queue_depth t"
    using assms(1) by (simp_all add: t1_def)
  show ?thesis
  proof (cases "kt_outstanding t \<ge> kt_queue_depth t")
    case True
    then show ?thesis using assms a by (simp add: kv_submit_def)
  next
    case False
    note eq = assms(2) [unfolded kv_submit_def a, simplified, folded t1_def]
    show ?thesis
    proof (cases "uses_ring t1")
      case True
      then obtain ring where r: "kt_backend t1 = BACKEND_IO_URING_DIRECT" "kt_ring t1 = Some ring"
        by (auto simp: uses_ring_def)
      then show ?thesis
        using submit_ring_inv [OF t1(1) r, of kn ring r expected offset] False t1(2,3) eq
        by (auto simp: Let_def t1_def [symmetric] split: prod.splits)
    next
      case ring: False
      then have "kt_backend t1 = BACKEND_SYNC_DIRECT \<or> kt_ring t1 = None"
        by (cases "kt_backend t1") (auto simp: uses_ring_def)
      then have "submit_sync r expected offset t1 w = (rc, t', w')"
        using eq False by (auto simp: Let_def t1_def [symmetric] split: kv_backend.splits)
      then show ?thesis
        using submit_sync_inv [OF t1(1) ring] False t1(2,3) by simp
    qed
  qed
qed

section \<open>Waiting\<close>

lemma outstanding_pred:
  assumes "0 < unat (kt_outstanding t)" and "kt_outstanding t \<le> kt_queue_depth t"
  shows "unat (kt_outstanding t - 1) = unat (kt_outstanding t) - 1" and "kt_outstanding t - 1 \<le> kt_queue_depth t"
proof -
  have "kt_outstanding t \<noteq> 0" using assms(1) by auto
  then show "unat (kt_outstanding t - 1) = unat (kt_outstanding t) - 1"
    by (simp add: unat_minus_one)
  then show "kt_outstanding t - 1 \<le> kt_queue_depth t"
    using assms by (simp add: word_le_nat_alt)
qed

lemma reap_cqe_inv:
  assumes "tier_inv t" and "uses_ring t" and "reap_cqe cqe t = Some (c, t')"
  shows "tier_inv t'" and "uses_ring t'" and "kt_ring t' = kt_ring t" and "cp_abi_version c = kAbi"
    and "unat (kt_outstanding t') + 1 = unat (kt_outstanding t)"
proof -
  let ?i = "unat (cqe_user_data cqe - 1)"
  note inv = assms(1) [unfolded tier_inv_def]
  have u: "cqe_user_data cqe \<noteq> 0" "unat (cqe_user_data cqe) \<le> length (kt_slots t)" "ps_active (kt_slots t ! ?i)"
    using assms(3) by (auto simp: reap_cqe_def Let_def split: if_splits)
  then have i: "?i < length (kt_slots t)"
    using unat_minus_one [of "cqe_user_data cqe"] by (simp add: unat_gt_0 flip: unat_gt_0)
  have act: "active_slots ((kt_slots t)[?i := free_slot]) + 1 = active_slots (kt_slots t)"
    using active_slots_update [OF i, of free_slot] u(3) by (simp add: free_slot_def)
  then have pos: "0 < unat (kt_outstanding t)"
    using inv assms(2) by simp
  note pred = outstanding_pred [OF pos]
  have t': "kt_slots t' = (kt_slots t)[?i := free_slot]" "kt_outstanding t' = kt_outstanding t - 1"
    "kt_backend t' = kt_backend t" "kt_ring t' = kt_ring t" "kt_plan t' = kt_plan t" "kt_queue_depth t' = kt_queue_depth t"
    "kt_committed_tokens t' = kt_committed_tokens t" "kt_sync_completions t' = kt_sync_completions t" "cp_abi_version c = kAbi"
    using assms(3) by (auto simp: reap_cqe_def Let_def split: if_splits)
  then show "uses_ring t'" "kt_ring t' = kt_ring t" "cp_abi_version c = kAbi"
    using assms(2) by (simp_all add: uses_ring_def)
  then show "tier_inv t'"
    using inv act pred t' assms(2) by (auto simp: tier_inv_def)
  show "unat (kt_outstanding t') + 1 = unat (kt_outstanding t)"
    using pred pos inv t'(2) by simp
qed

lemma reap_ring_inv:
  "reap_ring ring n head t = (r, t') \<Longrightarrow> tier_inv t \<Longrightarrow> uses_ring t \<Longrightarrow>
     tier_inv t' \<and> uses_ring t' \<and> (\<forall>cs h. r = Some (cs, h) \<longrightarrow> length cs \<le> n \<and>
       unat (kt_outstanding t') + length cs = unat (kt_outstanding t))"
proof (induction ring n head t arbitrary: r t' rule: reap_ring.induct)
  case (2 ring n head t)
  show ?case
  proof (cases "head = rg_cq_tail ring")
    case False
    show ?thesis
    proof (cases "reap_cqe (rg_cqes ring (head AND rg_cq_mask ring)) t")
      case (Some p)
      then obtain c t1 where c: "reap_cqe (rg_cqes ring (head AND rg_cq_mask ring)) t = Some (c, t1)"
        by (cases p) simp
      note inv = reap_cqe_inv [OF 2(3,4) c]
      obtain r1 t2 where r1: "reap_ring ring n (head + 1) t1 = (r1, t2)" by fastforce
      have "tier_inv t2 \<and> uses_ring t2 \<and> (\<forall>cs h. r1 = Some (cs, h) \<longrightarrow> length cs \<le> n \<and>
          unat (kt_outstanding t2) + length cs = unat (kt_outstanding t1))"
        using "2.IH" [OF False c refl r1 inv(1,2)] .
      then show ?thesis
        using "2.prems"(1) False c r1 inv(5) by (auto split: option.splits prod.splits)
    qed (use "2.prems" False in auto)
  qed (use "2.prems" in auto)
qed auto

lemma reap_sync_inv:
  "reap_sync n t = (cs, t') \<Longrightarrow> tier_inv t \<Longrightarrow> \<not> uses_ring t \<Longrightarrow>
     tier_inv t' \<and> \<not> uses_ring t' \<and> length cs = min n (unat (kt_outstanding t)) \<and>
     unat (kt_outstanding t') + length cs = unat (kt_outstanding t)"
proof (induction n t arbitrary: cs t' rule: reap_sync.induct)
  case (2 n t)
  note inv = "2.prems"(2) [unfolded tier_inv_def]
  show ?case
  proof (cases "kt_sync_completions t")
    case Nil
    then show ?thesis using "2.prems" inv by auto
  next
    case (Cons ready rest)
    obtain c t1 where c: "reap_sync_one ready t = (c, t1)" by fastforce
    obtain cs1 t2 where r: "reap_sync n t1 = (cs1, t2)" by fastforce
    have pos: "0 < unat (kt_outstanding t)"
      using inv "2.prems"(3) Cons by simp
    note pred = outstanding_pred [OF pos]
    have t1: "kt_sync_completions t1 = rest" "kt_outstanding t1 = kt_outstanding t - 1" "kt_slots t1 = kt_slots t"
      "kt_backend t1 = kt_backend t" "kt_ring t1 = kt_ring t" "kt_plan t1 = kt_plan t" "kt_queue_depth t1 = kt_queue_depth t"
      "kt_committed_tokens t1 = kt_committed_tokens t"
      using c Cons by (auto simp: reap_sync_one_def)
    then have "\<not> uses_ring t1" "tier_inv t1"
      using inv pred "2.prems"(3) Cons by (auto simp: tier_inv_def uses_ring_def)
    then show ?thesis
      using "2.IH" [OF Cons c [symmetric] refl r] "2.prems"(1) Cons c r pred inv t1(2) pos by auto
  qed
qed auto

lemma kv_wait_inv:
  assumes "tier_inv t" and "kv_wait kn min_complete capacity t = (rc, cs, t')"
  shows "tier_inv t'" and "length cs \<le> unat capacity"
proof -
  have "tier_inv t' \<and> length cs \<le> unat capacity"
  proof (cases "min_complete > capacity \<or> min_complete > kt_outstanding t")
    case True
    then show ?thesis using assms by (auto simp: kv_wait_def split: if_splits)
  next
    case False
    show ?thesis
    proof (cases "uses_ring t")
      case True
      then obtain ring where r: "kt_backend t = BACKEND_IO_URING_DIRECT" "kt_ring t = Some ring"
        by (auto simp: uses_ring_def)
      obtain entered eintr ring' where e: "(if min_complete \<noteq> 0 then kn_wait kn min_complete ring else ((0, False), kn_poll kn ring)) =
          ((entered, eintr), ring')"
        by (metis prod.exhaust)
      let ?t = "t\<lparr>kt_ring := Some ring'\<rparr>"
      have t: "tier_inv ?t" "uses_ring ?t"
        using assms(1) True by (simp_all add: tier_inv_def uses_ring_def)
      obtain res t1 where rr: "reap_ring ring' (unat capacity) (rg_cq_head ring') ?t = (res, t1)" by fastforce
      note inv = reap_ring_inv [OF rr t]
      have upd: "tier_inv (t1\<lparr>kt_ring := Some x\<rparr>)" for x
        using inv by (simp add: tier_inv_def uses_ring_def)
      show ?thesis
        using assms(2) False r e rr inv upd t
        by (auto simp: kv_wait_def Let_def split: option.splits if_splits)
    next
      case ring: False
      then have b: "kt_backend t = BACKEND_SYNC_DIRECT \<or> kt_ring t = None"
        by (cases "kt_backend t") (auto simp: uses_ring_def)
      obtain cs1 t1 where rr: "reap_sync (unat capacity) t = (cs1, t1)" by fastforce
      have "(if length cs1 < unat min_complete then (AXIOM_ERR_IO, [], t1) else (AXIOM_OK, cs1, t1)) = (rc, cs, t')"
        using assms(2) False b rr by (auto simp: kv_wait_def Let_def split: kv_backend.splits)
      then show ?thesis
        using reap_sync_inv [OF rr assms(1) ring] by (auto split: if_splits)
    qed
  qed
  then show "tier_inv t'" "length cs \<le> unat capacity" by simp_all
qed

section \<open>The watermark\<close>

lemma kv_commit_inv:
  assumes "tier_inv t" and "kv_commit c t w = (rc, t', w')"
  shows "tier_inv t'"
  using assms tier_inv_committed [of t]
  by (auto simp: kv_commit_def Let_def not_less split: if_splits prod.splits)

lemma kv_reset_inv:
  assumes "tier_inv t" and "kv_reset t w = (rc, t', w')"
  shows "tier_inv t'"
  using assms tier_inv_committed [of t 0]
  by (auto simp: kv_reset_def Let_def tier_inv_def split: if_splits prod.splits)

section \<open>Rolling back\<close>

lemma wf_plan_get: "plan_get max_context hot_pages (Some kAbi) = Inr plan \<Longrightarrow> wf_plan plan"
  unfolding wf_plan_def by blast

text \<open>Every journal that loads carries a header that is valid for the plan computed from it.\<close>

lemma load_journal_valid:
  assumes "load_transaction_journal jp w = (Inr (Some j), w')"
  shows "wf_plan (lj_plan j)" and "valid_header (lj_old_tier_header j) (lj_plan j)"
    and "dh_committed_tokens (lj_old_tier_header j) = ucast (jh_base_committed_tokens (lj_header j))"
proof -
  obtain header payload where "accept_journal header payload = Inr (Some j)"
    using assms
    by (auto simp: load_transaction_journal_def Let_def split: if_splits prod.splits sum.splits bool.splits option.splits)
  then show "wf_plan (lj_plan j)" "valid_header (lj_old_tier_header j) (lj_plan j)"
    "dh_committed_tokens (lj_old_tier_header j) = ucast (jh_base_committed_tokens (lj_header j))"
    by (auto simp: accept_journal_def Let_def split: if_splits sum.splits intro: wf_plan_get)
qed

lemma ucast_u32_u64: "(ucast (ucast c :: u64) :: u32) = c" for c :: u32
  by (intro bit_word_eqI) (simp add: bit_ucast_iff)

text \<open>A rollback on \<open>t\<close> that restores the journal \<open>j\<close> and gives \<open>t'\<close>.\<close>

definition rolled_back :: "kv_tier \<Rightarrow> loaded_journal \<Rightarrow> kv_tier \<Rightarrow> bool" where
  "rolled_back t j t' \<longleftrightarrow> (\<exists>jp w w1 w2 w3 rc. load_transaction_journal jp w = (Inr (Some j), w1) \<and>
     restore_transaction_fd (kt_fd t) j w1 = (AXIOM_OK, w2) \<and> transaction_rollback t jp w = (rc, t', w3))"

lemma rollback_cases:
  assumes "transaction_rollback t jp w = (rc, t', w')"
  shows "t' = t \<or> (\<exists>j. rolled_back t j t')"
proof (cases "\<exists>j w1 w2. load_transaction_journal jp w = (Inr (Some j), w1) \<and> restore_transaction_fd (kt_fd t) j w1 = (AXIOM_OK, w2)")
  case True
  then show ?thesis unfolding rolled_back_def using assms by blast
next
  case False
  then show ?thesis
    using assms by (auto simp: transaction_rollback_def Let_def split: if_splits prod.splits sum.splits option.splits)
qed

lemma rolled_back_effect:
  assumes "rolled_back t j t'"
  shows "t' = t \<or> kt_outstanding t = 0 \<and> t' = t\<lparr>kt_committed_tokens := jh_base_committed_tokens (lj_header j)\<rparr> \<and>
      kt_generation t = dh_generation (lj_old_tier_header j) \<and> pl_file_bytes (kt_plan t) = pl_file_bytes (lj_plan j)"
    and "jh_base_committed_tokens (lj_header j) \<le> dh_max_context (lj_old_tier_header j)"
    and "unat (jh_base_committed_tokens (lj_header j)) \<le> 256 * unat (pl_logical_pages (lj_plan j))"
    and "wf_plan (lj_plan j)"
proof -
  obtain jp w w1 w2 w3 rc where s: "load_transaction_journal jp w = (Inr (Some j), w1)"
    "restore_transaction_fd (kt_fd t) j w1 = (AXIOM_OK, w2)" "transaction_rollback t jp w = (rc, t', w3)"
    using assms by (auto simp: rolled_back_def)
  note v = load_journal_valid [OF s(1)]
  have base: "jh_base_committed_tokens (lj_header j) \<le> pl_max_context (lj_plan j)"
    using valid_header_committed(1) [OF v(2)] v(3) by (simp add: ucast_u32_u64)
  show "t' = t \<or> kt_outstanding t = 0 \<and> t' = t\<lparr>kt_committed_tokens := jh_base_committed_tokens (lj_header j)\<rparr> \<and>
      kt_generation t = dh_generation (lj_old_tier_header j) \<and> pl_file_bytes (kt_plan t) = pl_file_bytes (lj_plan j)"
    using s v(3) by (auto simp: transaction_rollback_def Let_def ucast_u32_u64 split: if_splits prod.splits)
  show "jh_base_committed_tokens (lj_header j) \<le> dh_max_context (lj_old_tier_header j)"
    using base v(2) by (simp add: valid_header_def)
  show "unat (jh_base_committed_tokens (lj_header j)) \<le> 256 * unat (pl_logical_pages (lj_plan j))" "wf_plan (lj_plan j)"
    using context_in_pages [OF v(1) base] v(1) by simp_all
qed

lemma same_size_pages:
  assumes "wf_plan a" and "wf_plan b" and "pl_file_bytes a = pl_file_bytes b"
  shows "pl_logical_pages a = pl_logical_pages b"
  using wf_plan_values [OF assms(1)] wf_plan_values [OF assms(2)] assms(3)
  by (simp add: plan_values_def word_unat_eq_iff)

lemma rollback_inv:
  assumes "tier_inv t" and "transaction_rollback t jp w = (rc, t', w')"
  shows "tier_inv t'"
proof -
  have "tier_inv t'" if "rolled_back t j t'" for j
    using rolled_back_effect [OF that] same_size_pages [of "kt_plan t" "lj_plan j"] assms(1)
    by (auto simp: tier_inv_def)
  then show ?thesis
    using rollback_cases [OF assms(2)] assms(1) by auto
qed

section \<open>Steps\<close>

text \<open>The calls on an open tier, with any arguments and any answers of the system and the kernel. A call
  changes the tier and the world; between two calls the world may change in any way. Beginning a
  transaction reads the tier and leaves it as it is.\<close>

inductive kv_step :: "kv_tier \<Rightarrow> kv_tier \<Rightarrow> bool" where
  step_submit: "kv_submit kn r t w = (rc, t', w') \<Longrightarrow> kv_step t t'"
| step_wait: "kv_wait kn min_complete capacity t = (rc, cs, t') \<Longrightarrow> kv_step t t'"
| step_commit: "kv_commit c t w = (rc, t', w') \<Longrightarrow> kv_step t t'"
| step_reset: "kv_reset t w = (rc, t', w') \<Longrightarrow> kv_step t t'"
| step_begin: "transaction_begin t jp base w = (rc, w') \<Longrightarrow> kv_step t t"
| step_rollback: "transaction_rollback t jp w = (rc, t', w') \<Longrightarrow> kv_step t t'"

inductive_cases kv_stepE: "kv_step t t'"

definition kv_opened :: "kv_tier \<Rightarrow> bool" where
  "kv_opened t \<longleftrightarrow> (\<exists>kn config w w'. kv_create kn config w = (Inr t, w'))"

lemma kv_step_inv: "tier_inv t \<Longrightarrow> kv_step t t' \<Longrightarrow> tier_inv t'"
  by (erule kv_stepE) (auto intro: kv_submit_inv kv_wait_inv kv_commit_inv kv_reset_inv rollback_inv)

interpretation kv_tiers: invariant_system kv_opened kv_step tier_inv
  by unfold_locales (auto simp: kv_opened_def intro: kv_create_inv kv_step_inv)

section \<open>Generations and the watermark\<close>

text \<open>Along a run the plan stays and the generation grows.\<close>

definition kv_later :: "kv_tier \<Rightarrow> kv_tier \<Rightarrow> bool" where
  "kv_later t t' \<longleftrightarrow> kt_plan t' = kt_plan t \<and> kt_generation t \<le> kt_generation t'"

text \<open>What the calls other than a rollback do to the watermark: it grows within a generation, and stays within
  the context if it was.\<close>

definition mark_grows :: "kv_tier \<Rightarrow> kv_tier \<Rightarrow> bool" where
  "mark_grows t t' \<longleftrightarrow> kv_later t t' \<and>
     (kt_generation t' = kt_generation t \<longrightarrow> kt_committed_tokens t \<le> kt_committed_tokens t') \<and>
     (kt_committed_tokens t \<le> pl_max_context (kt_plan t) \<longrightarrow> kt_committed_tokens t' \<le> pl_max_context (kt_plan t))"

definition same_mark :: "kv_tier \<Rightarrow> kv_tier \<Rightarrow> bool" where
  "same_mark t t' \<longleftrightarrow> kt_plan t' = kt_plan t \<and> kt_generation t' = kt_generation t \<and>
     kt_committed_tokens t' = kt_committed_tokens t"

lemma same_mark_grows: "same_mark t t' \<Longrightarrow> mark_grows t t'"
  by (simp add: same_mark_def mark_grows_def kv_later_def)

lemma submit_mark: "kv_submit kn r t w = (rc, t', w') \<Longrightarrow> same_mark t t'"
proof -
  have ring: "same_mark t (snd (submit_ring kn ring r expected offset t))" for ring expected offset t
    by (auto simp: submit_ring_def Let_def same_mark_def split: prod.split)
  have sync: "same_mark t (fst (snd (submit_sync r expected offset t w)))" for expected offset t
    by (auto simp: submit_sync_def same_mark_def split: prod.split)
  assume eq: "kv_submit kn r t w = (rc, t', w')"
  show ?thesis
  proof (cases "submit_arguments t r")
    case (Inl e)
    then show ?thesis using eq by (auto simp: kv_submit_def same_mark_def)
  next
    case (Inr a)
    then obtain expected offset where a: "submit_arguments t r = Inr (expected, offset)" by (cases a) simp
    define t1 where "t1 = (if rq_operation r = OP_READ
        then t\<lparr>kt_submitted_reads := kt_submitted_reads t + 1\<rparr> else t\<lparr>kt_submitted_writes := kt_submitted_writes t + 1\<rparr>)"
    have m: "same_mark t t1" by (simp add: t1_def same_mark_def)
    have "same_mark t1 t' \<or> t' = t"
      using eq ring [of t1] sync [of t1]
      by (auto simp: kv_submit_def a Let_def t1_def [symmetric] same_mark_def split: if_splits kv_backend.splits option.splits prod.splits)
        (metis fst_conv snd_conv same_mark_def)+
    then show ?thesis using m by (auto simp: same_mark_def)
  qed
qed

lemma wait_mark: "kv_wait kn min_complete capacity t = (rc, cs, t') \<Longrightarrow> same_mark t t'"
proof -
  have cqe: "reap_cqe cqe t = Some (c, t') \<Longrightarrow> same_mark t t'" for cqe c t t'
    by (auto simp: reap_cqe_def Let_def same_mark_def split: if_splits)
  have ring: "reap_ring ring n head t = (r, t') \<Longrightarrow> same_mark t t'" for ring n head t r t'
  proof (induction ring n head t arbitrary: r t' rule: reap_ring.induct)
    case (2 ring n head t)
    show ?case
    proof (cases "head = rg_cq_tail ring \<or> reap_cqe (rg_cqes ring (head AND rg_cq_mask ring)) t = None")
      case True
      then show ?thesis using "2.prems" by (auto simp: same_mark_def split: if_splits)
    next
      case False
      then obtain c t1 where c: "reap_cqe (rg_cqes ring (head AND rg_cq_mask ring)) t = Some (c, t1)" by auto
      obtain r1 t2 where r1: "reap_ring ring n (head + 1) t1 = (r1, t2)" by fastforce
      have "same_mark t1 t2"
        using "2.IH" [OF _ c refl r1] False by simp
      moreover have "t' = t2"
        using "2.prems" False c r1 by (auto split: option.splits prod.splits)
      ultimately show ?thesis
        using cqe [OF c] by (simp add: same_mark_def)
    qed
  qed (auto simp: same_mark_def)
  have sync: "reap_sync n t = (cs, t') \<Longrightarrow> same_mark t t'" for n t cs t'
    by (induction n t arbitrary: cs t' rule: reap_sync.induct)
      (auto simp: reap_sync_one_def same_mark_def split: list.splits prod.splits if_splits)
  assume eq: "kv_wait kn min_complete capacity t = (rc, cs, t')"
  show ?thesis
    using eq ring sync
    by (auto simp: kv_wait_def Let_def same_mark_def split: if_splits kv_backend.splits option.splits prod.splits)
qed

lemma commit_mark: "kv_commit c t w = (rc, t', w') \<Longrightarrow> mark_grows t t'"
  by (auto simp: kv_commit_def Let_def mark_grows_def kv_later_def not_less split: if_splits prod.splits)

lemma generation_suc:
  fixes g :: u64
  assumes "g \<noteq> - 1"
  shows "g \<le> g + 1" and "g + 1 \<noteq> g"
proof -
  have "unat g \<noteq> 2 ^ 64 - 1"
    using assms unat_max_u64 by (metis word_unat_eq_iff)
  then have "unat (g + 1) = unat g + 1"
    using unat_u64_less [of g] by (simp add: unat_word_ariths)
  then show "g \<le> g + 1" "g + 1 \<noteq> g"
    by (simp_all add: word_le_nat_alt)
qed

lemma reset_mark: "kv_reset t w = (rc, t', w') \<Longrightarrow> mark_grows t t'"
  using generation_suc [of "kt_generation t"]
  by (auto simp: kv_reset_def Let_def mark_grows_def kv_later_def split: if_splits prod.splits)

lemma kv_step_mark:
  assumes "kv_step t t'"
  shows "mark_grows t t' \<or> (\<exists>j. rolled_back t j t' \<and>
    t' = t\<lparr>kt_committed_tokens := jh_base_committed_tokens (lj_header j)\<rparr>)"
  using assms
proof (rule kv_stepE)
  fix jp w rc w'
  assume r: "transaction_rollback t jp w = (rc, t', w')"
  have "mark_grows t t"
    by (simp add: mark_grows_def kv_later_def)
  then show ?thesis
    using rollback_cases [OF r] rolled_back_effect(1) [of t _ t'] by blast
qed (auto intro: same_mark_grows submit_mark wait_mark commit_mark reset_mark simp: same_mark_def)

lemma kv_step_later: "kv_step t t' \<Longrightarrow> kv_later t t'"
  using kv_step_mark [of t t'] by (auto simp: mark_grows_def kv_later_def)

interpretation kv_marks: monotone_system kv_opened kv_step tier_inv kv_later
proof unfold_locales
  show "kv_later s u" if "kv_later s t" "kv_later t u" for s t u
    using that by (auto simp: kv_later_def)
qed (simp_all add: kv_later_def [of s s for s] kv_step_later)

text \<open>A watermark that falls within a generation, or passes the context, does so in a rollback.\<close>

lemma mark_falls:
  assumes "tier_inv s" and "kv_step\<^sup>*\<^sup>* s t" and "kt_generation t = kt_generation s"
    and "kt_committed_tokens t < kt_committed_tokens s"
  shows "\<exists>u j u'. kv_step\<^sup>*\<^sup>* s u \<and> rolled_back u j u' \<and> kv_step\<^sup>*\<^sup>* u' t \<and>
    kt_committed_tokens u' = jh_base_committed_tokens (lj_header j) \<and> kt_committed_tokens u' < kt_committed_tokens u"
proof -
  let ?P = "\<lambda>u. \<not> (kt_generation u = kt_generation s \<and> kt_committed_tokens u < kt_committed_tokens s)"
  obtain u u' where u: "kv_step\<^sup>*\<^sup>* s u" "kv_step u u'" "kv_step\<^sup>*\<^sup>* u' t" "?P u" "\<not> ?P u'"
    using run_breaks [OF assms(2), of ?P] assms(3,4) by auto
  have "kt_generation s \<le> kt_generation u" "kt_generation u \<le> kt_generation u'"
    using kv_marks.rel_run [OF u(1) assms(1)] kv_step_later [OF u(2)] by (simp_all add: kv_later_def)
  then have lower: "kt_generation u' = kt_generation u" "kt_committed_tokens u' < kt_committed_tokens u"
    using u(4,5) by (auto simp: not_less intro: less_le_trans)
  then have "\<not> mark_grows u u'"
    by (auto simp: mark_grows_def not_less [symmetric])
  then obtain j where "rolled_back u j u'" "u' = u\<lparr>kt_committed_tokens := jh_base_committed_tokens (lj_header j)\<rparr>"
    using kv_step_mark [OF u(2)] by blast
  then show ?thesis
    using u(1,3) lower(2) by (intro exI [of _ u] exI [of _ j] exI [of _ u']) simp
qed

lemma mark_passes_context:
  assumes "kt_committed_tokens s \<le> pl_max_context (kt_plan s)" and "tier_inv s" and "kv_step\<^sup>*\<^sup>* s t"
    and "pl_max_context (kt_plan t) < kt_committed_tokens t"
  shows "\<exists>u j u'. kv_step\<^sup>*\<^sup>* s u \<and> rolled_back u j u' \<and> kv_step\<^sup>*\<^sup>* u' t \<and>
    dh_max_context (lj_old_tier_header j) \<noteq> pl_max_context (kt_plan u)"
proof -
  let ?P = "\<lambda>u. kt_committed_tokens u \<le> pl_max_context (kt_plan u)"
  obtain u u' where u: "kv_step\<^sup>*\<^sup>* s u" "kv_step u u'" "kv_step\<^sup>*\<^sup>* u' t" "?P u" "\<not> ?P u'"
    using run_breaks [OF assms(3), of ?P] assms(1,4) by (auto simp: not_le)
  have "kt_plan u' = kt_plan u"
    using kv_step_later [OF u(2)] by (simp add: kv_later_def)
  then have "\<not> mark_grows u u'"
    using u(4,5) by (auto simp: mark_grows_def)
  then obtain j where j: "rolled_back u j u'" "u' = u\<lparr>kt_committed_tokens := jh_base_committed_tokens (lj_header j)\<rparr>"
    using kv_step_mark [OF u(2)] by blast
  then have "dh_max_context (lj_old_tier_header j) \<noteq> pl_max_context (kt_plan u)"
    using rolled_back_effect(2) [OF j(1)] u(5) by auto
  then show ?thesis
    using u(1,3) j(1) by blast
qed

lemma opened_in_context:
  assumes "kv_opened t"
  shows "kt_committed_tokens t \<le> pl_max_context (kt_plan t)"
proof -
  obtain kn config w w' where c: "kv_create kn config w = (Inr t, w')"
    using assms by (auto simp: kv_opened_def)
  obtain fd w1 t1 w2 depth plan where s:
    "open_file (new_tier fd (kc_flags (the config)) plan depth) w1 = (AXIOM_OK, t1, w2)"
    "attach_ring kn t1 w2 = (AXIOM_OK, t, w')"
    using c by (auto simp: kv_create_def split: prod.splits option.splits bool.splits if_splits sum.splits)
  have "kt_committed_tokens t1 \<le> pl_max_context (kt_plan t1)"
    using s(1) valid_header_committed(1)
    by (auto simp: open_file_def open_new_def open_existing_def new_tier_def Let_def split: prod.splits sum.splits if_splits)
  then show ?thesis
    using s(2) by (auto simp: attach_ring_def split: prod.splits sum.splits if_splits)
qed

end
