(* ===== verification/KvProps.thy ===== *)
theory KvProps
  imports KvTierInv
begin

text \<open>
  Properties of the KV tier: layout, header, page transfer, accounting, watermark, and the append
  transactions with their recovery after a crash.
\<close>

section \<open>A concrete tier\<close>

text \<open>A tier of one logical page with one committed token, on a file that no call has touched.\<close>

definition demo_plan :: kv_plan where
  "demo_plan = projr (plan_get 256 0 (Some kAbi))"

definition demo_tier :: kv_tier where
  "demo_tier = (new_tier 5 0 demo_plan 4)\<lparr>kt_generation := 1, kt_committed_tokens := 1\<rparr>"

definition demo_file :: "byte list" where
  "demo_file = header_image (fill_header demo_plan 1 1) @ replicate 11010048 0"

definition demo_world :: world where
  "demo_world = \<lparr>w_names = [''tier'' \<mapsto> 5],
     w_files = [5 \<mapsto> \<lparr>df_bytes = demo_file, df_regular = True, df_nlink = 1, df_owned = True\<rparr>],
     w_next = 6, w_pages = (\<lambda>address. replicate 524288 7), w_answers = []\<rparr>"

lemma demo_plan_facts:
  "plan_get 256 0 (Some kAbi) = Inr demo_plan" "wf_plan demo_plan" "pl_max_context demo_plan = 256"
  "page_count 256 = 1" "plan_values demo_plan 1"
proof -
  have pc: "page_count 256 = 1" by (simp add: page_count_def)
  obtain plan where plan: "plan_get 256 0 (Some kAbi) = Inr plan" "pl_max_context plan = 256" "plan_values plan 1"
    using plan_get_total [of 256 0] pc by auto
  then show "plan_get 256 0 (Some kAbi) = Inr demo_plan" "wf_plan demo_plan" "pl_max_context demo_plan = 256"
    "plan_values demo_plan 1" "page_count 256 = 1"
    using pc by (auto simp: demo_plan_def wf_plan_def)
qed

lemma demo_begins:
  "begins_on demo_tier 1 1 demo_file" "tier_sized 1 demo_file" "file_bytes demo_world 5 = demo_file"
proof -
  have len: "length (header_image (fill_header demo_plan 1 1)) = 4096"
    by (rule length_header_image) simp
  then show sz: "tier_sized 1 demo_file"
    by (simp add: tier_sized_def demo_file_def)
  have "field_at 0 4096 demo_file = header_image (fill_header demo_plan 1 1)"
    using len by (simp add: demo_file_def field_at_def)
  then have "header_of (field_at 0 4096 demo_file) = fill_header demo_plan 1 1"
    by (simp add: header_of_image)
  then show "begins_on demo_tier 1 1 demo_file"
    using sz demo_plan_facts valid_fill_header [of 1 demo_plan 1]
    by (simp add: begins_on_def demo_tier_def new_tier_def)
  show "file_bytes demo_world 5 = demo_file"
    by (simp add: file_bytes_def demo_world_def)
qed

section \<open>Recovery after a crash\<close>

text \<open>C20. After a crash during an append, recovery against a manifest that still names the old watermark
  restores the tier. Let begin succeed on a tier file, then let the append change the file in any way
  except on full pages of committed tokens (header, tail page and later pages may hold anything), and
  let the journal survive. If recovery reports success, for any answers of the system calls, the
  header and every record of the committed tokens are those from before the append, and the journal
  is gone.\<close>

theorem kv_recover_restores:
  assumes "wf_plan (kt_plan tier)" and "p = page_count (pl_max_context (kt_plan tier))"
    and "old = file_bytes w (kt_fd tier)" and "tier_sized p old"
    and "transaction_begin tier jp base w = (AXIOM_OK, w1)"
    and "w_names w2 jp = w_names w1 jp" and "w_files w2 (w_next w) = w_files w1 (w_next w)"
    and "w_names w2 tp = Some (kt_fd tier)" and "appended p base old (file_bytes w2 (kt_fd tier))"
    and "transaction_recover_file tp jp base w2 = (AXIOM_OK, w3)"
  shows "same_committed p base old (file_bytes w3 (kt_fd tier)) \<and> w_names w3 jp = None"
proof -
  have pv: "plan_values (kt_plan tier) p"
    using wf_plan_values [OF assms(1)] assms(2) by simp
  note b = transaction_begin_ok [OF pv assms(5), folded assms(3)]
  have begins: "begins_on tier p base old"
    using pv b assms(4) by (simp add: begins_on_def)
  have jp: "w_names w2 jp = Some (w_next w)"
    "w_files w2 (w_next w) = Some (empty_file\<lparr>df_bytes := journal_content tier p base old\<rparr>)"
    using b(1) assms(6,7) by (simp_all add: quiet_iff with_journal_def journal_content_def Let_def)
  note j = tier_journal_sel [OF begins] and load = load_tier_journal(1) [OF begins b(10) jp]
  obtain r w4 where r: "load_transaction_journal jp w2 = (r, w4)" by fastforce
  obtain fd w5 w6 w7 w8 where s: "r = Inr (Some (tier_journal tier p base old))" "sys_open tp w4 = (Inr fd, w5)"
    "regular_private_file fd (unat (pl_file_bytes (lj_plan (tier_journal tier p base old)))) w5 = (True, w6)"
    "recover_decision fd (tier_journal tier p base old) base w6 = (AXIOM_OK, w7)" "sys_ok w7 = (True, w8)"
    "discard_transaction_path jp w8 = (AXIOM_OK, w3)"
    using assms(10) r load [OF r]
    by (auto simp: transaction_recover_file_def Let_def split: if_splits prod.splits sum.splits bool.splits)
  have q6: "quiet w2 w6"
    using load [OF r] sys_open_quiet [OF s(2)] regular_private_file_quiet [OF s(3)] quiet_trans by blast
  have fd: "fd = kt_fd tier"
    using sys_open_inr [OF s(2)] load [OF r] assms(8) quiet_files(2) by fastforce
  obtain h w9 where w9: "read_header fd w6 = (h, w9)" "restore_transaction_fd fd (tier_journal tier p base old) w9 = (AXIOM_OK, w7)"
    using s(4) j(6) by (auto simp: recover_decision_def split: prod.splits)
  have q9: "quiet w2 w9"
    using q6 read_header_quiet [OF w9(1)] quiet_trans by blast
  note res = restore_transaction_ok [OF begins w9(2)]
  obtain f where f: "w_files w9 fd = Some f"
    using res(3) by blast
  have "file_bytes w7 fd = restored p (kt_plan tier) base old (file_bytes w2 fd)"
    using quiet_file_bytes [OF res(1)] file_bytes_set_bytes [OF f] quiet_file_bytes [OF q9] by simp
  moreover have "file_bytes w3 fd = file_bytes w7 fd" "w_names w3 jp = None"
    using discard_ok [OF s(6)] quiet_files(1) [OF sys_ok_quiet [OF s(5)]]
    by (simp_all add: quiet_iff file_bytes_def)
  ultimately show ?thesis
    using restored_same_committed [OF begins assms(9)] fd by simp
qed

text \<open>A torn header and an overwritten tail page, with the journal in place.\<close>

definition demo_crashed :: world where
  "demo_crashed = set_bytes 5 (replicate 11014144 9) (with_journal ''journal'' (journal_content demo_tier 1 1 demo_file) demo_world)"

lemma demo_begin:
  "transaction_begin demo_tier ''journal'' 1 demo_world =
     (AXIOM_OK, with_journal ''journal'' (journal_content demo_tier 1 1 demo_file) demo_world)"
  using transaction_begin_empty [of demo_tier 1 1 demo_world "''journal''"] demo_begins
  by (simp add: demo_tier_def new_tier_def demo_world_def)

lemma demo_crashed_facts:
  "w_names demo_crashed ''journal'' = Some 6" "w_names demo_crashed ''tier'' = Some 5" "w_answers demo_crashed = []"
  "w_files demo_crashed 6 = Some (empty_file\<lparr>df_bytes := journal_content demo_tier 1 1 demo_file\<rparr>)"
  "file_bytes demo_crashed 5 = replicate 11014144 9" "private_file demo_crashed 5"
  by (simp_all add: demo_crashed_def with_journal_def demo_world_def w_files_set_bytes file_bytes_def private_file_def)

lemma demo_appended: "appended 1 1 demo_file (file_bytes demo_crashed 5)"
  by (auto simp: appended_def tier_sized_def demo_crashed_facts)

lemma demo_recover:
  "\<exists>w3. transaction_recover_file ''tier'' ''journal'' 1 demo_crashed = (AXIOM_OK, w3)"
proof -
  have "tier_sized 1 (file_bytes demo_crashed 5)"
    using demo_appended by (simp add: appended_def)
  then show ?thesis
    using recover_restores_empty [OF demo_begins(1), of "''journal''" "''tier''" demo_crashed 6 5] demo_crashed_facts
    by simp
qed

theorem kv_recover_restores_witness:
  "\<exists>w3. transaction_recover_file ''tier'' ''journal'' 1 demo_crashed = (AXIOM_OK, w3) \<and>
     same_committed 1 1 demo_file (file_bytes w3 5) \<and> w_names w3 ''journal'' = None"
proof -
  obtain w3 where w3: "transaction_recover_file ''tier'' ''journal'' 1 demo_crashed = (AXIOM_OK, w3)"
    using demo_recover by blast
  have t: "kt_fd demo_tier = 5" "kt_plan demo_tier = demo_plan"
    by (simp_all add: demo_tier_def new_tier_def)
  show ?thesis
    using kv_recover_restores [of demo_tier 1 demo_file demo_world "''journal''" 1 _ demo_crashed "''tier''" w3,
        OF _ _ _ _ demo_begin] demo_plan_facts demo_begins demo_crashed_facts demo_appended w3 t
    by (auto simp: with_journal_def demo_world_def)
qed

text \<open>C21. Without failures the transaction runs through: begin on an idle tier whose header is the one on
  disk succeeds, and recovery after any append on that tier succeeds too, so the old state is reached
  and not only allowed.\<close>

theorem kv_recover_returns:
  assumes "begins_on tier p base (file_bytes w (kt_fd tier))" and "w_answers w = []" and "jp \<noteq> []" and "tp \<noteq> []"
    and "w_names w jp = None" and "kt_outstanding tier = 0" and "kt_committed_tokens tier = base"
  shows "\<exists>w1. transaction_begin tier jp base w = (AXIOM_OK, w1) \<and>
    (\<forall>w2. w_names w2 jp = w_names w1 jp \<longrightarrow> w_files w2 (w_next w) = w_files w1 (w_next w) \<longrightarrow>
      w_names w2 tp = Some (kt_fd tier) \<longrightarrow> private_file w2 (kt_fd tier) \<longrightarrow> w_answers w2 = [] \<longrightarrow>
      appended p base (file_bytes w (kt_fd tier)) (file_bytes w2 (kt_fd tier)) \<longrightarrow>
      (\<exists>w3. transaction_recover_file tp jp base w2 = (AXIOM_OK, w3) \<and>
         same_committed p base (file_bytes w (kt_fd tier)) (file_bytes w3 (kt_fd tier)) \<and> w_names w3 jp = None))"
proof -
  let ?old = "file_bytes w (kt_fd tier)"
  let ?w1 = "with_journal jp (journal_content tier p base ?old) w"
  have beg: "transaction_begin tier jp base w = (AXIOM_OK, ?w1)"
    using transaction_begin_empty [OF assms(1,2,3,5,6,7)] .
  have "\<exists>w3. transaction_recover_file tp jp base w2 = (AXIOM_OK, w3) \<and>
      same_committed p base ?old (file_bytes w3 (kt_fd tier)) \<and> w_names w3 jp = None"
    if w2: "w_names w2 jp = w_names ?w1 jp" "w_files w2 (w_next w) = w_files ?w1 (w_next w)"
      "w_names w2 tp = Some (kt_fd tier)" "private_file w2 (kt_fd tier)" "w_answers w2 = []"
      "appended p base ?old (file_bytes w2 (kt_fd tier))" for w2
  proof -
    obtain f where f: "w_files w2 (kt_fd tier) = Some f"
      using w2(4) by (auto simp: private_file_def)
    have jp: "w_names w2 jp = Some (w_next w)"
      "w_files w2 (w_next w) = Some (empty_file\<lparr>df_bytes := journal_content tier p base ?old\<rparr>)"
      using w2(1,2) by (simp_all add: with_journal_def)
    have "tier_sized p (file_bytes w2 (kt_fd tier))"
      using w2(6) by (simp add: appended_def)
    note rec = recover_restores_empty [OF assms(1,3,4) w2(5) jp w2(3,4) this]
    show ?thesis
      using rec restored_same_committed [OF assms(1) w2(6)] file_bytes_set_bytes [OF f]
      by (simp add: file_bytes_def)
  qed
  then show ?thesis
    using beg by blast
qed

theorem kv_recover_returns_witness:
  "\<exists>w3. transaction_recover_file ''tier'' ''journal'' 1 demo_crashed = (AXIOM_OK, w3) \<and>
     same_committed 1 1 demo_file (file_bytes w3 5) \<and> w_names w3 ''journal'' = None"
proof -
  have "file_bytes demo_world (kt_fd demo_tier) = demo_file" "kt_fd demo_tier = 5"
    using demo_begins(3) by (simp_all add: demo_tier_def new_tier_def)
  moreover have "kt_outstanding demo_tier = 0" "kt_committed_tokens demo_tier = 1" "w_answers demo_world = []"
    "w_names demo_world ''journal'' = None" "w_next demo_world = 6"
    by (simp_all add: demo_tier_def new_tier_def demo_world_def)
  moreover have "w_names demo_crashed ''journal'' = w_names (with_journal ''journal'' (journal_content demo_tier 1 1 demo_file) demo_world) ''journal''"
    "w_files demo_crashed 6 = w_files (with_journal ''journal'' (journal_content demo_tier 1 1 demo_file) demo_world) 6"
    using demo_crashed_facts by (simp_all add: with_journal_def demo_world_def)
  ultimately show ?thesis
    using kv_recover_returns [of demo_tier 1 1 demo_world "''journal''" "''tier''"] demo_begin demo_begins(1)
      demo_crashed_facts demo_appended by auto
qed

text \<open>A rollback where the journal of a transaction on \<open>tier\<close> is in place.\<close>

lemma rollback_journal:
  assumes "begins_on tier p base old" and "jp \<noteq> []" and "w_names w2 jp = Some jfd"
    and "w_files w2 jfd = Some (empty_file\<lparr>df_bytes := journal_content tier p base old\<rparr>)"
    and "kt_fd t2 = kt_fd tier" and "kt_plan t2 = kt_plan tier" and "transaction_rollback t2 jp w2 = (rc, t3, w3)"
  obtains r w4 rc5 w5 rc6 w6 where "load_transaction_journal jp w2 = (r, w4)" "quiet w2 w4"
    "\<And>e. r = Inl e \<Longrightarrow> e \<noteq> AXIOM_OK"
    "restore_transaction_fd (kt_fd tier) (tier_journal tier p base old) w4 = (rc5, w5)"
    "discard_transaction_path jp w5 = (rc6, w6)"
    "(rc, t3, w3) = (case r of Inl e \<Rightarrow> (e, t2, w4) | Inr x \<Rightarrow>
      if kt_outstanding t2 \<noteq> 0 \<or> kt_generation t2 \<noteq> kt_generation tier then (AXIOM_ERR_INVALID_ARGUMENT, t2, w4)
      else if rc5 \<noteq> AXIOM_OK then (rc5, t2, w5) else (rc6, t2\<lparr>kt_committed_tokens := base\<rparr>, w6))"
proof -
  let ?j = "tier_journal tier p base old"
  note j = tier_journal_sel [OF assms(1)] and load = load_tier_journal(1) [OF assms(1-4)]
  obtain r w4 where r: "load_transaction_journal jp w2 = (r, w4)" by fastforce
  obtain rc5 w5 where s: "restore_transaction_fd (kt_fd tier) ?j w4 = (rc5, w5)" by fastforce
  obtain rc6 w6 where d: "discard_transaction_path jp w5 = (rc6, w6)" by fastforce
  have "(rc, t3, w3) = (case r of Inl e \<Rightarrow> (e, t2, w4) | Inr x \<Rightarrow>
      if kt_outstanding t2 \<noteq> 0 \<or> kt_generation t2 \<noteq> kt_generation tier then (AXIOM_ERR_INVALID_ARGUMENT, t2, w4)
      else if rc5 \<noteq> AXIOM_OK then (rc5, t2, w5) else (rc6, t2\<lparr>kt_committed_tokens := base\<rparr>, w6))"
    using assms(5-7) r load [OF r] s d j by (auto simp: transaction_rollback_def ucast_u32_u64 Let_def)
  then show ?thesis
    using that r load [OF r] s d by fast
qed

lemma rollback_journal_ok:
  assumes "begins_on tier p base old" and "jp \<noteq> []" and "w_names w2 jp = Some jfd"
    and "w_files w2 jfd = Some (empty_file\<lparr>df_bytes := journal_content tier p base old\<rparr>)"
    and "kt_fd t2 = kt_fd tier" and "kt_plan t2 = kt_plan tier" and "transaction_rollback t2 jp w2 = (AXIOM_OK, t3, w3)"
    and "appended p base old (file_bytes w2 (kt_fd tier))"
  shows "t3 = t2\<lparr>kt_committed_tokens := base\<rparr> \<and> same_committed p base old (file_bytes w3 (kt_fd tier)) \<and> w_names w3 jp = None"
proof -
  obtain r w4 rc5 w5 rc6 w6 where s: "load_transaction_journal jp w2 = (r, w4)" "quiet w2 w4"
    "\<And>e. r = Inl e \<Longrightarrow> e \<noteq> AXIOM_OK"
    "restore_transaction_fd (kt_fd tier) (tier_journal tier p base old) w4 = (rc5, w5)" "discard_transaction_path jp w5 = (rc6, w6)"
    "(AXIOM_OK, t3, w3) = (case r of Inl e \<Rightarrow> (e, t2, w4) | Inr x \<Rightarrow>
      if kt_outstanding t2 \<noteq> 0 \<or> kt_generation t2 \<noteq> kt_generation tier then (AXIOM_ERR_INVALID_ARGUMENT, t2, w4)
      else if rc5 \<noteq> AXIOM_OK then (rc5, t2, w5) else (rc6, t2\<lparr>kt_committed_tokens := base\<rparr>, w6))"
    using rollback_journal [OF assms(1-7)] by blast
  have all: "rc5 = AXIOM_OK" "rc6 = AXIOM_OK" "w3 = w6" "t3 = t2\<lparr>kt_committed_tokens := base\<rparr>"
    using s(3,6) by (auto split: sum.splits if_splits)
  note res = restore_transaction_ok [OF assms(1) s(4) [unfolded all(1)]]
  obtain f where f: "w_files w4 (kt_fd tier) = Some f"
    using res(3) by blast
  have "file_bytes w5 (kt_fd tier) = restored p (kt_plan tier) base old (file_bytes w2 (kt_fd tier))"
    using quiet_file_bytes [OF res(1)] file_bytes_set_bytes [OF f] quiet_file_bytes [OF s(2)] by simp
  moreover have "file_bytes w6 (kt_fd tier) = file_bytes w5 (kt_fd tier)" "w_names w6 jp = None"
    using discard_ok [OF s(5) [unfolded all(2)]] by (simp_all add: quiet_iff file_bytes_def)
  ultimately show ?thesis
    using restored_same_committed [OF assms(1,8)] all by simp
qed

lemma rollback_journal_empty:
  assumes "begins_on tier p base old" and "jp \<noteq> []" and "w_names w2 jp = Some jfd"
    and "w_files w2 jfd = Some (empty_file\<lparr>df_bytes := journal_content tier p base old\<rparr>)"
    and "kt_fd t2 = kt_fd tier" and "kt_plan t2 = kt_plan tier" and "w_answers w2 = []" and "kt_outstanding t2 = 0"
    and "kt_generation t2 = kt_generation tier" and "private_file w2 (kt_fd tier)" and "tier_sized p (file_bytes w2 (kt_fd tier))"
  shows "\<exists>w3. transaction_rollback t2 jp w2 = (AXIOM_OK, t2\<lparr>kt_committed_tokens := base\<rparr>, w3)"
proof -
  note j = tier_journal_sel [OF assms(1)] and load = load_tier_journal(2) [OF assms(1-4,7)]
    and res = restore_transaction_empty [OF assms(1,7,10,11)]
  show ?thesis
    using assms(2,5-9) load res j discard_empty [OF _ assms(2)]
    by (simp add: transaction_rollback_def ucast_u32_u64)
qed

text \<open>C12. Rolling back an open transaction gives back the tier as begin found it. Let begin succeed on a tier, let the
  append change the tier file in any way except on full pages of committed tokens, and let the journal
  survive. A rollback that reports success, for any answers of the system calls, sets the watermark back
  to the one begin recorded and changes nothing else of the tier, the header and every record of the
  committed tokens are those from before the append, and the journal is gone. With requests outstanding,
  or in another generation, it reports an error and changes neither the tier nor a file; without failing
  calls, on an idle tier of the same generation, it succeeds.\<close>

theorem kv_rollback_restores:
  assumes "wf_plan (kt_plan tier)" and "p = page_count (pl_max_context (kt_plan tier))"
    and "old = file_bytes w (kt_fd tier)" and "tier_sized p old"
    and "transaction_begin tier jp base w = (AXIOM_OK, w1)"
    and "w_names w2 jp = w_names w1 jp" and "w_files w2 (w_next w) = w_files w1 (w_next w)"
    and "kt_fd t2 = kt_fd tier" and "kt_plan t2 = kt_plan tier" and "appended p base old (file_bytes w2 (kt_fd tier))"
    and "transaction_rollback t2 jp w2 = (rc, t3, w3)"
  shows "(rc = AXIOM_OK \<longrightarrow> t3 = t2\<lparr>kt_committed_tokens := base\<rparr> \<and>
      same_committed p base old (file_bytes w3 (kt_fd tier)) \<and> w_names w3 jp = None) \<and>
    (kt_outstanding t2 \<noteq> 0 \<or> kt_generation t2 \<noteq> kt_generation tier \<longrightarrow>
      rc \<noteq> AXIOM_OK \<and> t3 = t2 \<and> w_files w3 = w_files w2 \<and> w_names w3 = w_names w2) \<and>
    (w_answers w2 = [] \<and> kt_outstanding t2 = 0 \<and> kt_generation t2 = kt_generation tier \<and>
      private_file w2 (kt_fd tier) \<longrightarrow> rc = AXIOM_OK)"
proof -
  have pv: "plan_values (kt_plan tier) p"
    using wf_plan_values [OF assms(1)] assms(2) by simp
  note b = transaction_begin_ok [OF pv assms(5), folded assms(3)]
  have begins: "begins_on tier p base old"
    using pv b assms(4) by (simp add: begins_on_def)
  have jp: "w_names w2 jp = Some (w_next w)"
    "w_files w2 (w_next w) = Some (empty_file\<lparr>df_bytes := journal_content tier p base old\<rparr>)"
    using b(1) assms(6,7) by (simp_all add: quiet_iff with_journal_def journal_content_def Let_def)
  obtain r w4 rc5 w5 rc6 w6 where s: "load_transaction_journal jp w2 = (r, w4)" "quiet w2 w4"
    "\<And>e. r = Inl e \<Longrightarrow> e \<noteq> AXIOM_OK"
    "restore_transaction_fd (kt_fd tier) (tier_journal tier p base old) w4 = (rc5, w5)" "discard_transaction_path jp w5 = (rc6, w6)"
    "(rc, t3, w3) = (case r of Inl e \<Rightarrow> (e, t2, w4) | Inr x \<Rightarrow>
      if kt_outstanding t2 \<noteq> 0 \<or> kt_generation t2 \<noteq> kt_generation tier then (AXIOM_ERR_INVALID_ARGUMENT, t2, w4)
      else if rc5 \<noteq> AXIOM_OK then (rc5, t2, w5) else (rc6, t2\<lparr>kt_committed_tokens := base\<rparr>, w6))"
    using rollback_journal [OF begins b(10) jp assms(8,9,11)] by blast
  have refused: "rc \<noteq> AXIOM_OK \<and> t3 = t2 \<and> w_files w3 = w_files w2 \<and> w_names w3 = w_names w2"
    if "kt_outstanding t2 \<noteq> 0 \<or> kt_generation t2 \<noteq> kt_generation tier"
    using s(2,3,6) that by (auto simp: quiet_iff split: sum.splits)
  have "rc = AXIOM_OK" if "w_answers w2 = []" "kt_outstanding t2 = 0" "kt_generation t2 = kt_generation tier"
    "private_file w2 (kt_fd tier)"
    using rollback_journal_empty [OF begins b(10) jp assms(8,9) that] assms(10,11) by (auto simp: appended_def)
  then show ?thesis
    using rollback_journal_ok [OF begins b(10) jp assms(8,9) _ assms(10)] assms(11) refused by blast
qed

theorem kv_rollback_restores_witness:
  "\<exists>w3. transaction_rollback (demo_tier\<lparr>kt_committed_tokens := 200\<rparr>) ''journal'' demo_crashed = (AXIOM_OK, demo_tier, w3) \<and>
     same_committed 1 1 demo_file (file_bytes w3 5) \<and> w_names w3 ''journal'' = None"
proof -
  let ?t = "demo_tier\<lparr>kt_committed_tokens := 200\<rparr>"
  have t: "kt_fd demo_tier = 5" "kt_plan demo_tier = demo_plan" "kt_outstanding demo_tier = 0"
    "demo_tier\<lparr>kt_committed_tokens := 1\<rparr> = demo_tier"
    by (simp_all add: demo_tier_def new_tier_def)
  obtain rc t3 w3 where r: "transaction_rollback ?t ''journal'' demo_crashed = (rc, t3, w3)"
    by (metis prod.exhaust)
  show ?thesis
    using kv_rollback_restores [of demo_tier 1 demo_file demo_world "''journal''" 1 _ demo_crashed ?t rc t3 w3,
        OF _ _ _ _ demo_begin] demo_plan_facts demo_begins demo_crashed_facts demo_appended r t
    by (auto simp: with_journal_def demo_world_def)
qed

lemma restore_not_needed:
  assumes "begins_on tier p base old" and "manifest \<noteq> base"
    and "recover_decision fd (tier_journal tier p base old) manifest w = (rc, w')"
  shows "quiet w w'" and "rc = AXIOM_OK \<Longrightarrow> \<exists>h. h = header_of (field_at 0 4096 (file_bytes w fd)) \<and>
    valid_header h (kt_plan tier) \<and> dh_generation h = kt_generation tier \<and> dh_committed_tokens h = ucast manifest"
proof -
  note j = tier_journal_sel [OF assms(1)]
  obtain r w1 where r: "read_header fd w = (r, w1)" by fastforce
  show "quiet w w'"
    using assms(2,3) r read_header_quiet [OF r] by (auto simp: recover_decision_def j(6) Let_def split: if_splits)
  assume "rc = AXIOM_OK"
  then show "\<exists>h. h = header_of (field_at 0 4096 (file_bytes w fd)) \<and> valid_header h (kt_plan tier) \<and>
      dh_generation h = kt_generation tier \<and> dh_committed_tokens h = ucast manifest"
    using assms(2,3) r read_header_ok(2) [of fd w _ w1]
    by (cases r) (auto simp: recover_decision_def j Let_def split: if_splits)
qed

lemma discard_frame: "discard_transaction_path path w = (rc, w') \<Longrightarrow> w_files w' = w_files w"
  using take_answer_quiet [of w]
  by (auto simp: discard_transaction_path_def sys_unlink_def quiet_iff dest!: parent_directory_sync_quiet
      split: prod.splits bool.splits if_splits)

text \<open>C22. When the manifest does not name the old watermark, recovery changes no file. It succeeds, and
  removes the journal, only if the header in the tier file is valid, of the same generation, and
  names the watermark of the manifest; otherwise it reports an error and the journal stays.\<close>

theorem kv_recover_fails_closed:
  assumes "begins_on tier p base old" and "jp \<noteq> []" and "manifest \<noteq> base" and "w_names w tp = Some fd"
    and "w_names w jp = Some jfd" and "w_files w jfd = Some (empty_file\<lparr>df_bytes := journal_content tier p base old\<rparr>)"
    and "transaction_recover_file tp jp manifest w = (rc, w')"
    and "h = header_of (field_at 0 4096 (file_bytes w fd))"
  shows "w_files w' = w_files w \<and>
    (if valid_header h (kt_plan tier) \<and> dh_generation h = kt_generation tier \<and> dh_committed_tokens h = ucast manifest
     then rc = AXIOM_OK \<longrightarrow> w_names w' jp = None else rc \<noteq> AXIOM_OK \<and> w_names w' = w_names w)"
proof -
  note load = load_tier_journal(1) [OF assms(1,2,5,6)]
  obtain r w1 where r: "load_transaction_journal jp w = (r, w1)" by fastforce
  note q1 = load [OF r, THEN conjunct1]
  show ?thesis
  proof (cases "tp = [] \<or> r \<noteq> Inr (Some (tier_journal tier p base old))")
    case True
    then have "rc \<noteq> AXIOM_OK \<and> quiet w w'"
      using assms(2,7) r load [OF r] by (auto simp: transaction_recover_file_def split: if_splits)
    then show ?thesis by (auto simp: quiet_iff)
  next
    case False
    obtain r2 w2 where r2: "sys_open tp w1 = (r2, w2)" by fastforce
    have n1: "w_names w1 tp = Some fd"
      using q1 assms(4) by (simp add: quiet_iff)
    have q2: "quiet w w2" using q1 sys_open_quiet [OF r2] quiet_trans by blast
    obtain ok w3 where r3: "regular_private_file fd (unat (pl_file_bytes (lj_plan (tier_journal tier p base old)))) w2 = (ok, w3)"
      by fastforce
    have q3: "quiet w w3" using q2 regular_private_file_quiet [OF r3] quiet_trans by blast
    obtain rc4 w4 where r4: "recover_decision fd (tier_journal tier p base old) manifest w3 = (rc4, w4)" by fastforce
    note dec = restore_not_needed [OF assms(1,3) r4]
    obtain closed w5 where r5: "sys_ok w4 = (closed, w5)" by fastforce
    have q5: "quiet w w5" using q3 dec(1) sys_ok_quiet [OF r5] quiet_trans by blast
    obtain rc6 w6 where r6: "discard_transaction_path jp w5 = (rc6, w6)" by fastforce
    have res: "(rc, w') = (if r2 = Inl False then (AXIOM_ERR_IO, w2) else if \<not> ok then (AXIOM_ERR_IO, w3)
        else if rc4 = AXIOM_OK \<and> closed then (rc6, w6) else (if rc4 = AXIOM_OK then AXIOM_ERR_IO else rc4, w5))"
      using assms(2,7) False r r2 r3 r4 r5 r6 sys_open_named [OF r2 n1]
      by (auto simp: transaction_recover_file_def Let_def split: bool.splits)
    have h: "header_of (field_at 0 4096 (file_bytes w3 fd)) = h"
      using assms(8) quiet_file_bytes [OF q3] by simp
    have files: "w_files w6 = w_files w"
      using discard_frame [OF r6] q5 by (simp add: quiet_iff)
    have "rc6 = AXIOM_OK \<Longrightarrow> w_names w6 jp = None"
      using discard_ok [of jp w5 w6] r6 by (simp add: quiet_iff)
    then show ?thesis
      using res dec(2) h files q2 q3 q5 by (auto simp: quiet_iff split: if_splits)
  qed
qed

theorem kv_recover_fails_closed_witness:
  "fst (transaction_recover_file ''tier'' ''journal'' 200 demo_crashed) \<noteq> AXIOM_OK \<and>
   w_files (snd (transaction_recover_file ''tier'' ''journal'' 200 demo_crashed)) = w_files demo_crashed \<and>
   w_names (snd (transaction_recover_file ''tier'' ''journal'' 200 demo_crashed)) = w_names demo_crashed"
proof -
  obtain rc w' where r: "transaction_recover_file ''tier'' ''journal'' 200 demo_crashed = (rc, w')" by fastforce
  let ?h = "header_of (field_at 0 4096 (file_bytes demo_crashed 5))"
  have "hd (replicate 8 (9 :: byte)) \<noteq> hd tier_magic"
    by (simp add: tier_magic_def)
  moreover have "dh_magic ?h = replicate 8 9"
    by (simp add: demo_crashed_facts header_of_def field_at_def)
  ultimately have "dh_magic ?h \<noteq> tier_magic"
    by metis
  then have "\<not> valid_header ?h (kt_plan demo_tier)"
    by (simp add: valid_header_def)
  then show ?thesis
    using kv_recover_fails_closed [OF demo_begins(1) _ _ demo_crashed_facts(2,1,4) r refl] r by simp
qed

end
