(* ===== verification/KvTierProps.thy ===== *)
theory KvTierProps
  imports KvProps
begin

text \<open>
  Properties of the KV tier, continued: the layout of the file, page transfers, reopening, the
  accounting of requests, the watermark, and a request that the kernel did not accept.
\<close>

section \<open>Layout\<close>

text \<open>C28. The plan of a tier never overflows: for every context of a 32-bit length and every hot-page count
  up to the number of logical pages the budget error is unreachable, and sizes and file length are the
  exact products. The one field that can wrap is the number of hot tokens, at \<open>2 ^ 24\<close> hot pages.\<close>

theorem kv_plan_exact:
  "(\<exists>plan. plan_get max_context hot_pages (Some kAbi) = Inr plan \<and> pl_max_context plan = max_context \<and>
      unat (pl_logical_pages plan) = (unat max_context + 255) div 256 \<and>
      unat (pl_target_payload_bytes plan) = unat (pl_logical_pages plan) * 16 * 524288 \<and>
      unat (pl_dspark_payload_bytes plan) = unat (pl_logical_pages plan) * 5 * 524288 \<and>
      unat (pl_file_bytes plan) = 4096 + unat (pl_logical_pages plan) * 21 * 524288 \<and>
      unat (pl_file_bytes plan) < 2 ^ 63 \<and>
      unat (pl_hot_device_bytes plan) = unat hot_pages * 21 * 524288 \<and>
      unat (pl_hot_tokens plan) = (if unat hot_pages = 2 ^ 24 then 0 else unat hot_pages * 256)) \<longleftrightarrow>
   max_context \<noteq> 0 \<and> unat hot_pages \<le> (unat max_context + 255) div 256"
  (is "?l \<longleftrightarrow> ?r")
proof
  assume ?l
  then show ?r
    using plan_get_values [of max_context hot_pages "Some kAbi"] by (auto simp: page_count_def)
next
  assume r: ?r
  then have "max_context \<noteq> 0" "unat hot_pages \<le> page_count max_context"
    by (simp_all add: page_count_def)
  from plan_get_total [OF this] obtain plan where plan: "plan_get max_context hot_pages (Some kAbi) = Inr plan"
    "pl_max_context plan = max_context" "pl_hot_pages plan = hot_pages" "pl_hot_tokens plan = hot_pages * PAGE_TOKENS"
    "plan_values plan (page_count max_context)"
    by blast
  have small: "page_count max_context \<le> 2 ^ 24"
    by (rule page_count_bounds(1))
  then have "unat hot_pages \<le> 2 ^ 24"
    using r by (simp add: page_count_def)
  then have "unat (hot_pages * PAGE_TOKENS) = (if unat hot_pages = 2 ^ 24 then 0 else unat hot_pages * 256)"
    by (auto simp: PAGE_TOKENS_def unat_word_ariths)
  then show ?l
    using plan small by (intro exI [of _ plan]) (simp add: plan_values_def page_count_def)
qed

text \<open>Every byte behind the header lies in a record.\<close>

lemma record_covers:
  assumes "4096 \<le> b" and "b < 4096 + p * 11010048"
  shows "\<exists>family layer page. known_record family layer \<and> page < p \<and>
    record_offset p family layer page \<le> b \<and> b < record_offset p family layer page + 524288"
proof -
  let ?k = "(b - 4096) div 524288"
  have "b - 4096 < p * 21 * 524288"
    using assms by simp
  then have k: "?k < p * 21"
    by (rule less_mult_imp_div_less)
  then have i: "?k div p < 21"
    by (intro less_mult_imp_div_less) (simp add: mult.commute)
  have page: "?k mod p < p"
    using k by (cases "p = 0") simp_all
  obtain family layer where r: "known_record family layer" "record_index family layer = ?k div p"
  proof (cases "?k div p < 16")
    case True
    then show ?thesis
      using that [of FAMILY_TARGET "of_nat (?k div p)"]
      by (simp add: known_record_def record_index_def kv_constants word_less_nat_alt unat_of_nat take_bit_nat_eq_self)
  next
    case False
    define j where "j = ?k div p - 16"
    have "j < 5" "?k div p = 16 + j"
      using False i by (simp_all add: j_def)
    then show ?thesis
      using that [of FAMILY_DSPARK "of_nat j"]
      by (simp add: known_record_def record_index_def kv_constants word_less_nat_alt unat_of_nat take_bit_nat_eq_self)
  qed
  have "record_offset p family layer (?k mod p) = 4096 + ?k * 524288"
    using r(2) by (simp add: record_offset_def)
  moreover have "?k * 524288 \<le> b - 4096" "b - 4096 < ?k * 524288 + 524288"
    by (simp_all add: div_times_less_eq_dividend dividend_less_div_times)
  ultimately show ?thesis
    using r(1) page assms(1) by (intro exI [of _ family] exI [of _ layer] exI [of _ "?k mod p"]) linarith
qed

lemma page_offset_covers:
  assumes "plan_values plan p" and "4096 \<le> b" and "b < unat (pl_file_bytes plan)"
  shows "\<exists>f l page offset. page_offset_for_plan plan f l page = Inr offset \<and> unat offset \<le> b \<and> b < unat offset + 524288"
proof -
  obtain f l page where r: "known_record f l" "page < p" "record_offset p f l page \<le> b" "b < record_offset p f l page + 524288"
    using record_covers [of b p] assms by (auto simp: plan_values_def)
  have "page < 2 ^ 32"
    using r(2) plan_values_bounds [OF assms(1)] by simp
  then have page: "unat (of_nat page :: u32) = page"
    by (simp add: unat_of_nat take_bit_nat_eq_self)
  then have "page_offset_for_plan plan f l (of_nat page) = Inr (of_nat (record_offset p f l page))"
    using r(1,2) by (simp add: page_offset_value [OF assms(1)])
  moreover from this have "unat (of_nat (record_offset p f l page) :: u64) = record_offset p f l page"
    using page_offset_inr(3) [OF assms(1)] page by fastforce
  ultimately show ?thesis
    using r(3,4) by metis
qed

text \<open>C27. The page records tile the payload: an offset exists exactly for a known family, a layer of it and a
  page of the plan; it is 4096-aligned, the record lies behind the header and inside the file, and the
  records of different pages do not overlap, and every byte behind the header belongs to a record. The
  two functions that compute offsets agree.\<close>

theorem kv_pages_tile:
  assumes "plan_get max_context hot_pages (Some kAbi) = Inr plan" and "kt_plan tier = plan"
  shows "kv_page_offset tier = page_offset_for_plan plan \<and>
    ((\<exists>o1. page_offset_for_plan plan f1 l1 p1 = Inr o1) \<longleftrightarrow>
       (f1 = FAMILY_TARGET \<and> l1 < 16 \<or> f1 = FAMILY_DSPARK \<and> l1 < 5) \<and> p1 < pl_logical_pages plan) \<and>
    (\<forall>o1 o2. page_offset_for_plan plan f1 l1 p1 = Inr o1 \<longrightarrow> page_offset_for_plan plan f2 l2 p2 = Inr o2 \<longrightarrow>
       4096 \<le> unat o1 \<and> 4096 dvd unat o1 \<and>
       unat o1 + unat (family_page_bytes f1) \<le> unat (pl_file_bytes plan) \<and>
       ((f1, l1, p1) \<noteq> (f2, l2, p2) \<longrightarrow>
          unat o1 + unat (family_page_bytes f1) \<le> unat o2 \<or> unat o2 + unat (family_page_bytes f2) \<le> unat o1)) \<and>
    (\<forall>b. 4096 \<le> b \<longrightarrow> b < unat (pl_file_bytes plan) \<longrightarrow>
       (\<exists>f l p offset. page_offset_for_plan plan f l p = Inr offset \<and> unat offset \<le> b \<and> b < unat offset + 524288))"
proof -
  let ?p = "page_count max_context"
  have pv: "plan_values plan ?p"
    using plan_get_values(1) [OF assms(1)] .
  have iff: "(\<exists>o1. page_offset_for_plan plan f1 l1 p1 = Inr o1) \<longleftrightarrow>
      (f1 = FAMILY_TARGET \<and> l1 < 16 \<or> f1 = FAMILY_DSPARK \<and> l1 < 5) \<and> p1 < pl_logical_pages plan"
    using pv by (simp add: page_offset_value [OF pv] known_record_def TARGET_LAYERS_def DSPARK_LAYERS_def
        plan_values_def word_less_nat_alt)
  have two: "4096 \<le> unat o1 \<and> 4096 dvd unat o1 \<and> unat o1 + unat (family_page_bytes f1) \<le> unat (pl_file_bytes plan) \<and>
      ((f1, l1, p1) \<noteq> (f2, l2, p2) \<longrightarrow>
         unat o1 + unat (family_page_bytes f1) \<le> unat o2 \<or> unat o2 + unat (family_page_bytes f2) \<le> unat o1)"
    if o: "page_offset_for_plan plan f1 l1 p1 = Inr o1" "page_offset_for_plan plan f2 l2 p2 = Inr o2" for o1 o2
  proof -
    note a = page_offset_inr [OF pv o(1)] and b = page_offset_inr [OF pv o(2)]
    have "4096 dvd record_offset ?p f1 l1 (unat p1)"
      by (simp add: record_offset_def dvd_mult)
    moreover have "(f1, l1, unat p1) \<noteq> (f2, l2, unat p2)" if "(f1, l1, p1) \<noteq> (f2, l2, p2)"
      using that by (auto simp: word_unat_eq_iff)
    moreover have "unat (pl_file_bytes plan) = 4096 + ?p * 11010048"
      using pv by (simp add: plan_values_def)
    ultimately show ?thesis
      using a b record_in_file [OF a(1,2)] record_disjoint [OF a(1) b(1) a(2) b(2)]
      by (simp add: family_page_bytes_known [OF a(1)] family_page_bytes_known [OF b(1)])
  qed
  show ?thesis
    using iff two page_offset_covers [OF pv] assms(2) by (simp add: kv_page_offset_eq)
qed

theorem kv_pages_tile_witness:
  "unat (projr (page_offset_for_plan demo_plan FAMILY_TARGET 15 0)) + 524288 \<le>
   unat (projr (page_offset_for_plan demo_plan FAMILY_DSPARK 0 0)) \<or>
   unat (projr (page_offset_for_plan demo_plan FAMILY_DSPARK 0 0)) + 524288 \<le>
   unat (projr (page_offset_for_plan demo_plan FAMILY_TARGET 15 0))"
proof -
  have k: "known_record FAMILY_TARGET 15" "known_record FAMILY_DSPARK 0"
    by (simp_all add: known_record_def kv_constants)
  have o: "page_offset_for_plan demo_plan FAMILY_TARGET 15 0 = Inr (of_nat (record_offset 1 FAMILY_TARGET 15 0))"
    "page_offset_for_plan demo_plan FAMILY_DSPARK 0 0 = Inr (of_nat (record_offset 1 FAMILY_DSPARK 0 0))"
    using page_offset_value [OF demo_plan_facts(5)] k by simp_all
  have b: "family_page_bytes FAMILY_TARGET = 524288" "family_page_bytes FAMILY_DSPARK = 524288"
    using family_page_bytes_known k by blast+
  have "kt_plan demo_tier = demo_plan"
    by (simp add: demo_tier_def new_tier_def)
  from kv_pages_tile [OF demo_plan_facts(1) this, of FAMILY_TARGET 15 0 FAMILY_DSPARK 0 0] show ?thesis
    using o b by (simp add: FAMILY_TARGET_def FAMILY_DSPARK_def)
qed

section \<open>Headers and reopening\<close>

text \<open>The header survives the disk: reading back the image of a header gives the header, writing back 4096
  bytes that were read gives the bytes, and the header of a tier is accepted for its plan.\<close>

theorem kv_header_round_trip:
  "(length (dh_magic h) = 8 \<and> length (dh_reserved h) = 3992 \<longrightarrow>
      length (header_image h) = 4096 \<and> header_of (header_image h) = h) \<and>
   (length bs = 4096 \<longrightarrow> header_image (header_of bs) = bs) \<and>
   (committed \<le> pl_max_context plan \<longrightarrow>
      valid_header (header_of (header_image (fill_header plan generation committed))) plan)"
  using header_of_image [of h] length_header_image [of h] header_image_of [of bs]
    valid_fill_header [of committed plan generation] header_of_image [OF wf_fill_header]
  by (auto simp: wf_header_def)

theorem kv_header_round_trip_witness:
  "header_image (header_of (replicate 4096 1)) = replicate 4096 1 \<and>
   valid_header (header_of (header_image (fill_header demo_plan 3 256))) demo_plan"
  using kv_header_round_trip [of undefined "replicate 4096 1" 256 demo_plan 3] demo_plan_facts(3) by simp

lemma exact_pread_error: "exact_pread fd n offset w = (Inl e, w') \<Longrightarrow> e \<noteq> AXIOM_OK"
  using exact_pread_spec [of fd n offset w "Inl e" w'] by auto

lemma read_header_error: "read_header fd w = (Inl e, w') \<Longrightarrow> e \<noteq> AXIOM_OK"
  using exact_pread_error by (fastforce simp: read_header_def split: prod.splits sum.splits bool.splits)

lemma write_header_ok:
  assumes "write_header t w = (AXIOM_OK, w')" and "w_files w (kt_fd t) = Some f"
  shows "quiet (set_bytes (kt_fd t) (write_at 0
    (header_image (fill_header (kt_plan t) (kt_generation t) (kt_committed_tokens t))) (file_bytes w (kt_fd t))) w) w'"
proof -
  obtain w1 w2 where s: "sys_ok w = (True, w1)"
    "exact_pwrite (kt_fd t) (header_image (fill_header (kt_plan t) (kt_generation t) (kt_committed_tokens t))) 0 w1 = (AXIOM_OK, w2)"
    "sys_ok w2 = (True, w')"
    using assms(1) by (auto simp: write_header_def split: prod.splits bool.splits if_splits)
  note q1 = sys_ok_quiet [OF s(1)] and q3 = sys_ok_quiet [OF s(3)]
  have f1: "w_files w1 (kt_fd t) = Some f"
    using assms(2) quiet_files(1) [OF q1] by simp
  show ?thesis
    using quiet_trans [OF quiet_trans [OF quiet_set_bytes [OF q1] exact_pwrite_ok [OF f1 s(2), unfolded quiet_file_bytes [OF q1]]] q3] .
qed

text \<open>What a successful commit or reset leaves in the file.\<close>

lemma committed_file:
  assumes "tier_inv t" and "w_files w (kt_fd t) = Some f" and "p = page_count (pl_max_context (kt_plan t))"
    and "tier_sized p (file_bytes w (kt_fd t))"
    and "kv_commit c t w = (AXIOM_OK, t', w') \<or> kv_reset t w = (AXIOM_OK, t', w')"
  shows "tier_sized p (file_bytes w' (kt_fd t))" and "kt_committed_tokens t' \<le> pl_max_context (kt_plan t)"
    and "field_at 0 4096 (file_bytes w' (kt_fd t)) =
      header_image (fill_header (kt_plan t) (kt_generation t') (kt_committed_tokens t'))"
    and "known_record family layer \<Longrightarrow> page < p \<Longrightarrow>
      page_record p family layer page (file_bytes w' (kt_fd t)) = page_record p family layer page (file_bytes w (kt_fd t))"
proof -
  have t': "write_header t' w = (AXIOM_OK, w')" "kt_fd t' = kt_fd t" "kt_plan t' = kt_plan t"
    "kt_committed_tokens t' \<le> pl_max_context (kt_plan t)"
    using assms(5) by (auto simp: kv_commit_def kv_reset_def Let_def not_less split: if_splits prod.splits)
  let ?h = "fill_header (kt_plan t) (kt_generation t') (kt_committed_tokens t')" and ?old = "file_bytes w (kt_fd t)"
  have f': "w_files w (kt_fd t') = Some f" using assms(2) t'(2) by simp
  have bytes: "file_bytes w' (kt_fd t) = write_at 0 (header_image ?h) ?old"
    using quiet_file_bytes [OF write_header_ok [OF t'(1) f']] file_bytes_set_bytes [OF assms(2)] t'(2,3) by simp
  have len: "length (header_image ?h) = 4096"
    by (rule length_header_image) simp
  have sized: "length ?old = 4096 + p * 11010048"
    using assms(4) by (simp add: tier_sized_def)
  show "tier_sized p (file_bytes w' (kt_fd t))" "field_at 0 4096 (file_bytes w' (kt_fd t)) = header_image ?h"
    using field_write_at_same [of 0 "header_image ?h" ?old] len sized bytes
    by (simp_all add: tier_sized_def length_write_at)
  show "page_record p family layer page (file_bytes w' (kt_fd t)) = page_record p family layer page ?old"
    if "known_record family layer" "page < p"
    unfolding page_record_def bytes using record_in_file [OF that] len sized by (intro field_write_at_other) auto
  show "kt_committed_tokens t' \<le> pl_max_context (kt_plan t)" by (rule t'(4))
qed

text \<open>Opening a file with such a header, under any plan of the same context.\<close>

lemma open_finds:
  assumes "plan_values plan p" and "plan_values plan' p" and "pl_max_context plan' = pl_max_context plan"
    and "committed \<le> pl_max_context plan" and "tier_sized p (file_bytes w fd)"
    and "field_at 0 4096 (file_bytes w fd) = header_image (fill_header plan generation committed)"
    and "open_file (new_tier fd flags plan' depth) w = (rc, t, w')"
  shows "quiet w w'" and "rc = AXIOM_OK \<Longrightarrow>
      t = (new_tier fd flags plan' depth)\<lparr>kt_generation := generation, kt_committed_tokens := committed\<rparr>"
    and "w_answers w = [] \<Longrightarrow> rc = AXIOM_OK \<and> w' = w"
proof -
  let ?n = "new_tier fd flags plan' depth" and ?h = "fill_header plan generation committed"
  have n: "kt_fd ?n = fd" "kt_plan ?n = plan'" by (simp_all add: new_tier_def)
  have bytes: "file_bytes w fd \<noteq> []" "length (file_bytes w fd) = unat (pl_file_bytes plan')" "4096 \<le> length (file_bytes w fd)"
    using assms(2,5) by (auto simp: plan_values_def tier_sized_def)
  have h: "header_of (header_image ?h) = ?h" "valid_header ?h plan'"
    using header_of_image valid_fill_header [OF assms(4)] plan_values_cong(1) [OF assms(1,2) assms(3) [symmetric]] by simp_all
  obtain r w1 where r: "read_header fd w = (r, w1)" by fastforce
  note eq = assms(7) [unfolded open_file_def n open_existing_def r, simplified bytes, simplified]
  show "quiet w w'"
    using eq read_header_quiet [OF r] by (cases r) (auto split: if_splits)
  show "t = ?n\<lparr>kt_generation := generation, kt_committed_tokens := committed\<rparr>" if "rc = AXIOM_OK"
    using eq that r read_header_ok(2) [of fd w _ w1] read_header_error [of fd w _ w1] h assms(6)
    by (cases r) (auto simp: ucast_u32_u64)
  show "rc = AXIOM_OK \<and> w' = w" if "w_answers w = []"
    using eq r read_header_empty [OF that bytes(3)] h assms(6) by auto
qed

lemma ring_create_quiet: "ring_create kn entries w = (r, w') \<Longrightarrow> quiet w w'"
  by (auto simp: ring_create_def dest!: sys_ok_quiet split: if_splits prod.splits bool.splits intro: quiet_trans)

lemma attach_ring_keeps:
  assumes "attach_ring kn t w = (rc, t', w')"
  shows "quiet w w'" and "kt_fd t' = kt_fd t" and "kt_generation t' = kt_generation t" and "kt_plan t' = kt_plan t"
    and "kt_committed_tokens t' = kt_committed_tokens t" and "kt_outstanding t' = kt_outstanding t"
    and "w_answers w = [] \<Longrightarrow> kt_queue_depth t \<noteq> 0 \<Longrightarrow> rc = AXIOM_OK"
  using assms ring_create_quiet
  by (auto simp: attach_ring_def split: prod.splits sum.splits if_splits)
    (auto simp: ring_create_def sys_ok_empty split: if_splits)

lemma open_creat_existing:
  assumes "sys_open_creat False path w = (r, w')" and "w_names w path = Some fd"
  shows "quiet w w'" and "r = None \<or> r = Some fd" and "w_answers w = [] \<Longrightarrow> r = Some fd"
proof -
  obtain a w1 where a: "take_answer w = (a, w1)" by fastforce
  note q = take_answer_quiet [OF a]
  then have "w_names w1 path = Some fd" using assms(2) by (simp add: quiet_iff)
  then show "quiet w w'" "r = None \<or> r = Some fd" "w_answers w = [] \<Longrightarrow> r = Some fd"
    using assms(1) a q by (auto simp: sys_open_creat_def take_answer_empty split: if_splits)
qed

text \<open>The calls of create on a name that exists.\<close>

lemma create_existing:
  assumes "kv_create kn (Some c) w = (r, w')" and "w_names w (kc_path c) = Some fd"
    and "create_arguments (Some c) = Inr (depth, plan)"
    and "\<And>w1 rc t w2. quiet w w1 \<Longrightarrow> open_file (new_tier fd (kc_flags c) plan depth) w1 = (rc, t, w2) \<Longrightarrow>
      quiet w1 w2 \<and> (rc = AXIOM_OK \<longrightarrow> t = opened) \<and> (w_answers w1 = [] \<longrightarrow> rc = AXIOM_OK \<and> w2 = w1)"
  shows "quiet w w'" and "r = Inr t2 \<Longrightarrow> kt_fd t2 = kt_fd opened \<and> kt_generation t2 = kt_generation opened \<and>
      kt_plan t2 = kt_plan opened \<and> kt_committed_tokens t2 = kt_committed_tokens opened \<and> kt_outstanding t2 = kt_outstanding opened"
    and "w_answers w = [] \<Longrightarrow> kt_queue_depth opened \<noteq> 0 \<Longrightarrow> \<exists>t2. r = Inr t2"
proof -
  obtain f w1 where o: "sys_open_creat False (kc_path c) w = (f, w1)" by fastforce
  obtain ok1 w2 where s1: "sys_ok w1 = (ok1, w2)" by fastforce
  obtain ok2 w3 where s2: "sys_ok w2 = (ok2, w3)" by fastforce
  obtain rc t w4 where op: "open_file (new_tier fd (kc_flags c) plan depth) w3 = (rc, t, w4)" by (metis prod.exhaust)
  obtain rc' t' w5 where at: "attach_ring kn t w4 = (rc', t', w5)" by (metis prod.exhaust)
  note e = open_creat_existing [OF o assms(2)] and k = attach_ring_keeps [OF at]
  have q: "quiet w w1" "quiet w w2" "quiet w w3"
    using e(1) sys_ok_quiet [OF s1] sys_ok_quiet [OF s2] quiet_trans by blast+
  note fo = assms(4) [OF q(3) op]
  have q': "quiet w w4" "quiet w w5"
    using quiet_trans [OF q(3)] fo quiet_trans [OF quiet_trans [OF q(3)]] k(1) by blast+
  have eq: "(r, w') = (if f = None then (Inl AXIOM_ERR_IO, w1) else if \<not> ok1 then (Inl AXIOM_ERR_IO, w2)
      else if \<not> ok2 then (Inl AXIOM_ERR_BUDGET, w3) else if rc \<noteq> AXIOM_OK then (Inl rc, w4)
      else if rc' \<noteq> AXIOM_OK then (Inl rc', w5) else (Inr t', w5))"
    using assms(1,3) o e(2) s1 s2 op at by (auto simp: kv_create_def split: bool.splits)
  show "quiet w w'"
    using eq q q' by (auto split: if_splits)
  show "kt_fd t2 = kt_fd opened \<and> kt_generation t2 = kt_generation opened \<and> kt_plan t2 = kt_plan opened \<and>
      kt_committed_tokens t2 = kt_committed_tokens opened \<and> kt_outstanding t2 = kt_outstanding opened" if "r = Inr t2"
    using eq that fo k by (auto split: if_splits)
  show "\<exists>t2. r = Inr t2" if "w_answers w = []" "kt_queue_depth opened \<noteq> 0"
  proof -
    have w: "w1 = w" "f = Some fd" "w2 = w" "ok1" "w3 = w" "ok2"
      using e(3) o s1 s2 that(1) assms(2) by (auto simp: sys_open_creat_def take_answer_empty sys_ok_empty)
    then show ?thesis
      using eq fo k(7) that by auto
  qed
qed

lemma create_arguments_accepts:
  assumes "kc_abi_version c = kAbi" and "kc_path c \<noteq> []" and "kc_flags c AND NOT kKnownFlags = 0"
    and "kc_queue_depth c \<le> kMaximumQueueDepth" and "kc_max_context c \<noteq> 0" and "unat (kc_hot_pages c) \<le> page_count (kc_max_context c)"
  shows "\<exists>depth plan. create_arguments (Some c) = Inr (depth, plan)"
proof -
  obtain plan where plan: "plan_get (kc_max_context c) (kc_hot_pages c) (Some kAbi) = Inr plan"
    "plan_values plan (page_count (kc_max_context c))"
    using plan_get_total [OF assms(5,6)] by blast
  have "unat (pl_file_bytes plan) \<le> 2 ^ 63 - 1"
    using plan(2) page_count_bounds(1) [of "kc_max_context c"] by (simp add: plan_values_def)
  then show ?thesis
    using assms plan(1) by (auto simp: create_arguments_def kDefaultQueueDepth_def kMaximumQueueDepth_def Let_def not_less)
qed

lemma create_arguments_plan:
  "create_arguments (Some c) = Inr (depth, plan) \<Longrightarrow> plan_get (kc_max_context c) (kc_hot_pages c) (Some kAbi) = Inr plan"
  by (auto simp: create_arguments_def Let_def split: if_splits sum.splits)

text \<open>C25. What commit and reset report as done is what a later create finds. After a successful call, create with
  the path of the file and the same context length, for any answers of the system and the kernel, changes
  no file and no name, and the tier it gives has exactly this generation and watermark and no request
  outstanding; when its other arguments are in range and no call fails it does succeed. The commit or reset
  itself leaves every page record as it was.\<close>

theorem kv_commit_reopen:
  assumes "tier_inv t" and "w_files w (kt_fd t) = Some f" and "p = page_count (pl_max_context (kt_plan t))"
    and "tier_sized p (file_bytes w (kt_fd t))"
    and "kv_commit tokens t w = (AXIOM_OK, t', w') \<or> kv_reset t w = (AXIOM_OK, t', w')"
    and "w_names w2 (kc_path c) = Some fd" and "file_bytes w2 fd = file_bytes w' (kt_fd t)"
    and "kc_max_context c = pl_max_context (kt_plan t)" and "kv_create kn (Some c) w2 = (r, w3)"
  shows "w_names w3 = w_names w2 \<and> w_files w3 = w_files w2 \<and>
    (\<forall>t2. r = Inr t2 \<longrightarrow> kt_fd t2 = fd \<and> kt_generation t2 = kt_generation t' \<and>
       kt_committed_tokens t2 = kt_committed_tokens t' \<and> kt_outstanding t2 = 0) \<and>
    (w_answers w2 = [] \<and> kc_abi_version c = kAbi \<and> kc_path c \<noteq> [] \<and> kc_flags c AND NOT kKnownFlags = 0 \<and>
       kc_queue_depth c \<le> kMaximumQueueDepth \<and> unat (kc_hot_pages c) \<le> p \<longrightarrow> (\<exists>t2. r = Inr t2)) \<and>
    (\<forall>family layer page. known_record family layer \<longrightarrow> page < p \<longrightarrow>
       page_record p family layer page (file_bytes w' (kt_fd t)) = page_record p family layer page (file_bytes w (kt_fd t)))"
proof -
  have pv: "plan_values (kt_plan t) p"
    using assms(1,3) wf_plan_values by (simp add: tier_inv_def)
  note saved = committed_file [OF assms(1-5)]
  have opened: "quiet w2 w3 \<and> (\<forall>t2. r = Inr t2 \<longrightarrow> kt_fd t2 = fd \<and> kt_generation t2 = kt_generation t' \<and>
      kt_committed_tokens t2 = kt_committed_tokens t' \<and> kt_outstanding t2 = 0) \<and> (w_answers w2 = [] \<longrightarrow> (\<exists>t2. r = Inr t2))"
    if a: "create_arguments (Some c) = Inr (depth, plan)" for depth plan
  proof -
    have plan: "plan_values plan p" "pl_max_context plan = pl_max_context (kt_plan t)"
      using plan_get_values(1,2) [OF create_arguments_plan [OF a]] assms(3,8) by simp_all
    let ?o = "(new_tier fd (kc_flags c) plan depth)\<lparr>kt_generation := kt_generation t', kt_committed_tokens := kt_committed_tokens t'\<rparr>"
    have fo: "quiet w1 w4 \<and> (rc = AXIOM_OK \<longrightarrow> t1 = ?o) \<and> (w_answers w1 = [] \<longrightarrow> rc = AXIOM_OK \<and> w4 = w1)"
      if q: "quiet w2 w1" and op: "open_file (new_tier fd (kc_flags c) plan depth) w1 = (rc, t1, w4)" for w1 rc t1 w4
      using open_finds [OF pv plan saved(2) _ _ op] saved(1,3) assms(7) quiet_file_bytes [OF q] by auto
    have o: "kt_fd ?o = fd" "kt_generation ?o = kt_generation t'" "kt_committed_tokens ?o = kt_committed_tokens t'"
      "kt_outstanding ?o = 0" "kt_queue_depth ?o \<noteq> 0"
      using create_arguments_ok(2) [OF a] by (simp_all add: new_tier_def)
    show ?thesis
      using create_existing [OF assms(9,6) a fo] o by auto
  qed
  show ?thesis
  proof (cases "create_arguments (Some c)")
    case (Inl e)
    then have "\<not> (kc_abi_version c = kAbi \<and> kc_path c \<noteq> [] \<and> kc_flags c AND NOT kKnownFlags = 0 \<and>
        kc_queue_depth c \<le> kMaximumQueueDepth \<and> unat (kc_hot_pages c) \<le> p)"
      using create_arguments_accepts [of c] assms(3,8) pv by (auto simp: plan_values_def)
    then show ?thesis
      using Inl assms(9) saved(4) by (auto simp: kv_create_def)
  next
    case (Inr a)
    then show ?thesis
      using opened [of "fst a" "snd a"] saved(4) by (auto simp: quiet_iff)
  qed
qed

text \<open>A kernel whose calls succeed, and the arguments that open the demo file.\<close>

definition demo_ring :: "u32 \<Rightarrow> raw_ring" where
  "demo_ring entries = \<lparr>rg_sq_head = 0, rg_sq_tail = 0, rg_sq_mask = entries - 1, rg_sq_entries = entries,
     rg_sq_array = (\<lambda>i. i), rg_sqes = (\<lambda>i. undefined), rg_cq_head = 0, rg_cq_tail = 0, rg_cq_mask = 2 * entries - 1,
     rg_cqes = (\<lambda>i. undefined)\<rparr>"

definition demo_kernel :: kernel where
  "demo_kernel = \<lparr>kn_ring = demo_ring, kn_single_mmap = True,
     kn_submit = (\<lambda>ring. (1, ring\<lparr>rg_sq_head := rg_sq_head ring + 1\<rparr>)), kn_wait = (\<lambda>m ring. ((0, False), ring)),
     kn_poll = (\<lambda>ring. ring)\<rparr>"

definition demo_config :: kv_config where
  "demo_config = \<lparr>kc_abi_version = kAbi, kc_path = ''tier'', kc_max_context = 256, kc_hot_pages = 0, kc_queue_depth = 4, kc_flags = 0\<rparr>"

text \<open>The demo tier commits its whole context.\<close>

lemma demo_commit:
  "\<exists>t' w'. kv_commit 256 demo_tier demo_world = (AXIOM_OK, t', w') \<and> kt_committed_tokens t' = 256 \<and> kt_generation t' = 1 \<and>
     w_names w' ''tier'' = Some 5"
  using demo_plan_facts(3)
  by (simp add: kv_commit_def write_header_def sys_ok_empty exact_pwrite_empty demo_tier_def new_tier_def demo_world_def Let_def
      set_bytes_def)

lemma demo_inv: "tier_inv demo_tier" "kt_fd demo_tier = 5" "kt_plan demo_tier = demo_plan"
  "w_files demo_world 5 = Some \<lparr>df_bytes = demo_file, df_regular = True, df_nlink = 1, df_owned = True\<rparr>"
proof -
  have "tier_inv (new_tier 5 0 demo_plan 4)"
    using demo_plan_facts(2) by (intro tier_inv_new) (simp_all add: kMaximumQueueDepth_def)
  then show "tier_inv demo_tier"
    using demo_plan_facts(3) tier_inv_mark [of "new_tier 5 0 demo_plan 4" 1 1] by (simp add: demo_tier_def new_tier_def)
qed (simp_all add: demo_tier_def new_tier_def demo_world_def)

theorem kv_commit_reopen_witness:
  "\<exists>t' w' t2 w3. kv_commit 256 demo_tier demo_world = (AXIOM_OK, t', w') \<and>
     kv_create demo_kernel (Some demo_config) (w'\<lparr>w_answers := []\<rparr>) = (Inr t2, w3) \<and> w_files w3 = w_files w' \<and>
     kt_generation t2 = 1 \<and> kt_committed_tokens t2 = 256"
proof -
  obtain t' w' where c: "kv_commit 256 demo_tier demo_world = (AXIOM_OK, t', w')" "kt_committed_tokens t' = 256" "kt_generation t' = 1"
    "w_names w' ''tier'' = Some 5"
    using demo_commit by blast
  let ?w = "w'\<lparr>w_answers := []\<rparr>"
  obtain r w3 where o: "kv_create demo_kernel (Some demo_config) ?w = (r, w3)" by fastforce
  have cfg: "kc_path demo_config = ''tier''" "kc_max_context demo_config = 256" "kc_abi_version demo_config = kAbi"
    "kc_flags demo_config AND NOT kKnownFlags = 0" "kc_queue_depth demo_config \<le> kMaximumQueueDepth" "kc_hot_pages demo_config = 0"
    by (simp_all add: demo_config_def kMaximumQueueDepth_def)
  have "file_bytes ?w 5 = file_bytes w' 5"
    by (simp add: file_bytes_def)
  then show ?thesis
    using kv_commit_reopen [of demo_tier demo_world _ 1 256 t' w' ?w demo_config 5 demo_kernel r w3]
      demo_inv demo_plan_facts demo_begins c o cfg by auto
qed

section \<open>Page transfers\<close>

lemma submit_arguments_ok:
  assumes "submit_arguments t r = Inr (expected, offset)" and "plan_values (kt_plan t) p"
  shows "expected = 524288" and "known_record (rq_family r) (rq_layer r)" and "unat (rq_logical_page r) < p"
    and "unat offset = record_offset p (rq_family r) (rq_layer r) (unat (rq_logical_page r))"
    and "rq_operation r = OP_READ \<or> rq_operation r = OP_WRITE"
proof -
  have a: "kv_page_offset t (rq_family r) (rq_layer r) (rq_logical_page r) = Inr offset"
    "expected = family_page_bytes (rq_family r)" "rq_operation r = OP_READ \<or> rq_operation r = OP_WRITE"
    using assms(1) by (auto simp: submit_arguments_def Let_def split: if_splits sum.splits)
  note o = page_offset_inr [OF assms(2) a(1) [unfolded kv_page_offset_eq]]
  show "expected = 524288" "known_record (rq_family r) (rq_layer r)" "unat (rq_logical_page r) < p"
    "unat offset = record_offset p (rq_family r) (rq_layer r) (unat (rq_logical_page r))"
    "rq_operation r = OP_READ \<or> rq_operation r = OP_WRITE"
    using o a family_page_bytes_known [of "rq_family r" "rq_layer r"] by auto
qed

lemma submit_arguments_error: "submit_arguments t r = Inl e \<Longrightarrow> plan_values (kt_plan t) p \<Longrightarrow> e \<noteq> AXIOM_OK"
  by (auto simp: submit_arguments_def Let_def kv_page_offset_eq page_offset_value split: if_splits sum.splits)

text \<open>A call on the synchronous backend moves the page before it returns and queues its completion.\<close>

lemma submit_sync_effect:
  assumes "kv_submit kn r t w = (AXIOM_OK, t', w')" and "kt_ring t = None" and "plan_values (kt_plan t) p"
    and "record = record_offset p (rq_family r) (rq_layer r) (unat (rq_logical_page r))"
  shows "kt_ring t' = None \<and> kt_plan t' = kt_plan t \<and> kt_fd t' = kt_fd t \<and>
    known_record (rq_family r) (rq_layer r) \<and> unat (rq_logical_page r) < p \<and>
    (\<exists>c. kt_sync_completions t' = kt_sync_completions t @ [c] \<and> (sc_result c = AXIOM_OK \<longrightarrow>
      (rq_operation r = OP_READ \<longrightarrow> w_files w' = w_files w \<and>
        w_pages w' = (w_pages w)(rq_host_page r := field_at record 524288 (file_bytes w (kt_fd t)))) \<and>
      (rq_operation r = OP_WRITE \<longrightarrow> w_files w (kt_fd t) \<noteq> None \<longrightarrow>
        quiet (set_bytes (kt_fd t) (write_at record (take 524288 (w_pages w (rq_host_page r))) (file_bytes w (kt_fd t))) w) w')))"
proof -
  obtain expected offset where a: "submit_arguments t r = Inr (expected, offset)"
    using assms(1) submit_arguments_error [of t r AXIOM_OK p] assms(3) by (auto simp: kv_submit_def split: sum.splits)
  note o = submit_arguments_ok [OF a assms(3)]
  let ?t = "if rq_operation r = OP_READ then t\<lparr>kt_submitted_reads := kt_submitted_reads t + 1\<rparr>
    else t\<lparr>kt_submitted_writes := kt_submitted_writes t + 1\<rparr>"
  have s: "submit_sync r expected offset ?t w = (AXIOM_OK, t', w')"
    using assms(1,2) a by (auto simp: kv_submit_def Let_def split: if_splits kv_backend.splits)
  have u: "unat expected = 524288" "unat offset = record"
    using o assms(4) by simp_all
  show ?thesis
  proof (cases "rq_operation r = OP_READ")
    case True
    obtain b w1 where b: "exact_pread (kt_fd t) 524288 record w = (b, w1)" by fastforce
    show ?thesis
    proof (cases b)
      case (Inl e)
      then show ?thesis
        using s True b u o(2,3) assms(2) exact_pread_error [of _ _ _ w e w1]
        by (auto simp: submit_sync_def OP_READ_def OP_WRITE_def Let_def)
    next
      case (Inr bs)
      then show ?thesis
        using s True b u o(2,3) assms(2) exact_pread_ok [OF b [unfolded Inr]]
        by (auto simp: submit_sync_def OP_READ_def OP_WRITE_def quiet_iff)
    qed
  next
    case False
    obtain e w1 where e: "exact_pwrite (kt_fd t) (take 524288 (w_pages w (rq_host_page r))) record w = (e, w1)" by fastforce
    then show ?thesis
      using s False u o(2,3) assms(2) exact_pwrite_ok [of w "kt_fd t" _ _ _ w1]
      by (auto simp: submit_sync_def)
  qed
qed

lemma reap_sync_results:
  "reap_sync n t = (cs, t') \<Longrightarrow> map cp_result cs = map sc_result (take n (kt_sync_completions t))"
proof (induction n arbitrary: t cs t')
  case (Suc n)
  then show ?case
    by (cases "kt_sync_completions t") (auto simp: reap_sync_one_def Let_def split: prod.splits dest!: Suc.IH)
qed simp

lemma wait_sync_results:
  assumes "kv_wait kn m c t = (AXIOM_OK, cs, t')" and "kt_ring t = None"
  shows "map cp_result cs = map sc_result (take (unat c) (kt_sync_completions t))"
  using assms reap_sync_results
  by (auto simp: kv_wait_def Let_def split: if_splits kv_backend.splits prod.splits)

text \<open>C23. A page written is the page read. On an idle tier without a ring, let a write of a host page and then a
  read be submitted and let wait report both completions as successful, for any answers of the system
  (short transfers and interruptions included). The host page of the read then holds the written bytes
  when both requests name the same record, and otherwise what the file held at its record before the
  write; no other host page changes.\<close>

theorem kv_write_read:
  assumes "tier_inv t" and "kt_ring t = None" and "kt_outstanding t = 0" and "w_files w (kt_fd t) = Some f"
    and "p = page_count (pl_max_context (kt_plan t))" and "tier_sized p (file_bytes w (kt_fd t))"
    and "length (w_pages w (rq_host_page r1)) = 524288"
    and "rq_operation r1 = OP_WRITE" and "kv_submit kn r1 t w = (AXIOM_OK, t1, w1)"
    and "rq_operation r2 = OP_READ" and "kv_submit kn r2 t1 w1 = (AXIOM_OK, t2, w2)"
    and "kv_wait kn 2 2 t2 = (AXIOM_OK, cs, t3)" and "map cp_result cs = [AXIOM_OK, AXIOM_OK]"
  shows "w_pages w2 = (w_pages w)(rq_host_page r2 :=
    (if (rq_family r1, rq_layer r1, rq_logical_page r1) = (rq_family r2, rq_layer r2, rq_logical_page r2)
     then w_pages w (rq_host_page r1)
     else page_record p (rq_family r2) (rq_layer r2) (unat (rq_logical_page r2)) (file_bytes w (kt_fd t))))"
proof -
  have pv: "plan_values (kt_plan t) p"
    using assms(1,5) wf_plan_values by (simp add: tier_inv_def)
  have idle: "kt_sync_completions t = []"
    using assms(1-3) by (simp add: tier_inv_def uses_ring_def)
  let ?o = "\<lambda>r. record_offset p (rq_family r) (rq_layer r) (unat (rq_logical_page r))"
  let ?old = "file_bytes w (kt_fd t)" and ?page = "w_pages w (rq_host_page r1)"
  obtain c1 where e1: "kt_ring t1 = None" "kt_plan t1 = kt_plan t" "kt_fd t1 = kt_fd t"
    "known_record (rq_family r1) (rq_layer r1)" "unat (rq_logical_page r1) < p" "kt_sync_completions t1 = [c1]"
    "sc_result c1 = AXIOM_OK \<Longrightarrow> quiet (set_bytes (kt_fd t) (write_at (?o r1) ?page ?old) w) w1"
    using submit_sync_effect [OF assms(9,2) pv refl] assms(4,7,8) idle by auto
  have pv1: "plan_values (kt_plan t1) p"
    using pv e1(2) by simp
  obtain c2 where e2: "kt_ring t2 = None" "known_record (rq_family r2) (rq_layer r2)" "unat (rq_logical_page r2) < p"
    "kt_sync_completions t2 = [c1, c2]" "sc_result c2 = AXIOM_OK \<Longrightarrow>
       w_pages w2 = (w_pages w1)(rq_host_page r2 := field_at (?o r2) 524288 (file_bytes w1 (kt_fd t)))"
    using submit_sync_effect [OF assms(11) e1(1) pv1 refl] assms(10) e1(3,6) by auto
  have res: "sc_result c1 = AXIOM_OK" "sc_result c2 = AXIOM_OK"
    using wait_sync_results [OF assms(12) e2(1)] assms(13) e2(4) by simp_all
  note q = e1(7) [OF res(1)]
  have bytes: "file_bytes w1 (kt_fd t) = write_at (?o r1) ?page ?old" and pages: "w_pages w1 = w_pages w"
    using quiet_file_bytes [OF q] file_bytes_set_bytes [OF assms(4)] q by (simp_all add: quiet_iff)
  note in1 = record_in_file [OF e1(4,5)] and in2 = record_in_file [OF e2(2,3)]
  have same: "field_at (?o r1) 524288 (write_at (?o r1) ?page ?old) = ?page"
    using field_write_at_same [of "?o r1" ?page ?old] in1(2) assms(6,7) by (simp add: tier_sized_def)
  have other: "field_at (?o r2) 524288 (write_at (?o r1) ?page ?old) = page_record p (rq_family r2) (rq_layer r2) (unat (rq_logical_page r2)) ?old"
    if "(rq_family r1, rq_layer r1, rq_logical_page r1) \<noteq> (rq_family r2, rq_layer r2, rq_logical_page r2)"
    unfolding page_record_def using record_disjoint [OF e1(4) e2(2) e1(5) e2(3)] that in1(2) in2(2) assms(6,7)
    by (intro field_write_at_other) (auto simp: tier_sized_def word_unat_eq_iff)
  show ?thesis
    using e2(5) [OF res(2)] bytes pages same other by auto
qed

text \<open>A write of one host page and a read of the same record into another one.\<close>

definition demo_request :: "u32 \<Rightarrow> u64 \<Rightarrow> kv_request" where
  "demo_request operation host = \<lparr>rq_abi_version = kAbi, rq_operation = operation, rq_family = FAMILY_DSPARK,
     rq_layer = 4, rq_logical_page = 0, rq_host_page = host, rq_host_page_bytes = 524288, rq_user_data = 9\<rparr>"

lemma page_fits_length: "\<not> (ucast (- 1 :: u32) :: u64) < 524288"
  by (simp add: word_less_nat_alt unsigned_minus_1_eq_mask mask_eq_exp_minus_1)

lemma demo_arguments:
  assumes "kt_plan t = demo_plan" and "operation = OP_READ \<or> operation = OP_WRITE" and "host = 4096 \<or> host = 8192"
  shows "\<exists>offset. submit_arguments t (demo_request operation host) = Inr (524288, offset)"
  using assms demo_plan_facts(5)
  by (auto simp: submit_arguments_def demo_request_def aligned_4096_def kv_page_offset_eq page_offset_value known_record_def
      family_page_bytes_def kv_constants HEADER_BYTES_def page_fits_length Let_def)

lemma submit_sync_empty:
  assumes "submit_arguments t r = Inr (524288, offset)" and "kt_ring t = None" and "kt_outstanding t < kt_queue_depth t"
    and "w_answers w = []" and "plan_values (kt_plan t) p" and "tier_sized p (file_bytes w (kt_fd t))"
  shows "\<exists>t' w' c. kv_submit kn r t w = (AXIOM_OK, t', w') \<and> kt_sync_completions t' = kt_sync_completions t @ [c] \<and>
    sc_result c = AXIOM_OK \<and> kt_outstanding t' = kt_outstanding t + 1 \<and> kt_queue_depth t' = kt_queue_depth t \<and>
    kt_ring t' = None \<and> kt_plan t' = kt_plan t \<and> kt_fd t' = kt_fd t \<and> w_answers w' = [] \<and>
    tier_sized p (file_bytes w' (kt_fd t))"
proof -
  note o = submit_arguments_ok [OF assms(1,5)]
  have fits: "unat offset + 524288 \<le> length (file_bytes w (kt_fd t))"
    using record_in_file(2) [OF o(2,3)] o(4) assms(6) by (simp add: tier_sized_def)
  let ?w = "set_bytes (kt_fd t) (write_at (unat offset) (take 524288 (w_pages w (rq_host_page r))) (file_bytes w (kt_fd t))) w"
  have "w_answers ?w = []" "tier_sized p (file_bytes ?w (kt_fd t))"
    using assms(4,6) fits
    by (auto simp: set_bytes_def file_bytes_def tier_sized_def length_write_at_any split: option.splits)
  then show ?thesis
    using assms(1-4,6) o(5) fits
    by (auto simp: kv_submit_def submit_sync_def exact_pread_empty exact_pwrite_empty not_le Let_def file_bytes_def
        split: kv_backend.split)
qed

lemma wait_sync_two:
  assumes "kt_ring t = None" and "kt_outstanding t = 2" and "kt_sync_completions t = [c1, c2]"
  shows "\<exists>cs t'. kv_wait kn 2 2 t = (AXIOM_OK, cs, t') \<and> map cp_result cs = [sc_result c1, sc_result c2]"
proof -
  have u: "unat (2 :: u32) = Suc (Suc 0)" by simp
  have "\<exists>cs t'. reap_sync (Suc (Suc 0)) t = (cs, t') \<and> length cs = 2 \<and> map cp_result cs = [sc_result c1, sc_result c2]"
    using assms(3) by (simp add: reap_sync_one_def)
  then show ?thesis
    using assms(1,2) unfolding kv_wait_def Let_def u by (auto split: kv_backend.split)
qed

text \<open>The kernel of the examples: an empty ring, and submission of every entry.\<close>

theorem kv_write_read_witness:
  "\<exists>t1 w1 t2 w2. kv_submit demo_kernel (demo_request OP_WRITE 4096) demo_tier demo_world = (AXIOM_OK, t1, w1) \<and>
     kv_submit demo_kernel (demo_request OP_READ 8192) t1 w1 = (AXIOM_OK, t2, w2) \<and> w_pages w2 8192 = w_pages demo_world 4096"
proof -
  let ?r1 = "demo_request OP_WRITE 4096" and ?r2 = "demo_request OP_READ 8192"
  have d: "kt_ring demo_tier = None" "kt_outstanding demo_tier = 0" "kt_queue_depth demo_tier = 4" "kt_sync_completions demo_tier = []"
    "w_answers demo_world = []" "plan_values (kt_plan demo_tier) 1" "tier_sized 1 (file_bytes demo_world (kt_fd demo_tier))"
    using demo_begins demo_plan_facts(5) demo_inv(2,3) by (simp_all add: demo_tier_def new_tier_def demo_world_def)
  obtain o1 where a1: "submit_arguments demo_tier ?r1 = Inr (524288, o1)"
    using demo_arguments demo_inv(3) by blast
  obtain t1 w1 c1 where s1: "kv_submit demo_kernel ?r1 demo_tier demo_world = (AXIOM_OK, t1, w1)"
    "kt_sync_completions t1 = [c1]" "sc_result c1 = AXIOM_OK" "kt_outstanding t1 = 1" "kt_queue_depth t1 = 4" "w_answers w1 = []"
    "kt_ring t1 = None" "kt_plan t1 = demo_plan" "kt_fd t1 = 5" "tier_sized 1 (file_bytes w1 5)"
    using submit_sync_empty [OF a1 d(1) _ d(5,6,7), of demo_kernel] d(2-4) demo_inv(2,3) by auto
  have wr: "rq_operation ?r1 = OP_WRITE" "rq_operation ?r2 = OP_READ" "length (w_pages demo_world 4096) = 524288"
    "rq_host_page ?r1 = 4096" "rq_host_page ?r2 = 8192"
    by (simp_all add: demo_request_def demo_world_def)
  obtain o2 where a2: "submit_arguments t1 ?r2 = Inr (524288, o2)"
    using demo_arguments s1(8) by blast
  obtain t2 w2 c2 where s2: "kv_submit demo_kernel ?r2 t1 w1 = (AXIOM_OK, t2, w2)"
    "kt_sync_completions t2 = [c1, c2]" "sc_result c2 = AXIOM_OK" "kt_outstanding t2 = 2" "kt_ring t2 = None"
    using submit_sync_empty [OF a2 s1(7) _ s1(6), of 1 demo_kernel] s1(2-5,8-10) demo_plan_facts(5) by auto
  obtain cs t3 where w: "kv_wait demo_kernel 2 2 t2 = (AXIOM_OK, cs, t3)" "map cp_result cs = [AXIOM_OK, AXIOM_OK]"
    using wait_sync_two [OF s2(5,4,2), of demo_kernel] s1(3) s2(3) by auto
  show ?thesis
    using kv_write_read [OF demo_inv(1) d(1,2) _ _ d(7) _ wr(1) s1(1) wr(2) s2(1) w] demo_inv demo_plan_facts s1(1) s2(1) wr
    by (auto simp: demo_request_def)
qed

section \<open>Runs of a tier\<close>


text \<open>A tier that create opens on the demo file, on a ring.\<close>

definition ring_demo_tier :: kv_tier where
  "ring_demo_tier = demo_tier\<lparr>kt_ring := Some (demo_ring 4), kt_backend := BACKEND_IO_URING_DIRECT\<rparr>"

lemma demo_opened: "kv_create demo_kernel (Some demo_config) demo_world = (Inr ring_demo_tier, demo_world)"
proof -
  have size: "unat (pl_file_bytes demo_plan) = 11014144"
    using demo_plan_facts(5) by (auto simp: plan_values_def)
  have args: "create_arguments (Some demo_config) = Inr (4, demo_plan)"
    using demo_plan_facts(1) size
    by (simp add: create_arguments_def demo_config_def kMaximumQueueDepth_def)
  have f: "demo_file \<noteq> []" "length demo_file = unat (pl_file_bytes demo_plan)"
    "header_of (field_at 0 4096 demo_file) = fill_header demo_plan 1 1"
    using demo_begins(1,2) size length_header_image [of "fill_header demo_plan 1 1"]
    by (auto simp: tier_sized_def demo_file_def field_at_def header_of_image)
  have w: "w_answers demo_world = []" "w_names demo_world ''tier'' = Some 5"
    by (simp_all add: demo_world_def)
  have header: "read_header 5 demo_world = (Inr (fill_header demo_plan 1 1), demo_world)"
    using read_header_empty [OF w(1), of 5] f demo_begins(3) size by simp
  have "open_file (new_tier 5 0 demo_plan 4) demo_world = (AXIOM_OK, demo_tier, demo_world)"
    using f demo_begins(3) header valid_fill_header [of 1 demo_plan 1] demo_plan_facts(3)
    by (simp add: open_file_def open_existing_def new_tier_def demo_tier_def fill_header_def)
  moreover have "kc_path demo_config = ''tier''" "kc_flags demo_config = 0"
    by (simp_all add: demo_config_def)
  moreover have "attach_ring demo_kernel demo_tier demo_world =
      (AXIOM_OK, demo_tier\<lparr>kt_ring := Some (demo_ring 4), kt_backend := BACKEND_IO_URING_DIRECT\<rparr>, demo_world)"
    using w(1) by (simp add: attach_ring_def ring_create_def sys_ok_empty demo_kernel_def demo_tier_def new_tier_def)
  ultimately show ?thesis
    using args w by (simp add: kv_create_def sys_open_creat_def take_answer_empty sys_ok_empty ring_demo_tier_def)
qed






section \<open>A failed submission\<close>

lemma next_index_differs:
  fixes x mask :: u32
  assumes "mask AND 1 = 1"
  shows "(x + 1) AND mask \<noteq> x AND mask"
proof
  assume eq: "(x + 1) AND mask = x AND mask"
  have "(x + 1) AND (mask AND 1) = x AND (mask AND 1)"
    using arg_cong [OF eq, of "\<lambda>y. y AND 1"] by (simp only: and.assoc)
  then have "(x + 1) mod 2 = x mod 2"
    unfolding assms by (simp add: and_one_eq)
  then show False
    by (metis even_iff_mod_2_eq_zero even_plus_one_iff)
qed

text \<open>C29. After a failed \<open>io_uring_enter\<close> the next submission runs the wrong request. On an idle ring with room for two
  entries let the kernel refuse the first call and leave the ring alone, as documented for an error return,
  and consume one entry on the second. The first request fails with an I/O error, the second is
  reported as submitted, but the entry at the head of the queue, the one that the kernel consumes, is
  that of the first request, and its completion, whatever it is, is reported with the user data and the
  operation of the second.\<close>

theorem kv_submit_stale_entry:
  assumes "tier_inv t" and "kt_backend t = BACKEND_IO_URING_DIRECT" and "kt_ring t = Some ring" and "kt_outstanding t = 0"
    and "rg_sq_head ring = rg_sq_tail ring" and "rg_sq_entries ring \<ge> 2" and "rg_sq_mask ring AND 1 = 1"
    and "submit_arguments t r1 = Inr (e1, o1)" and "submit_arguments t r2 = Inr (e2, o2)"
    and "\<And>rg. kn_submit refusing rg = (- 1, rg)"
    and "\<And>rg. kn_submit consuming rg = (1, rg\<lparr>rg_sq_head := rg_sq_head rg + 1\<rparr>)"
  shows "\<exists>t1 t2 after entry. kv_submit refusing r1 t w = (AXIOM_ERR_IO, t1, w) \<and>
    kv_submit consuming r2 t1 w = (AXIOM_OK, t2, w) \<and> kt_ring t2 = Some after \<and>
    rg_sq_head after = rg_sq_head ring + 1 \<and>
    entry = rg_sqes after (rg_sq_array after (rg_sq_head ring AND rg_sq_mask ring)) \<and>
    sqe_addr entry = rq_host_page r1 \<and> sqe_off entry = o1 \<and>
    (\<forall>res. \<exists>c t3. reap_cqe \<lparr>cqe_user_data = sqe_user_data entry, cqe_res = res\<rparr> t2 = Some (c, t3) \<and>
      cp_user_data c = rq_user_data r2 \<and> cp_operation c = rq_operation r2)"
proof -
  obtain s0 rest where slots: "kt_slots t = s0 # rest" "\<not> ps_active s0"
    using assms(1-4) by (cases "kt_slots t") (auto simp: tier_inv_def uses_ring_def active_slots_def unat_eq_0 split: if_splits)
  have depth: "\<not> kt_outstanding t \<ge> kt_queue_depth t" "kt_queue_depth t \<noteq> 0"
    using assms(1,4) by (simp_all add: tier_inv_def)
  have room: "\<not> rg_sq_entries ring \<le> 0" "\<not> rg_sq_entries ring \<le> 1"
    using assms(6) by (simp_all add: word_le_nat_alt)
  note next_index = next_index_differs [OF assms(7), of "rg_sq_tail ring"]
  define ring1 where "ring1 = ring_push (request_sqe (kt_fd t) r1 e1 o1 0) ring"
  have r1: "rg_sq_tail ring1 - rg_sq_head ring1 = 1" "rg_sq_entries ring1 = rg_sq_entries ring"
    "rg_sq_head ring1 = rg_sq_tail ring" "rg_sq_tail ring1 = rg_sq_tail ring + 1" "rg_sq_mask ring1 = rg_sq_mask ring"
    "rg_sq_array ring1 (rg_sq_tail ring AND rg_sq_mask ring) = rg_sq_tail ring AND rg_sq_mask ring"
    "rg_sqes ring1 (rg_sq_tail ring AND rg_sq_mask ring) = request_sqe (kt_fd t) r1 e1 o1 0"
    using assms(5) by (simp_all add: ring1_def ring_push_def Let_def)
  obtain t1 where t1: "kv_submit refusing r1 t w = (AXIOM_ERR_IO, t1, w)" "kt_ring t1 = Some ring1"
    "kt_slots t1 = free_slot # rest" "kt_backend t1 = BACKEND_IO_URING_DIRECT" "kt_outstanding t1 = 0"
    "kt_queue_depth t1 = kt_queue_depth t" "kt_plan t1 = kt_plan t"
    using assms(2-5,8,10) slots depth room
    by (cases "rq_operation r1 = OP_READ") (auto simp: kv_submit_def submit_ring_def Let_def ring1_def)
  have a2: "submit_arguments t1 r2 = Inr (e2, o2)"
    using assms(9) unfolding submit_arguments_def kv_page_offset_eq t1(7) .
  define ring2 where "ring2 = ring_push (request_sqe (kt_fd t1) r2 e2 o2 0) ring1"
  have r2: "rg_sqes ring2 (rg_sq_array ring2 (rg_sq_tail ring AND rg_sq_mask ring)) = request_sqe (kt_fd t) r1 e1 o1 0"
    "rg_sq_head ring2 = rg_sq_tail ring"
    using r1 next_index by (simp_all add: ring2_def ring_push_def Let_def)
  obtain t2 where t2: "kv_submit consuming r2 t1 w = (AXIOM_OK, t2, w)" "kt_ring t2 = Some (ring2\<lparr>rg_sq_head := rg_sq_tail ring + 1\<rparr>)"
    "kt_slots t2 = \<lparr>ps_active = True, ps_operation = rq_operation r2, ps_expected_bytes = e2, ps_user_data = rq_user_data r2\<rparr> # rest"
    using t1 a2 depth room r1 r2(2) assms(11)
    by (cases "rq_operation r2 = OP_READ") (auto simp: kv_submit_def submit_ring_def Let_def ring2_def free_slot_def)
  have "\<exists>c t3. reap_cqe \<lparr>cqe_user_data = 1, cqe_res = res\<rparr> t2 = Some (c, t3) \<and> cp_user_data c = rq_user_data r2 \<and>
      cp_operation c = rq_operation r2" for res
    using t2(3) by (simp add: reap_cqe_def Let_def)
  then show ?thesis
    using t1(1) t2(1,2) r2 assms(5) by (simp add: request_sqe_def)
qed

text \<open>Two requests for different records on the ring of the demo tier.\<close>

theorem kv_submit_stale_entry_witness:
  "\<exists>t1 t2. kv_submit (demo_kernel\<lparr>kn_submit := (\<lambda>rg. (- 1, rg))\<rparr>) (demo_request OP_WRITE 4096) ring_demo_tier demo_world =
       (AXIOM_ERR_IO, t1, demo_world) \<and>
     kv_submit demo_kernel (demo_request OP_READ 8192) t1 demo_world = (AXIOM_OK, t2, demo_world)"
proof -
  have t: "tier_inv ring_demo_tier" "kt_plan ring_demo_tier = demo_plan"
    using kv_create_inv [OF demo_opened] by (simp_all add: ring_demo_tier_def demo_tier_def new_tier_def)
  obtain o1 o2 where a: "submit_arguments ring_demo_tier (demo_request OP_WRITE 4096) = Inr (524288, o1)"
    "submit_arguments ring_demo_tier (demo_request OP_READ 8192) = Inr (524288, o2)"
    using demo_arguments t(2) by metis
  show ?thesis
    using kv_submit_stale_entry [OF t(1) _ _ _ _ _ _ a, of "demo_ring 4" "demo_kernel\<lparr>kn_submit := (\<lambda>rg. (- 1, rg))\<rparr>" demo_kernel demo_world]
    by (auto simp: ring_demo_tier_def demo_ring_def demo_kernel_def demo_tier_def new_tier_def)
qed

end
