(* ===== verification/RequestProgress.thy ===== *)
theory RequestProgress
  imports Bytes
begin

text \<open>
  The progress of one request (\<open>include/axiom/qwen38_request_progress.hpp\<close>): set-up, prefill and
  decode of one or more passes, with its invariant along every sequence of calls. Each method holds
  the mutex for its whole body, so a call is one step. Times are nanosecond counts of the steady clock.
\<close>

section \<open>The class\<close>

datatype progress_phase = session_setup | prefill_phase | decode_phase

text \<open>The snapshot that \<open>read\<close> copies, without the two durations it computes.\<close>

record progress_value =
  pv_stage :: progress_phase
  pv_cached_tokens :: u32
  pv_prompt_tokens :: u32
  pv_processed_tokens :: u32
  pv_generated_tokens :: u32
  pv_pass :: u32
  pv_revision :: u64

record request_progress =
  rp_value :: progress_value
  rp_pass_generated :: u32
  rp_started :: int
  rp_advanced :: int

definition progress_new :: "int \<Rightarrow> request_progress" where
  "progress_new now =
     \<lparr>rp_value = \<lparr>pv_stage = session_setup, pv_cached_tokens = 0, pv_prompt_tokens = 0, pv_processed_tokens = 0,
        pv_generated_tokens = 0, pv_pass = 1, pv_revision = 0\<rparr>,
      rp_pass_generated = 0, rp_started = now, rp_advanced = now\<rparr>"

definition progress_advance :: "int \<Rightarrow> request_progress \<Rightarrow> request_progress" where
  "progress_advance now p =
     p\<lparr>rp_value := (rp_value p)\<lparr>pv_revision := pv_revision (rp_value p) + 1\<rparr>, rp_advanced := now\<rparr>"

definition progress_prefill :: "u32 \<Rightarrow> u32 \<Rightarrow> u32 \<Rightarrow> int \<Rightarrow> request_progress \<Rightarrow> bool \<times> request_progress" where
  "progress_prefill cached position prompt now p =
     (if cached > position \<or> position > prompt then (False, p)
      else let v = rp_value p in
        if pv_stage v = decode_phase then (False, p)
        else let done = position - cached in
          if pv_stage v = prefill_phase \<and>
             (cached \<noteq> pv_cached_tokens v \<or> prompt \<noteq> pv_prompt_tokens v \<or> done < pv_processed_tokens v)
          then (False, p)
          else if pv_stage v \<noteq> prefill_phase \<or> done \<noteq> pv_processed_tokens v
          then (True, progress_advance now (p\<lparr>rp_value := v\<lparr>pv_stage := prefill_phase, pv_cached_tokens := cached,
                  pv_prompt_tokens := prompt, pv_processed_tokens := done\<rparr>\<rparr>))
          else (True, p))"

definition progress_decode :: "u32 \<Rightarrow> int \<Rightarrow> request_progress \<Rightarrow> bool \<times> request_progress" where
  "progress_decode generated now p =
     (let v = rp_value p in
      if pv_stage v = session_setup \<or> pv_processed_tokens v \<noteq> pv_prompt_tokens v - pv_cached_tokens v \<or>
         generated < rp_pass_generated p then (False, p)
      else if pv_stage v \<noteq> decode_phase \<or> generated \<noteq> rp_pass_generated p
      then (True, progress_advance now (p\<lparr>rp_value := v\<lparr>pv_stage := decode_phase,
              pv_generated_tokens := pv_generated_tokens v + (generated - rp_pass_generated p)\<rparr>,
              rp_pass_generated := generated\<rparr>))
      else (True, p))"

definition progress_next_pass :: "int \<Rightarrow> request_progress \<Rightarrow> bool \<times> request_progress" where
  "progress_next_pass now p =
     (let v = rp_value p in
      if pv_stage v \<noteq> decode_phase then (False, p)
      else (True, progress_advance now (p\<lparr>rp_value := v\<lparr>pv_stage := session_setup, pv_cached_tokens := 0,
              pv_prompt_tokens := 0, pv_processed_tokens := 0, pv_pass := pv_pass v + 1\<rparr>,
              rp_pass_generated := 0\<rparr>)))"

text \<open>\<open>read\<close>: the value with the time since the start and since the last advance, never negative.\<close>

definition progress_read :: "int \<Rightarrow> request_progress \<Rightarrow> progress_value \<times> int \<times> int" where
  "progress_read now p = (rp_value p, max 0 (now - rp_started p), max 0 (now - rp_advanced p))"

section \<open>Calls and runs\<close>

datatype progress_call = call_prefill u32 u32 u32 | call_decode u32 | call_next_pass

fun progress_apply :: "progress_call \<Rightarrow> int \<Rightarrow> request_progress \<Rightarrow> bool \<times> request_progress" where
  "progress_apply (call_prefill cached position prompt) now p = progress_prefill cached position prompt now p"
| "progress_apply (call_decode generated) now p = progress_decode generated now p"
| "progress_apply call_next_pass now p = progress_next_pass now p"

inductive progress_step :: "request_progress \<Rightarrow> request_progress \<Rightarrow> bool" where
  progress_call: "progress_apply c now p = (ok, p') \<Longrightarrow> progress_step p p'"

inductive_cases progress_stepE: "progress_step p p'"

definition progress_opened :: "request_progress \<Rightarrow> bool" where
  "progress_opened p \<longleftrightarrow> (\<exists>now. p = progress_new now)"

definition progress_inv :: "request_progress \<Rightarrow> bool" where
  "progress_inv p \<longleftrightarrow> (let v = rp_value p in
     unat (pv_cached_tokens v) + unat (pv_processed_tokens v) \<le> unat (pv_prompt_tokens v) \<and>
     (pv_stage v = session_setup \<longrightarrow> pv_prompt_tokens v = 0) \<and>
     (pv_stage v \<noteq> decode_phase \<longrightarrow> rp_pass_generated p = 0) \<and>
     (pv_stage v = decode_phase \<longrightarrow> unat (pv_cached_tokens v) + unat (pv_processed_tokens v) = unat (pv_prompt_tokens v)))"

lemma unat_minus_le: "b \<le> a \<Longrightarrow> unat (a - b) = unat a - unat b" for a b :: u32
  by (rule unat_sub)

lemma progress_inv_new: "progress_inv (progress_new now)"
  by (simp add: progress_inv_def progress_new_def)

lemma progress_inv_apply:
  assumes "progress_inv p" and "progress_apply c now p = (ok, p')"
  shows "progress_inv p'"
proof (cases c)
  case (call_prefill cached position prompt)
  have "cached \<le> position \<Longrightarrow> position \<le> prompt \<Longrightarrow> unat cached + unat (position - cached) \<le> unat prompt"
    by (simp add: unat_minus_le word_le_nat_alt)
  then show ?thesis
    using assms call_prefill
    by (auto simp: progress_prefill_def progress_inv_def progress_advance_def Let_def not_less split: if_splits)
next
  case (call_decode generated)
  have "pv_cached_tokens (rp_value p) \<le> pv_prompt_tokens (rp_value p)"
    using assms(1) by (simp add: progress_inv_def Let_def word_le_nat_alt)
  then have "unat (pv_prompt_tokens (rp_value p) - pv_cached_tokens (rp_value p)) =
      unat (pv_prompt_tokens (rp_value p)) - unat (pv_cached_tokens (rp_value p))"
    "unat (pv_cached_tokens (rp_value p)) \<le> unat (pv_prompt_tokens (rp_value p))"
    by (simp_all add: unat_minus_le word_le_nat_alt)
  then show ?thesis
    using assms call_decode
    by (auto simp: progress_decode_def progress_inv_def progress_advance_def Let_def split: if_splits)
next
  case call_next_pass
  then show ?thesis
    using assms by (auto simp: progress_next_pass_def progress_inv_def progress_advance_def Let_def split: if_splits)
qed

interpretation progress_runs: invariant_system progress_opened progress_step progress_inv
  by unfold_locales (auto simp: progress_opened_def intro: progress_inv_new progress_inv_apply elim: progress_stepE)

section \<open>What an accepted call changes\<close>

lemma prefill_cases:
  assumes "progress_prefill cached position prompt now p = (ok, p')" and "v = rp_value p"
  shows "p' = p \<or> pv_stage v \<noteq> decode_phase \<and>
    (pv_stage v = prefill_phase \<longrightarrow> prompt = pv_prompt_tokens v \<and> pv_processed_tokens v \<le> position - cached) \<and>
    p' = progress_advance now (p\<lparr>rp_value := v\<lparr>pv_stage := prefill_phase, pv_cached_tokens := cached,
      pv_prompt_tokens := prompt, pv_processed_tokens := position - cached\<rparr>\<rparr>)"
  using assms by (auto simp: progress_prefill_def Let_def split: if_splits)

lemma decode_cases:
  assumes "progress_decode generated now p = (ok, p')" and "v = rp_value p"
  shows "p' = p \<or> pv_stage v \<noteq> session_setup \<and> rp_pass_generated p \<le> generated \<and>
    p' = progress_advance now (p\<lparr>rp_value := v\<lparr>pv_stage := decode_phase,
      pv_generated_tokens := pv_generated_tokens v + (generated - rp_pass_generated p)\<rparr>, rp_pass_generated := generated\<rparr>)"
  using assms by (auto simp: progress_decode_def Let_def split: if_splits)

lemma next_pass_cases:
  assumes "progress_next_pass now p = (ok, p')" and "v = rp_value p"
  shows "p' = p \<or> pv_stage v = decode_phase \<and>
    p' = progress_advance now (p\<lparr>rp_value := v\<lparr>pv_stage := session_setup, pv_cached_tokens := 0,
      pv_prompt_tokens := 0, pv_processed_tokens := 0, pv_pass := pv_pass v + 1\<rparr>, rp_pass_generated := 0\<rparr>)"
  using assms by (auto simp: progress_next_pass_def Let_def split: if_splits)

lemma progress_refused: "progress_apply c now p = (False, p') \<Longrightarrow> p' = p"
  by (cases c) (auto simp: progress_prefill_def progress_decode_def progress_next_pass_def Let_def split: if_splits)

end
