(* ===== verification/PrefixReuse.thy ===== *)
theory PrefixReuse
  imports Bytes
begin

text \<open>
  Reuse of cached work: matching a saved token history against a new prompt byte by byte
  (\<open>include/axiom/qwen38_prefix_reuse.hpp\<close>), and the resident suffix of a ring of KV pages
  (\<open>include/axiom/qwen38_mixed_kv.hpp\<close>).
\<close>

section \<open>Equivalent prefixes\<close>

text \<open>The text of a token whose bytes are used up, or the text at hand; \<open>None\<close> is a control token, a failed
  or an empty decode.\<close>

definition refill :: "u32 \<Rightarrow> (u32 \<Rightarrow> string option) \<Rightarrow> u32 \<Rightarrow> string \<Rightarrow> nat \<Rightarrow> (string \<times> nat) option" where
  "refill base_vocab decode token piece position =
     (if piece \<noteq> [] then Some (piece, position)
      else if token \<ge> base_vocab then None
      else case decode token of
        None \<Rightarrow> None
      | Some s \<Rightarrow> if s = [] then None else Some (s, 0))"

partial_function (option) prefix_loop ::
  "u32 list \<Rightarrow> nat \<Rightarrow> u32 list \<Rightarrow> u32 \<Rightarrow> (u32 \<Rightarrow> string option) \<Rightarrow> nat \<Rightarrow>
   nat \<Rightarrow> nat \<Rightarrow> nat \<Rightarrow> nat \<Rightarrow> nat \<Rightarrow> string \<Rightarrow> string \<Rightarrow> (bool \<times> nat) option" where
  "prefix_loop saved committed incoming base_vocab decode byte_budget i j a b bytes left right =
     (if i < committed then
        (if j \<ge> length incoming then Some (False, 0)
         else if left = [] \<and> right = [] \<and> saved ! i = incoming ! j
         then prefix_loop saved committed incoming base_vocab decode byte_budget (i + 1) (j + 1) a b bytes left right
         else if left = [] \<and> right = [] \<and> (saved ! i \<ge> base_vocab \<or> incoming ! j \<ge> base_vocab) then Some (False, 0)
         else case refill base_vocab decode (saved ! i) left a of
           None \<Rightarrow> Some (False, 0)
         | Some (left, a) \<Rightarrow>
             (case refill base_vocab decode (incoming ! j) right b of
                None \<Rightarrow> Some (False, 0)
              | Some (right, b) \<Rightarrow>
                  (let n = min (length left - a) (length right - b)
                   in if n > byte_budget - bytes \<or> take n (drop a left) \<noteq> take n (drop b right) then Some (False, 0)
                      else prefix_loop saved committed incoming base_vocab decode byte_budget
                        (if a + n = length left then i + 1 else i) (if b + n = length right then j + 1 else j)
                        (a + n) (b + n) (bytes + n)
                        (if a + n = length left then [] else left) (if b + n = length right then [] else right))))
      else if right \<noteq> [] then Some (False, 0)
      else Some (True, j))"

text \<open>The call: \<open>False\<close> leaves 0 in \<open>consumed\<close>.\<close>

definition equivalent_prefix ::
  "u32 list \<Rightarrow> nat \<Rightarrow> u32 list \<Rightarrow> u32 \<Rightarrow> (u32 \<Rightarrow> string option) \<Rightarrow> nat \<Rightarrow> (bool \<times> nat) option" where
  "equivalent_prefix saved committed incoming base_vocab decode byte_budget =
     (if base_vocab = 0 \<or> committed = 0 \<or> committed > length saved then Some (False, 0)
      else prefix_loop saved committed incoming base_vocab decode byte_budget 0 0 0 0 0 [] [])"

section \<open>What a match means\<close>

text \<open>A token stands for its bytes, or for itself when it is a control token or has no text.\<close>

definition token_text :: "u32 \<Rightarrow> (u32 \<Rightarrow> string option) \<Rightarrow> u32 \<Rightarrow> (u32 + char) list" where
  "token_text base_vocab decode t =
     (if t < base_vocab \<and> decode t \<noteq> None \<and> decode t \<noteq> Some [] then map Inr (the (decode t)) else [Inl t])"

definition history_text :: "u32 \<Rightarrow> (u32 \<Rightarrow> string option) \<Rightarrow> u32 list \<Rightarrow> (u32 + char) list" where
  "history_text base_vocab decode ts = concat (map (token_text base_vocab decode) ts)"

text \<open>The text that is left of a list of tokens, of whose token \<open>i\<close> the bytes from \<open>a\<close> on are at hand.\<close>

definition rest_text :: "u32 \<Rightarrow> (u32 \<Rightarrow> string option) \<Rightarrow> u32 list \<Rightarrow> nat \<Rightarrow> nat \<Rightarrow> string \<Rightarrow> (u32 + char) list" where
  "rest_text base_vocab decode ts i a piece =
     (if piece = [] then history_text base_vocab decode (drop i ts)
      else map Inr (drop a piece) @ history_text base_vocab decode (drop (Suc i) ts))"

text \<open>The bytes at hand are those of token \<open>i\<close>.\<close>

definition piece_ok :: "u32 \<Rightarrow> (u32 \<Rightarrow> string option) \<Rightarrow> u32 list \<Rightarrow> nat \<Rightarrow> nat \<Rightarrow> string \<Rightarrow> bool" where
  "piece_ok base_vocab decode ts i a piece \<longleftrightarrow>
     piece \<noteq> [] \<longrightarrow> a < length piece \<and> i < length ts \<and> token_text base_vocab decode (ts ! i) = map Inr piece"

lemma token_text_ne [simp]: "token_text base_vocab decode t \<noteq> []"
  by (auto simp: token_text_def)

lemma history_text_simps [simp]:
  "history_text base_vocab decode [] = []"
  "history_text base_vocab decode (t # ts) = token_text base_vocab decode t @ history_text base_vocab decode ts"
  by (simp_all add: history_text_def)

lemma history_text_append:
  "history_text base_vocab decode (us @ ts) = history_text base_vocab decode us @ history_text base_vocab decode ts"
  by (simp add: history_text_def)

lemma history_text_Nil_iff [simp]: "history_text base_vocab decode ts = [] \<longleftrightarrow> ts = []"
  by (cases ts) simp_all

lemma history_text_drop:
  "i < length ts \<Longrightarrow> history_text base_vocab decode (drop i ts) =
     token_text base_vocab decode (ts ! i) @ history_text base_vocab decode (drop (Suc i) ts)"
  by (simp flip: Cons_nth_drop_Suc)

lemma refill_Some:
  assumes "refill base_vocab decode (ts ! i) piece a = Some (piece', a')" and "piece_ok base_vocab decode ts i a piece"
    and "i < length ts"
  shows "rest_text base_vocab decode ts i a piece =
      map Inr (drop a' piece') @ history_text base_vocab decode (drop (Suc i) ts)"
    and "a' < length piece'" and "token_text base_vocab decode (ts ! i) = map Inr piece'"
  using assms
  by (auto simp: refill_def rest_text_def piece_ok_def history_text_drop token_text_def not_le
      split: if_splits option.splits)

lemma refill_None:
  assumes "refill base_vocab decode t piece a = None"
  shows "piece = []" and "token_text base_vocab decode t = [Inl t]" and "t < base_vocab \<Longrightarrow> decode t = None \<or> decode t = Some []"
  using assms by (auto simp: refill_def token_text_def split: if_splits option.splits)

lemma rest_text_step:
  assumes "a + n \<le> length piece" and "piece \<noteq> []"
  shows "rest_text base_vocab decode ts (if a + n = length piece then i + 1 else i) (a + n)
      (if a + n = length piece then [] else piece) =
    map Inr (drop (a + n) piece) @ history_text base_vocab decode (drop (Suc i) ts)"
  using assms by (auto simp: rest_text_def)

lemma piece_ok_step:
  assumes "a + n \<le> length piece" and "i < length ts" and "token_text base_vocab decode (ts ! i) = map Inr piece"
  shows "piece_ok base_vocab decode ts (if a + n = length piece then i + 1 else i) (a + n)
      (if a + n = length piece then [] else piece)"
  using assms by (auto simp: piece_ok_def)

section \<open>The loop\<close>

text \<open>The rest of the saved history is the rest of the new prompt up to token \<open>k\<close>.\<close>

definition match_at ::
  "u32 \<Rightarrow> (u32 \<Rightarrow> string option) \<Rightarrow> u32 list \<Rightarrow> u32 list \<Rightarrow> nat \<Rightarrow> nat \<Rightarrow> nat \<Rightarrow> nat \<Rightarrow> string \<Rightarrow> string \<Rightarrow> nat \<Rightarrow> bool" where
  "match_at base_vocab decode ts us i j a b left right k \<longleftrightarrow> j \<le> k \<and> k \<le> length us \<and> (right \<noteq> [] \<longrightarrow> j < k) \<and>
     rest_text base_vocab decode ts i a left = rest_text base_vocab decode (take k us) j b right"

definition decodes_all :: "u32 \<Rightarrow> (u32 \<Rightarrow> string option) \<Rightarrow> bool" where
  "decodes_all base_vocab decode \<longleftrightarrow> (\<forall>t<base_vocab. \<exists>s. decode t = Some s \<and> s \<noteq> [])"

text \<open>A match of an unfinished history needs a further token of the prompt.\<close>

lemma match_at_more:
  assumes "match_at base_vocab decode ts us i j a b left right k" and "i < length ts" and "piece_ok base_vocab decode ts i a left"
  shows "j < k"
proof (rule ccontr)
  assume "\<not> j < k"
  then have "right = []" "k = j"
    using assms(1) by (auto simp: match_at_def)
  then have "rest_text base_vocab decode ts i a left = []"
    using assms(1) by (simp add: match_at_def rest_text_def)
  then show False
    using assms(2,3) by (auto simp: rest_text_def piece_ok_def split: if_splits)
qed

lemma match_at_right:
  assumes "match_at base_vocab decode ts us i j a b left right k" and "j < k" and "piece_ok base_vocab decode us j b right"
  shows "rest_text base_vocab decode (take k us) j b right =
    (if right = [] then token_text base_vocab decode (us ! j) else map Inr (drop b right)) @
    history_text base_vocab decode (drop (Suc j) (take k us))"
  using assms by (auto simp: match_at_def rest_text_def history_text_drop)

text \<open>Equal tokens at a common boundary.\<close>

lemma match_at_equal:
  assumes "i < length ts" and "j < length us" and "ts ! i = us ! j"
  shows "match_at base_vocab decode ts us i j a b [] [] k \<longleftrightarrow>
    j < k \<and> match_at base_vocab decode ts us (i + 1) (j + 1) a' b' [] [] k"
proof -
  have "match_at base_vocab decode ts us i j a b [] [] k \<Longrightarrow> j < k"
    using match_at_more [of base_vocab decode ts us i j a b "[]" "[]" k] assms(1) by (simp add: piece_ok_def)
  then show ?thesis
    using assms by (auto simp: match_at_def rest_text_def history_text_drop)
qed

text \<open>A control token on one side only, or two different ones.\<close>

lemma match_at_control:
  assumes "i < length ts" and "ts ! i \<noteq> us ! j"
    and "token_text base_vocab decode (ts ! i) = [Inl (ts ! i)] \<or> token_text base_vocab decode (us ! j) = [Inl (us ! j)]"
  shows "\<not> match_at base_vocab decode ts us i j a b [] [] k"
proof
  assume m: "match_at base_vocab decode ts us i j a b [] [] k"
  have "piece_ok base_vocab decode ts i a []" by (simp add: piece_ok_def)
  from match_at_more [OF m assms(1) this] have "j < k" .
  then have "hd (token_text base_vocab decode (ts ! i)) = hd (token_text base_vocab decode (us ! j))"
    using m assms(1) by (auto simp: match_at_def rest_text_def history_text_drop) (metis hd_append2 token_text_ne)
  moreover have "hd (token_text base_vocab decode t) \<noteq> Inl t' \<or> t' = t" for t t'
    by (auto simp: token_text_def hd_map)
  ultimately show False
    using assms(2,3) by (metis list.sel(1))
qed

text \<open>A control token against bytes of the other side.\<close>

lemma match_at_bytes:
  assumes "match_at base_vocab decode ts us i j a b left right k" and "i < length ts" and "j < k"
    and "piece_ok base_vocab decode ts i a left" and "piece_ok base_vocab decode us j b right"
  shows "left = [] \<Longrightarrow> token_text base_vocab decode (ts ! i) = [Inl t] \<Longrightarrow> right = []"
    and "right = [] \<Longrightarrow> token_text base_vocab decode (us ! j) = [Inl t] \<Longrightarrow> left = []"
proof -
  note r = match_at_right [OF assms(1,3,5)]
  have eq: "rest_text base_vocab decode ts i a left = rest_text base_vocab decode (take k us) j b right"
    using assms(1) by (simp add: match_at_def)
  { assume a: "left = []" "token_text base_vocab decode (ts ! i) = [Inl t]"
    show "right = []"
    proof (rule ccontr)
      assume "right \<noteq> []"
      then obtain c cs where "drop b right = c # cs"
        using assms(5) by (cases "drop b right") (auto simp: piece_ok_def)
      then show False
        using eq r a \<open>right \<noteq> []\<close> assms(2) by (simp add: rest_text_def history_text_drop)
    qed }
  { assume a: "right = []" "token_text base_vocab decode (us ! j) = [Inl t]"
    show "left = []"
    proof (rule ccontr)
      assume "left \<noteq> []"
      then obtain c cs where "drop a left = c # cs"
        using assms(4) by (cases "drop a left") (auto simp: piece_ok_def)
      then show False
        using eq r a \<open>left \<noteq> []\<close> by (simp add: rest_text_def)
    qed }
qed

text \<open>Comparing the bytes at hand.\<close>

lemma match_at_compare:
  assumes "refill base_vocab decode (ts ! i) left a = Some (l, a1)" and "refill base_vocab decode (us ! j) right b = Some (r, b1)"
    and "piece_ok base_vocab decode ts i a left" and "piece_ok base_vocab decode us j b right" and "i < length ts" and "j < length us"
    and "n = min (length l - a1) (length r - b1)"
  shows "match_at base_vocab decode ts us i j a b left right k \<longleftrightarrow>
      j < k \<and> take n (drop a1 l) = take n (drop b1 r) \<and>
      match_at base_vocab decode ts us (if a1 + n = length l then i + 1 else i) (if b1 + n = length r then j + 1 else j)
        (a1 + n) (b1 + n) (if a1 + n = length l then [] else l) (if b1 + n = length r then [] else r) k"
proof (cases "j < k \<and> k \<le> length us")
  case True
  note L = refill_Some [OF assms(1,3,5)]
  have us: "refill base_vocab decode (take k us ! j) right b = Some (r, b1)" "piece_ok base_vocab decode (take k us) j b right"
    "j < length (take k us)"
    using assms(2,4) True by (simp_all add: piece_ok_def)
  note R = refill_Some [OF us]
  have n: "a1 + n \<le> length l" "b1 + n \<le> length r" "l \<noteq> []" "r \<noteq> []"
    using L(2) R(2) assms(7) by auto
  let ?h = "history_text base_vocab decode"
  have split: "map Inr (drop a1 l) = map Inr (take n (drop a1 l)) @ map Inr (drop (a1 + n) l)"
    "map Inr (drop b1 r) = map Inr (take n (drop b1 r)) @ map Inr (drop (b1 + n) r)" for l r :: string
    by (metis append_take_drop_id drop_drop add.commute map_append)+
  have len: "length (take n (drop a1 l)) = length (take n (drop b1 r))"
    using n by simp
  have "rest_text base_vocab decode ts i a left = rest_text base_vocab decode (take k us) j b right \<longleftrightarrow>
      take n (drop a1 l) = take n (drop b1 r) \<and>
      map Inr (drop (a1 + n) l) @ ?h (drop (Suc i) ts) = map Inr (drop (b1 + n) r) @ ?h (drop (Suc j) (take k us))"
    unfolding L(1) R(1) split(1) [of l] split(2) [of r] append_assoc using len
    by (subst append_eq_append_conv) (auto dest: map_injective simp: inj_def)
  then show ?thesis
    using True rest_text_step [OF n(1,3), of base_vocab decode ts i] rest_text_step [OF n(2,4), of base_vocab decode "take k us" j]
    by (auto simp: match_at_def)
next
  case False
  then show ?thesis
    using match_at_more [OF _ assms(5,3), of us j b right k] by (auto simp: match_at_def)
qed

section \<open>What the loop returns\<close>

text \<open>The result is a match, or there is none that the budget and the decoder allow to find.\<close>

definition loop_right ::
  "u32 \<Rightarrow> (u32 \<Rightarrow> string option) \<Rightarrow> u32 list \<Rightarrow> u32 list \<Rightarrow> nat \<Rightarrow> nat \<Rightarrow> nat \<Rightarrow> nat \<Rightarrow> nat \<Rightarrow> string \<Rightarrow> string \<Rightarrow>
   (bool \<times> nat) option \<Rightarrow> bool" where
  "loop_right base_vocab decode ts us budget i j a b left right res \<longleftrightarrow>
     (\<exists>k. res = Some (True, k) \<and> match_at base_vocab decode ts us i j a b left right k) \<or>
     (\<exists>k. res = Some (False, k)) \<and>
     (decodes_all base_vocab decode \<longrightarrow> length (rest_text base_vocab decode ts i a left) \<le> budget \<longrightarrow>
       (\<forall>k. \<not> match_at base_vocab decode ts us i j a b left right k))"

lemma loop_right_False:
  "(\<And>k. decodes_all base_vocab decode \<Longrightarrow> length (rest_text base_vocab decode ts i a left) \<le> budget \<Longrightarrow>
     \<not> match_at base_vocab decode ts us i j a b left right k) \<Longrightarrow>
   loop_right base_vocab decode ts us budget i j a b left right (Some (False, x))"
  by (auto simp: loop_right_def)

lemma loop_right_trans:
  assumes "loop_right base_vocab decode ts us budget' i' j' a' b' left' right' res"
    and "\<And>k. match_at base_vocab decode ts us i j a b left right k \<longleftrightarrow>
      j < k \<and> match_at base_vocab decode ts us i' j' a' b' left' right' k"
    and "\<And>k. match_at base_vocab decode ts us i' j' a' b' left' right' k \<Longrightarrow> j < k"
    and "length (rest_text base_vocab decode ts i a left) \<le> budget \<Longrightarrow>
      length (rest_text base_vocab decode ts i' a' left') \<le> budget'"
  shows "loop_right base_vocab decode ts us budget i j a b left right res"
  using assms unfolding loop_right_def by blast

lemma prefix_loop_end:
  assumes "i = length ts" and "piece_ok base_vocab decode ts i a left" and "piece_ok base_vocab decode us j b right" and "j \<le> length us"
  shows "loop_right base_vocab decode ts us budget i j a b left right (if right \<noteq> [] then Some (False, 0) else Some (True, j))"
  using assms by (auto simp: loop_right_def piece_ok_def match_at_def rest_text_def)

lemma refill_fails:
  assumes "refill base_vocab decode (ts ! i) left a = None \<or> refill base_vocab decode (us ! j) right b = None"
    and "i < length ts" and "piece_ok base_vocab decode ts i a left" and "piece_ok base_vocab decode us j b right"
    and "left = [] \<and> right = [] \<longrightarrow> ts ! i < base_vocab \<and> us ! j < base_vocab" and "left = [] \<or> right = []"
  shows "loop_right base_vocab decode ts us budget i j a b left right (Some (False, 0))"
proof (rule loop_right_False)
  fix k assume d: "decodes_all base_vocab decode"
  show "\<not> match_at base_vocab decode ts us i j a b left right k"
  proof
    assume m: "match_at base_vocab decode ts us i j a b left right k"
    note b = match_at_bytes [OF m assms(2) match_at_more [OF m assms(2,3)] assms(3,4)]
    have "left = [] \<and> right = []"
      using assms(1) refill_None(1,2) b by metis
    then show False
      using assms(1,5) d refill_None(3) by (fastforce simp: decodes_all_def)
  qed
qed

lemma loop_skip:
  assumes "loop_right base_vocab decode ts us budget (i + 1) (j + 1) a b [] [] res"
    and "i < length ts" and "j < length us" and "ts ! i = us ! j"
  shows "loop_right base_vocab decode ts us budget i j a b [] [] res"
proof (rule loop_right_trans [OF assms(1) match_at_equal [OF assms(2-4)]])
  show "length (rest_text base_vocab decode ts i a []) \<le> budget \<Longrightarrow> length (rest_text base_vocab decode ts (i + 1) a []) \<le> budget"
    using assms(2) by (simp add: rest_text_def history_text_drop)
qed (simp add: match_at_def)

lemma match_at_less:
  "match_at base_vocab decode ts us i (if c then j + 1 else j) a b left (if c then [] else r) k \<Longrightarrow> r \<noteq> [] \<Longrightarrow> j < k"
  by (cases c) (simp_all add: match_at_def)

lemma loop_compare:
  assumes "refill base_vocab decode (ts ! i) left a = Some (l, a1)" and "refill base_vocab decode (us ! j) right b = Some (r, b1)"
    and "piece_ok base_vocab decode ts i a left" and "piece_ok base_vocab decode us j b right" and "i < length ts" and "j < length us"
    and "n = min (length l - a1) (length r - b1)"
  shows "n > budget \<or> take n (drop a1 l) \<noteq> take n (drop b1 r) \<Longrightarrow>
      loop_right base_vocab decode ts us budget i j a b left right (Some (False, 0))"
    and "take n (drop a1 l) = take n (drop b1 r) \<Longrightarrow> n \<le> budget \<Longrightarrow>
      loop_right base_vocab decode ts us (budget - n) (if a1 + n = length l then i + 1 else i) (if b1 + n = length r then j + 1 else j)
        (a1 + n) (b1 + n) (if a1 + n = length l then [] else l) (if b1 + n = length r then [] else r) res \<Longrightarrow>
      loop_right base_vocab decode ts us budget i j a b left right res"
proof -
  note m = match_at_compare [OF assms]
  note L = refill_Some [OF assms(1,3,5)]
  have n: "a1 + n \<le> length l" "l \<noteq> []" using L(2) assms(7) by auto
  show "loop_right base_vocab decode ts us budget i j a b left right (Some (False, 0))"
    if "n > budget \<or> take n (drop a1 l) \<noteq> take n (drop b1 r)"
  proof (rule loop_right_False)
    fix k assume le: "length (rest_text base_vocab decode ts i a left) \<le> budget"
    have "n \<le> budget"
      using le n(1) unfolding L(1) by simp
    then show "\<not> match_at base_vocab decode ts us i j a b left right k"
      using that m [of k] by (simp only: not_less [symmetric] HOL.simp_thms)
  qed
  assume t: "take n (drop a1 l) = take n (drop b1 r)" "n \<le> budget"
    and r: "loop_right base_vocab decode ts us (budget - n) (if a1 + n = length l then i + 1 else i) (if b1 + n = length r then j + 1 else j)
        (a1 + n) (b1 + n) (if a1 + n = length l then [] else l) (if b1 + n = length r then [] else r) res"
  show "loop_right base_vocab decode ts us budget i j a b left right res"
  proof (rule loop_right_trans [OF r])
    show "length (rest_text base_vocab decode ts i a left) \<le> budget \<Longrightarrow>
        length (rest_text base_vocab decode ts (if a1 + n = length l then i + 1 else i) (a1 + n) (if a1 + n = length l then [] else l))
        \<le> budget - n"
      unfolding rest_text_step [OF n] L(1) using n(1) by simp
    show "match_at base_vocab decode ts us i j a b left right k \<longleftrightarrow> j < k \<and>
        match_at base_vocab decode ts us (if a1 + n = length l then i + 1 else i) (if b1 + n = length r then j + 1 else j)
          (a1 + n) (b1 + n) (if a1 + n = length l then [] else l) (if b1 + n = length r then [] else r) k" for k
      using m [of k] t(1) by argo
    have "r \<noteq> []"
      using refill_Some(2) [OF assms(2,4,6)] by auto
    then show "j < k" if "match_at base_vocab decode ts us (if a1 + n = length l then i + 1 else i) (if b1 + n = length r then j + 1 else j)
          (a1 + n) (b1 + n) (if a1 + n = length l then [] else l) (if b1 + n = length r then [] else r) k" for k
      using match_at_less [OF that] by blast
  qed
qed

text \<open>One round of the loop that looks at bytes.\<close>

lemma prefix_loop_fetch:
  assumes "i < committed" and "j < length us"
    and "\<not> (left = [] \<and> right = [] \<and> (saved ! i = us ! j \<or> saved ! i \<ge> base_vocab \<or> us ! j \<ge> base_vocab))"
    and "refill base_vocab decode (saved ! i) left a = Some (l, a1)" and "refill base_vocab decode (us ! j) right b = Some (r, b1)"
    and "n = min (length l - a1) (length r - b1)"
  shows "prefix_loop saved committed us base_vocab decode byte_budget i j a b bytes left right =
    (if n > byte_budget - bytes \<or> take n (drop a1 l) \<noteq> take n (drop b1 r) then Some (False, 0)
     else prefix_loop saved committed us base_vocab decode byte_budget
       (if a1 + n = length l then i + 1 else i) (if b1 + n = length r then j + 1 else j) (a1 + n) (b1 + n) (bytes + n)
       (if a1 + n = length l then [] else l) (if b1 + n = length r then [] else r))"
proof -
  have c: "\<not> length us \<le> j" "\<not> (left = [] \<and> right = [] \<and> saved ! i = us ! j)"
    "\<not> (left = [] \<and> right = [] \<and> (saved ! i \<ge> base_vocab \<or> us ! j \<ge> base_vocab))"
    using assms(2,3) by auto
  show ?thesis
    unfolding prefix_loop.simps [of saved committed us base_vocab decode byte_budget i j a b bytes left right]
      if_P [OF assms(1)] if_not_P [OF c(1)] if_not_P [OF c(2)] if_not_P [OF c(3)] assms(4-6)
    by (simp only: option.case prod.case Let_def)
qed

lemma prefix_loop_fetch_fails:
  assumes "i < committed" and "j < length us"
    and "\<not> (left = [] \<and> right = [] \<and> (saved ! i = us ! j \<or> saved ! i \<ge> base_vocab \<or> us ! j \<ge> base_vocab))"
    and "refill base_vocab decode (saved ! i) left a = None \<or> refill base_vocab decode (us ! j) right b = None"
  shows "prefix_loop saved committed us base_vocab decode byte_budget i j a b bytes left right = Some (False, 0)"
  unfolding prefix_loop.simps [of saved committed us base_vocab decode byte_budget i j a b bytes left right]
  using assms by (auto split: option.split)

lemma loop_right_fetch:
  assumes "i < committed" and "i < length ts" and "saved ! i = ts ! i" and "j < length us" and "bytes \<le> byte_budget"
    and "\<not> (left = [] \<and> right = [] \<and> (ts ! i = us ! j \<or> ts ! i \<ge> base_vocab \<or> us ! j \<ge> base_vocab))"
    and "piece_ok base_vocab decode ts i a left" and "piece_ok base_vocab decode us j b right" and "left = [] \<or> right = []"
    and "\<And>i' j' a' b' n left' right'. i' + j' > i + j \<Longrightarrow> i' \<le> i + 1 \<Longrightarrow> j' \<le> j + 1 \<Longrightarrow> bytes + n \<le> byte_budget \<Longrightarrow>
      piece_ok base_vocab decode ts i' a' left' \<Longrightarrow> piece_ok base_vocab decode us j' b' right' \<Longrightarrow> left' = [] \<or> right' = [] \<Longrightarrow>
      loop_right base_vocab decode ts us (byte_budget - (bytes + n)) i' j' a' b' left' right'
        (prefix_loop saved committed us base_vocab decode byte_budget i' j' a' b' (bytes + n) left' right')"
  shows "loop_right base_vocab decode ts us (byte_budget - bytes) i j a b left right
    (prefix_loop saved committed us base_vocab decode byte_budget i j a b bytes left right)"
proof (cases "refill base_vocab decode (ts ! i) left a = None \<or> refill base_vocab decode (us ! j) right b = None")
  case True
  then show ?thesis
    using refill_fails [OF True assms(2,7,8) _ assms(9)] prefix_loop_fetch_fails [OF assms(1,4), of left right saved] assms(3,6)
    by (auto simp: not_le)
next
  case False
  then obtain l a1 r b1 where lr: "refill base_vocab decode (ts ! i) left a = Some (l, a1)"
    "refill base_vocab decode (us ! j) right b = Some (r, b1)" by auto
  define n where "n = min (length l - a1) (length r - b1)"
  note L = refill_Some [OF lr(1) assms(7,2)] and R = refill_Some [OF lr(2) assms(8,4)]
  have n: "a1 + n \<le> length l" "b1 + n \<le> length r" "a1 + n = length l \<or> b1 + n = length r"
    using L(2) R(2) by (auto simp: n_def)
  note compare = loop_compare [OF lr assms(7,8,2,4) n_def]
  note unf = prefix_loop_fetch [OF assms(1,4) assms(6) [folded assms(3)] lr(1) [folded assms(3)] lr(2) n_def]
  show ?thesis
  proof (cases "n > byte_budget - bytes \<or> take n (drop a1 l) \<noteq> take n (drop b1 r)")
    case True
    show ?thesis
      using compare(1) [OF True] unfolding unf if_P [OF True] .
  next
    case same: False
    let ?i = "if a1 + n = length l then i + 1 else i" and ?j = "if b1 + n = length r then j + 1 else j"
      and ?l = "if a1 + n = length l then [] else l" and ?r = "if b1 + n = length r then [] else r"
    have ok: "?i + ?j > i + j" "?i \<le> i + 1" "?j \<le> j + 1" "bytes + n \<le> byte_budget" "?l = [] \<or> ?r = []"
      "byte_budget - (bytes + n) = byte_budget - bytes - n"
      using same n(3) assms(5) by auto
    note ih = assms(10) [OF ok(1-4) piece_ok_step [OF n(1) assms(2) L(3)] piece_ok_step [OF n(2) assms(4) R(3)] ok(5)]
    show ?thesis
      using compare(2) [OF _ _ ih [unfolded ok(6)]] same unfolding unf if_not_P [OF same] by simp
  qed
qed

lemma prefix_loop_spec:
  assumes "committed \<le> length saved" and "bytes \<le> byte_budget" and "i \<le> committed" and "j \<le> length us"
    and "ts = take committed saved"
    and "piece_ok base_vocab decode ts i a left" and "piece_ok base_vocab decode us j b right" and "left = [] \<or> right = []"
  shows "loop_right base_vocab decode ts us (byte_budget - bytes) i j a b left right
    (prefix_loop saved committed us base_vocab decode byte_budget i j a b bytes left right)"
  using assms
proof (induction "committed - i + (length us - j)" arbitrary: i j a b bytes left right rule: less_induct)
  case less
  note unfold = prefix_loop.simps [of saved committed us base_vocab decode byte_budget i j a b bytes left right]
  have len: "length ts = committed" "i < committed \<Longrightarrow> saved ! i = ts ! i"
    using less.prems(1,5) by simp_all
  consider (stop) "i = committed" | (short) "i < committed" "j = length us"
    | (equal) "i < committed" "j < length us" "left = []" "right = []" "ts ! i = us ! j"
    | (control) "i < committed" "j < length us" "left = []" "right = []" "ts ! i \<noteq> us ! j" "ts ! i \<ge> base_vocab \<or> us ! j \<ge> base_vocab"
    | (fetch) "i < committed" "j < length us" "\<not> (left = [] \<and> right = [] \<and> (ts ! i = us ! j \<or> ts ! i \<ge> base_vocab \<or> us ! j \<ge> base_vocab))"
    using less.prems(3,4) by linarith
  then show ?case
  proof cases
    case stop
    then show ?thesis
      using prefix_loop_end [OF _ less.prems(6,7,4)] len unfold by simp
  next
    case short
    then have "\<not> match_at base_vocab decode ts us i j a b left right k" for k
      using match_at_more [OF _ _ less.prems(6), of us j b right k] len by (auto simp: match_at_def)
    then show ?thesis
      using short unfold by (simp add: loop_right_def)
  next
    case equal
    have "loop_right base_vocab decode ts us (byte_budget - bytes) (i + 1) (j + 1) a b [] []
        (prefix_loop saved committed us base_vocab decode byte_budget (i + 1) (j + 1) a b bytes [] [])"
      by (rule less.hyps) (use less.prems equal in \<open>simp_all add: piece_ok_def\<close>)
    then show ?thesis
      using loop_skip [OF _ _ equal(2,5)] equal len unfold by simp
  next
    case control
    have "\<not> match_at base_vocab decode ts us i j a b [] [] k" for k
      using control len by (intro match_at_control) (auto simp: token_text_def not_less)
    then show ?thesis
      using control len unfold by (simp add: loop_right_def)
  next
    case fetch
    have i: "i < length ts" "saved ! i = ts ! i"
      using fetch(1) len by simp_all
    show ?thesis
    proof (rule loop_right_fetch [OF fetch(1) i fetch(2) less.prems(2) fetch(3) less.prems(6-8)])
      fix i' j' a' b' n left' right'
      assume new: "i' + j' > i + j" "i' \<le> i + 1" "j' \<le> j + 1" "bytes + n \<le> byte_budget"
        and ok: "piece_ok base_vocab decode ts i' a' left'" "piece_ok base_vocab decode us j' b' right'" "left' = [] \<or> right' = []"
      have "committed - i' + (length us - j') < committed - i + (length us - j)" "i' \<le> committed" "j' \<le> length us"
        using new(1-3) fetch(1,2) by linarith+
      from less.hyps [OF this(1) less.prems(1) new(4) this(2,3) less.prems(5) ok]
      show "loop_right base_vocab decode ts us (byte_budget - (bytes + n)) i' j' a' b' left' right'
          (prefix_loop saved committed us base_vocab decode byte_budget i' j' a' b' (bytes + n) left' right')" .
    qed
  qed
qed

text \<open>A match determines how many tokens it takes: no token has an empty text.\<close>

lemma history_text_take_inj:
  assumes "history_text base_vocab decode (take k us) = history_text base_vocab decode (take m us)"
    and "k \<le> length us" and "m \<le> length us"
  shows "k = m"
proof -
  have shorter: "take k us = take m us" if "k \<le> m" "m \<le> length us"
      "history_text base_vocab decode (take k us) = history_text base_vocab decode (take m us)" for k m
  proof -
    have "take m us = take k us @ drop k (take m us)"
      using that by (metis append_take_drop_id take_take min.absorb1)
    then show ?thesis
      using that(3) history_text_append [of base_vocab decode "take k us" "drop k (take m us)"]
      by (metis append_Nil2 history_text_Nil_iff self_append_conv)
  qed
  have "take k us = take m us"
    using shorter [of k m] shorter [of m k, symmetric] assms by (metis nat_le_linear)
  then show ?thesis
    using assms(2,3) by (metis length_take min.absorb2)
qed

section \<open>The resident suffix\<close>

function suffix_loop :: "u32 \<Rightarrow> u32 \<Rightarrow> u32 list \<Rightarrow> u32 \<Rightarrow> u32" where
  "suffix_loop current slots page_ids begin' =
     (if begin' \<noteq> 0 \<and> current - begin' + 1 < slots \<and> page_ids ! unat ((begin' - 1) mod slots) = begin' - 1
      then suffix_loop current slots page_ids (begin' - 1) else begin')"
  by pat_completeness auto
termination
  by (relation "measure (\<lambda>(current, slots, page_ids, begin'). unat begin')") (auto simp: unat_minus_one unat_gt_0)

declare suffix_loop.simps [simp del]

definition resident_suffix_begin :: "u32 \<Rightarrow> u32 \<Rightarrow> u32 list option \<Rightarrow> u32" where
  "resident_suffix_begin current slots page_ids = (case page_ids of
       None \<Rightarrow> current + 1
     | Some ids \<Rightarrow> if slots = 0 \<or> ids ! unat (current mod slots) \<noteq> current then current + 1
                   else suffix_loop current slots ids current)"

text \<open>Page \<open>p\<close> is in its slot.\<close>

definition resident :: "u32 \<Rightarrow> u32 list \<Rightarrow> nat \<Rightarrow> bool" where
  "resident slots ids p \<longleftrightarrow> unat (ids ! (p mod unat slots)) = p"

lemma suffix_loop_spec:
  assumes "unat begin' \<le> unat current" and "\<And>p. unat begin' \<le> p \<Longrightarrow> p \<le> unat current \<Longrightarrow> resident slots ids p"
    and "unat current - unat begin' < unat slots" and "r = suffix_loop current slots ids begin'"
  shows "unat r \<le> unat current \<and> (\<forall>p. unat r \<le> p \<and> p \<le> unat current \<longrightarrow> resident slots ids p) \<and>
    unat current - unat r < unat slots \<and>
    (unat r = 0 \<or> unat current - unat r + 1 = unat slots \<or> \<not> resident slots ids (unat r - 1))"
  using assms
proof (induction current slots ids begin' rule: suffix_loop.induct)
  case (1 current slots ids begin')
  let ?b = "begin'"
  have idx: "unat ((?b - 1) mod slots) = (unat ?b - 1) mod unat slots" "unat (?b - 1) = unat ?b - 1" if "?b \<noteq> 0"
    using that by (simp_all add: unat_mod_distrib unat_minus_one)
  have res: "ids ! unat ((?b - 1) mod slots) = ?b - 1 \<longleftrightarrow> resident slots ids (unat ?b - 1)" if "?b \<noteq> 0"
    using idx [OF that] by (simp add: resident_def word_unat_eq_iff)
  have count: "unat (current - ?b + 1) = unat current - unat ?b + 1" if "?b \<noteq> 0"
  proof -
    have "unat (current - ?b) = unat current - unat ?b"
      using 1(2) by (simp add: unat_sub word_le_nat_alt)
    moreover have "unat ?b > 0" "unat current < 2 ^ 32"
      using that unat_u32_less by (simp_all add: unat_gt_0)
    ultimately show ?thesis
      by (simp add: unat_word_ariths)
  qed
  show ?case
  proof (cases "?b \<noteq> 0 \<and> current - ?b + 1 < slots \<and> ids ! unat ((?b - 1) mod slots) = ?b - 1")
    case True
    have pos: "unat ?b > 0" using True by (simp add: unat_gt_0)
    have r: "r = suffix_loop current slots ids (?b - 1)"
      using 1(5) True by (subst (asm) suffix_loop.simps) simp
    have less: "unat current - unat ?b + 1 < unat slots"
      using True count by (simp add: word_less_nat_alt)
    show ?thesis
    proof (rule "1.IH" [OF True _ _ _ r])
      fix p assume p: "unat (?b - 1) \<le> p" "p \<le> unat current"
      show "resident slots ids p"
        using p 1(3) [of p] res True idx(2) by (cases "p = unat ?b - 1") auto
    qed (use 1(2) less pos idx(2) True in auto)
  next
    case False
    then have r: "r = ?b"
      using 1(5) by (subst (asm) suffix_loop.simps) auto
    have "unat ?b = 0 \<or> unat current - unat ?b + 1 = unat slots \<or> \<not> resident slots ids (unat ?b - 1)"
      using False res count 1(4) by (cases "?b = 0") (auto simp: word_less_nat_alt)
    then show ?thesis
      using 1(2-4) r by blast
  qed
qed

end
