(* ===== verification/HostPolicies.thy ===== *)
theory HostPolicies
  imports Complex_Main Bytes
begin

text \<open>
  Two small policies of the host: the memory check before an image allocation
  (\<open>include/axiom/vision_memory_budget.hpp\<close>) and the table of reasoning profiles
  (\<open>include/axiom/reasoning_profiles.h\<close>).
\<close>

section \<open>Memory for images\<close>

definition memory_reserve :: u64 where "memory_reserve = 128 * 1024 * 1024"

definition fits :: "u64 \<Rightarrow> u64 \<Rightarrow> bool" where
  "fits bytes available \<longleftrightarrow> available > memory_reserve \<and> bytes \<le> available - memory_reserve"

text \<open>What \<open>sscanf(line, "MemAvailable: %llu kB", ...) == 1\<close> accepts and stores: the literal, white space, an
  optional sign and digits, converted as \<open>strtoull\<close> does; the text behind the number plays no role.\<close>

definition c_space :: "char \<Rightarrow> bool" where
  "c_space c \<longleftrightarrow> c \<in> {CHR '' '', CHR 0x09, CHR 0x0A, CHR 0x0B, CHR 0x0C, CHR 0x0D}"

definition c_digit :: "char \<Rightarrow> bool" where
  "c_digit c \<longleftrightarrow> 48 \<le> (of_char c :: nat) \<and> (of_char c :: nat) \<le> 57"

definition digits_value :: "string \<Rightarrow> nat" where
  "digits_value ds = foldl (\<lambda>v d. 10 * v + (of_char d - 48)) 0 ds"

definition scan_unsigned :: "string \<Rightarrow> u64 option" where
  "scan_unsigned s =
     (let s = dropWhile c_space s;
          negative = (s \<noteq> [] \<and> hd s = CHR ''-'');
          s = (if s \<noteq> [] \<and> (hd s = CHR ''-'' \<or> hd s = CHR ''+'') then tl s else s);
          ds = takeWhile c_digit s;
          v = digits_value ds
      in if ds = [] then None
         else if v > 2 ^ 64 - 1 then Some (- 1)
         else Some (if negative then - of_nat v else of_nat v))"

definition scan_mem_available :: "string \<Rightarrow> u64 option" where
  "scan_mem_available line =
     (if take 13 line = ''MemAvailable:'' then scan_unsigned (drop 13 line) else None)"

text \<open>The first line that scans, 0 without one.\<close>

fun available_kib :: "string list \<Rightarrow> u64" where
  "available_kib [] = 0"
| "available_kib (line # lines) = (case scan_mem_available line of Some v \<Rightarrow> v | None \<Rightarrow> available_kib lines)"

text \<open>\<open>None\<close>: \<open>/proc/meminfo\<close> cannot be opened.\<close>

definition host_allocation_fits :: "string list option \<Rightarrow> u64 \<Rightarrow> bool" where
  "host_allocation_fits lines bytes = (case lines of
       None \<Rightarrow> False
     | Some ls \<Rightarrow> available_kib ls \<le> (- 1) div 1024 \<and> fits bytes (available_kib ls * 1024))"

lemma fits_nat: "fits bytes available \<longleftrightarrow> unat bytes + 134217728 \<le> unat available \<and> 134217728 < unat available"
proof (cases "available > memory_reserve")
  case True
  then have "unat (available - memory_reserve) = unat available - 134217728"
    by (subst unat_sub) (simp_all add: memory_reserve_def)
  then show ?thesis
    using True by (auto simp: fits_def word_le_nat_alt word_less_nat_alt memory_reserve_def)
qed (auto simp: fits_def word_less_nat_alt memory_reserve_def)

lemma kib_bytes:
  "k \<le> (- 1) div 1024 \<longleftrightarrow> unat k * 1024 < 2 ^ 64" "k \<le> (- 1) div 1024 \<Longrightarrow> unat (k * 1024) = unat k * 1024" for k :: u64
proof -
  have "unat ((- 1 :: u64) div 1024) = (2 ^ 64 - 1) div 1024"
    by (simp add: unat_div_distrib unsigned_minus_1_eq_mask mask_eq_exp_minus_1)
  then show iff: "k \<le> (- 1) div 1024 \<longleftrightarrow> unat k * 1024 < 2 ^ 64"
    unfolding word_le_nat_alt by simp linarith
  show "k \<le> (- 1) div 1024 \<Longrightarrow> unat (k * 1024) = unat k * 1024"
    unfolding iff by (simp add: unat_word_ariths)
qed

section \<open>Reasoning profiles\<close>

text \<open>Temperature and \<open>top_p\<close> are the decimal literals of the table.\<close>

record reasoning_profile =
  rf_id :: string
  rf_label :: string
  rf_thinking_budget_tokens :: u32
  rf_thinking :: bool
  rf_temperature :: rat
  rf_top_p :: rat
  rf_top_k :: u32

definition kMaxThinkingBudgetTokens :: u32 where "kMaxThinkingBudgetTokens = 32768"

definition kProfiles :: "reasoning_profile list" where
  "kProfiles =
    [\<lparr>rf_id = ''ultra-fast'', rf_label = ''Ultra-fast / Off'', rf_thinking_budget_tokens = 0, rf_thinking = False,
       rf_temperature = 0, rf_top_p = 1, rf_top_k = 1\<rparr>,
     \<lparr>rf_id = ''minimal'', rf_label = ''Minimal'', rf_thinking_budget_tokens = 1024, rf_thinking = True,
       rf_temperature = 6 / 10, rf_top_p = 95 / 100, rf_top_k = 20\<rparr>,
     \<lparr>rf_id = ''low'', rf_label = ''Low'', rf_thinking_budget_tokens = 2048, rf_thinking = True,
       rf_temperature = 6 / 10, rf_top_p = 95 / 100, rf_top_k = 20\<rparr>,
     \<lparr>rf_id = ''medium'', rf_label = ''Medium'', rf_thinking_budget_tokens = 4096, rf_thinking = True,
       rf_temperature = 6 / 10, rf_top_p = 95 / 100, rf_top_k = 20\<rparr>,
     \<lparr>rf_id = ''high'', rf_label = ''High'', rf_thinking_budget_tokens = 8192, rf_thinking = True,
       rf_temperature = 6 / 10, rf_top_p = 95 / 100, rf_top_k = 20\<rparr>,
     \<lparr>rf_id = ''xhigh'', rf_label = ''Extra-high'', rf_thinking_budget_tokens = 16384, rf_thinking = True,
       rf_temperature = 6 / 10, rf_top_p = 95 / 100, rf_top_k = 20\<rparr>,
     \<lparr>rf_id = ''max'', rf_label = ''Maximum'', rf_thinking_budget_tokens = 32768, rf_thinking = True,
       rf_temperature = 6 / 10, rf_top_p = 95 / 100, rf_top_k = 20\<rparr>]"

definition c_tolower :: "char \<Rightarrow> char" where
  "c_tolower c = (let n = (of_char c :: nat) in if 65 \<le> n \<and> n \<le> 90 then char_of (n + 32) else c)"

definition lower :: "string \<Rightarrow> string" where
  "lower s = map c_tolower s"

definition canonical_name :: "string \<Rightarrow> string" where
  "canonical_name s = lower s"

fun find_profile :: "string \<Rightarrow> reasoning_profile list \<Rightarrow> reasoning_profile option" where
  "find_profile name [] = None"
| "find_profile name (p # ps) = (if name = rf_id p then Some p else find_profile name ps)"

definition reasoning_find :: "string \<Rightarrow> reasoning_profile option" where
  "reasoning_find requested = find_profile (canonical_name requested) kProfiles"

lemma find_profile_Some:
  "distinct (map rf_id ps) \<Longrightarrow> find_profile name ps = Some p \<longleftrightarrow> p \<in> set ps \<and> rf_id p = name"
  by (induction ps) (auto simp: image_iff)

lemma distinct_profiles: "distinct (map rf_id kProfiles)"
  by (simp add: kProfiles_def)

lemma lower_idem: "lower (lower s) = lower s"
proof -
  have "c_tolower (c_tolower c) = c_tolower c" for c
    by (auto simp: c_tolower_def Let_def)
  then show ?thesis by (simp add: lower_def)
qed

end
