(* ===== verification/RequestProps.thy ===== *)
theory RequestProps
  imports RequestProgress PrefixReuse HostPolicies
begin

text \<open>
  Properties of request progress, of prefix reuse, of the resident suffix, and of the two host policies.
\<close>

section \<open>Progress\<close>

text \<open>C31. What a reader sees of a request is consistent and only moves forward. In every run, cached and processed
  tokens stay within the prompt, decoding happens only when the whole prompt is processed, and a call that
  is refused changes nothing. An accepted call changes the value only together with one more revision and the
  time of the change. The phases follow the order set-up, prefill, decode; the next pass starts
  only from decode and is the only call that starts one; within a pass processed and generated tokens never
  decrease, and the total of generated tokens grows exactly by those of the pass.\<close>

theorem progress_call_effect:
  assumes "progress_opened p0" and "progress_step\<^sup>*\<^sup>* p0 p" and "progress_apply c now p = (ok, p')"
    and "v = rp_value p" and "v' = rp_value p'"
  shows "unat (pv_cached_tokens v') + unat (pv_processed_tokens v') \<le> unat (pv_prompt_tokens v') \<and>
    (pv_stage v' = decode_phase \<longrightarrow> unat (pv_cached_tokens v') + unat (pv_processed_tokens v') = unat (pv_prompt_tokens v')) \<and>
    (\<not> ok \<longrightarrow> p' = p) \<and>
    (p' = p \<or> pv_revision v' = pv_revision v + 1 \<and> rp_advanced p' = now \<and> rp_started p' = rp_started p) \<and>
    (pv_stage v, pv_stage v') \<in> {(session_setup, session_setup), (session_setup, prefill_phase), (prefill_phase, prefill_phase),
      (prefill_phase, decode_phase), (decode_phase, decode_phase), (decode_phase, session_setup)} \<and>
    (if pv_stage v = decode_phase \<and> pv_stage v' = session_setup
     then pv_pass v' = pv_pass v + 1 \<and> pv_generated_tokens v' = pv_generated_tokens v \<and> rp_pass_generated p' = 0
     else pv_pass v' = pv_pass v \<and> unat (rp_pass_generated p) \<le> unat (rp_pass_generated p') \<and>
       pv_generated_tokens v' - pv_generated_tokens v = rp_pass_generated p' - rp_pass_generated p \<and>
       (pv_stage v \<noteq> session_setup \<longrightarrow> pv_prompt_tokens v' = pv_prompt_tokens v \<and>
          unat (pv_processed_tokens v) \<le> unat (pv_processed_tokens v')))"
proof -
  note inv = progress_runs.reachable_inv [OF assms(1,2)]
  have bounds: "unat (pv_cached_tokens v') + unat (pv_processed_tokens v') \<le> unat (pv_prompt_tokens v')"
    "pv_stage v' = decode_phase \<longrightarrow> unat (pv_cached_tokens v') + unat (pv_processed_tokens v') = unat (pv_prompt_tokens v')"
    using progress_inv_apply [OF inv assms(3)] assms(5) by (simp_all add: progress_inv_def Let_def)
  have refused: "\<not> ok \<longrightarrow> p' = p"
    using progress_refused [of c now p p'] assms(3) by (cases ok) simp_all
  have phase: "x = session_setup \<or> x = prefill_phase \<or> x = decode_phase" for x
    by (cases x) simp_all
  note close = bounds refused phase [of "pv_stage v"] assms(4,5)
  show ?thesis
  proof (cases c)
    case (call_prefill cached position prompt)
    then have "progress_prefill cached position prompt now p = (ok, p')"
      using assms(3) by simp
    from prefill_cases [OF this assms(4)] show ?thesis
      by (rule disjE) (use close in \<open>auto simp: progress_advance_def word_le_nat_alt\<close>)
  next
    case (call_decode generated)
    then have "progress_decode generated now p = (ok, p')"
      using assms(3) by simp
    from decode_cases [OF this assms(4)] show ?thesis
      by (rule disjE) (use close in \<open>auto simp: progress_advance_def word_le_nat_alt\<close>)
  next
    case call_next_pass
    then have "progress_next_pass now p = (ok, p')"
      using assms(3) by simp
    from next_pass_cases [OF this assms(4)] show ?thesis
      by (rule disjE) (use close in \<open>auto simp: progress_advance_def\<close>)
  qed
qed

text \<open>Four of ten prompt tokens cached, the rest processed in one call, then one token generated.\<close>

definition demo_prefilled :: request_progress where
  "demo_prefilled = snd (progress_prefill 4 10 10 5 (progress_new 0))"

theorem progress_call_effect_witness:
  "fst (progress_decode 1 7 demo_prefilled) \<and> pv_stage (rp_value demo_prefilled) = prefill_phase \<and>
   pv_stage (rp_value (snd (progress_decode 1 7 demo_prefilled))) = decode_phase \<and>
   unat (pv_cached_tokens (rp_value (snd (progress_decode 1 7 demo_prefilled)))) +
     unat (pv_processed_tokens (rp_value (snd (progress_decode 1 7 demo_prefilled)))) =
     unat (pv_prompt_tokens (rp_value (snd (progress_decode 1 7 demo_prefilled))))"
proof -
  have o: "progress_opened (progress_new 0)"
    by (auto simp: progress_opened_def)
  have "progress_apply (call_prefill 4 10 10) 5 (progress_new 0) = (fst (progress_prefill 4 10 10 5 (progress_new 0)), demo_prefilled)"
    by (simp add: demo_prefilled_def)
  then have run: "progress_step\<^sup>*\<^sup>* (progress_new 0) demo_prefilled"
    by (blast intro: progress_call)
  have "progress_apply (call_decode 1) 7 demo_prefilled = (fst (progress_decode 1 7 demo_prefilled), snd (progress_decode 1 7 demo_prefilled))"
    by simp
  note e = progress_call_effect [OF o run this refl refl]
  have s: "pv_stage (rp_value (snd (progress_decode 1 7 demo_prefilled))) = decode_phase" "fst (progress_decode 1 7 demo_prefilled)"
    "pv_stage (rp_value demo_prefilled) = prefill_phase"
    by (simp_all add: demo_prefilled_def progress_decode_def progress_prefill_def progress_new_def progress_advance_def)
  then show ?thesis
    using e by simp
qed

section \<open>Prefix reuse\<close>

text \<open>C30. Matching a saved history against a new prompt ends, never accepts a wrong match, and finds every right one. It
  returns for every decoder and byte budget. When it accepts with \<open>k\<close> consumed tokens, the first \<open>k\<close> tokens of the
  prompt stand for exactly the bytes and control tokens of the committed history. Conversely, when every token
  of the base vocabulary has a text and the budget covers the committed text, it accepts each prompt that has such
  a prefix and returns the one length it can have.\<close>

theorem equivalent_prefix_exact:
  assumes "base_vocab \<noteq> 0" and "committed \<noteq> 0" and "committed \<le> length saved"
    and "history = history_text base_vocab decode (take committed saved)"
  shows "\<exists>ok k. equivalent_prefix saved committed incoming base_vocab decode byte_budget = Some (ok, k) \<and>
    (ok \<longrightarrow> k \<le> length incoming \<and> history = history_text base_vocab decode (take k incoming)) \<and>
    (decodes_all base_vocab decode \<and> length history \<le> byte_budget \<longrightarrow>
      (\<forall>m\<le>length incoming. history = history_text base_vocab decode (take m incoming) \<longrightarrow> ok \<and> k = m))"
proof -
  let ?ts = "take committed saved"
  have loop: "equivalent_prefix saved committed incoming base_vocab decode byte_budget =
      prefix_loop saved committed incoming base_vocab decode byte_budget 0 0 0 0 0 [] []"
    using assms(1-3) by (simp add: equivalent_prefix_def)
  have "loop_right base_vocab decode ?ts incoming (byte_budget - 0) 0 0 0 0 [] []
      (prefix_loop saved committed incoming base_vocab decode byte_budget 0 0 0 0 0 [] [])"
    by (rule prefix_loop_spec) (use assms(3) in \<open>simp_all add: piece_ok_def\<close>)
  moreover have m: "match_at base_vocab decode ?ts incoming 0 0 0 0 [] [] k \<longleftrightarrow>
      k \<le> length incoming \<and> history = history_text base_vocab decode (take k incoming)" for k
    using assms(4) by (simp add: match_at_def rest_text_def)
  ultimately consider (yes) k where "equivalent_prefix saved committed incoming base_vocab decode byte_budget = Some (True, k)"
      "k \<le> length incoming" "history = history_text base_vocab decode (take k incoming)"
    | (no) k where "equivalent_prefix saved committed incoming base_vocab decode byte_budget = Some (False, k)"
      "decodes_all base_vocab decode \<longrightarrow> length history \<le> byte_budget \<longrightarrow>
       (\<forall>m. \<not> (m \<le> length incoming \<and> history = history_text base_vocab decode (take m incoming)))"
    using assms(4) unfolding loop loop_right_def m by (auto simp: rest_text_def)
  then show ?thesis
  proof cases
    case yes
    have "k = m" if "m \<le> length incoming" "history = history_text base_vocab decode (take m incoming)" for m
      using history_text_take_inj [of base_vocab decode k incoming m] yes(2,3) that by simp
    then show ?thesis
      using yes by auto
  next
    case no
    then show ?thesis by auto
  qed
qed

text \<open>The history \<open>ab c\<close> matches the prompt \<open>a bc d\<close> up to its second token, with one control token before both.\<close>

definition demo_decode :: "u32 \<Rightarrow> string option" where
  "demo_decode t = Some (if t = 0 then ''ab'' else if t = 1 then ''c'' else if t = 2 then ''a'' else ''bc'')"

theorem equivalent_prefix_exact_witness:
  "\<exists>k. equivalent_prefix [9, 0, 1] 3 [9, 2, 3, 1] 4 demo_decode 100 = Some (True, k) \<and> k = 3"
proof -
  have h: "history_text 4 demo_decode (take 3 [9, 0, 1]) = history_text 4 demo_decode (take 3 [9, 2, 3, 1])"
    "length (history_text 4 demo_decode (take 3 [9, 0, 1])) \<le> 100" "decodes_all 4 demo_decode"
    by (simp_all add: history_text_def token_text_def demo_decode_def numeral_3_eq_3 decodes_all_def)
  have le: "(3 :: nat) \<le> length [9, 2, 3, 1 :: u32]" "(4 :: u32) \<noteq> 0" "(3 :: nat) \<noteq> 0" "3 \<le> length [9, 0, 1 :: u32]"
    by simp_all
  obtain ok k where r: "equivalent_prefix [9, 0, 1] 3 [9, 2, 3, 1] 4 demo_decode 100 = Some (ok, k)"
    "decodes_all 4 demo_decode \<and> length (history_text 4 demo_decode (take 3 [9, 0, 1])) \<le> 100 \<longrightarrow>
      (\<forall>m\<le>length [9, 2, 3, 1 :: u32]. history_text 4 demo_decode (take 3 [9, 0, 1]) = history_text 4 demo_decode (take m [9, 2, 3, 1]) \<longrightarrow>
         ok \<and> k = m)"
    using equivalent_prefix_exact [OF le(2-4) refl, where incoming = "[9, 2, 3, 1]" and byte_budget = 100 and decode = demo_decode] by blast
  have "ok \<and> k = 3"
    using r(2) h le(1) by blast
  then show ?thesis
    using r(1) by simp
qed

section \<open>The resident suffix\<close>

text \<open>C32. The suffix of pages that may be addressed directly is exact. When the current page is not in its slot the
  result is the page after it (which is page 0 when the current page is the largest 32-bit number). Otherwise
  every page from the result up to the current one is in its slot, they fit into the ring, no two of them
  share a slot, and the suffix cannot be longer: it starts at page 0, fills the ring, or the page before it
  is not in its slot.\<close>

theorem resident_suffix_exact:
  assumes "slots \<noteq> 0" and "r = resident_suffix_begin current slots (Some ids)"
  shows "if resident slots ids (unat current)
    then unat r \<le> unat current \<and> (\<forall>p. unat r \<le> p \<and> p \<le> unat current \<longrightarrow> resident slots ids p) \<and>
      unat current - unat r + 1 \<le> unat slots \<and>
      (\<forall>p q. unat r \<le> p \<and> p \<le> unat current \<and> unat r \<le> q \<and> q \<le> unat current \<and>
         p mod unat slots = q mod unat slots \<longrightarrow> p = q) \<and>
      (unat r = 0 \<or> unat current - unat r + 1 = unat slots \<or> \<not> resident slots ids (unat r - 1))
    else unat r = (unat current + 1) mod 2 ^ 32"
proof -
  have at: "ids ! unat (current mod slots) = current \<longleftrightarrow> resident slots ids (unat current)"
    by (simp add: resident_def unat_mod_distrib word_unat_eq_iff)
  have pos: "0 < unat slots"
    using assms(1) by (simp add: unat_gt_0)
  show ?thesis
  proof (cases "resident slots ids (unat current)")
    case True
    then have r: "r = suffix_loop current slots ids current"
      using assms at by (simp add: resident_suffix_begin_def)
    have "resident slots ids p" if "unat current \<le> p" "p \<le> unat current" for p
      using that True by simp
    from suffix_loop_spec [OF order_refl this _ r] pos have spec: "unat r \<le> unat current"
      "\<And>p. unat r \<le> p \<Longrightarrow> p \<le> unat current \<Longrightarrow> resident slots ids p" "unat current - unat r < unat slots"
      "unat r = 0 \<or> unat current - unat r + 1 = unat slots \<or> \<not> resident slots ids (unat r - 1)"
      by simp_all
    have inj: "p = q" if "resident slots ids p" "resident slots ids q" "p mod unat slots = q mod unat slots" for p q
      using that by (metis resident_def)
    show ?thesis
      unfolding if_P [OF True] using spec inj [OF spec(2) spec(2)] by (metis Suc_eq_plus1 Suc_leI)
  next
    case False
    then have "r = current + 1"
      using assms at by (auto simp: resident_suffix_begin_def)
    then show ?thesis
      using False by (simp add: unat_word_ariths)
  qed
qed

theorem resident_suffix_exact_witness:
  "resident 4 [8, 9, 6, 7] 9 \<and> unat (resident_suffix_begin 9 4 (Some [8, 9, 6, 7])) \<le> 9 \<and>
   resident 4 [8, 9, 6, 7] (unat (resident_suffix_begin 9 4 (Some [8, 9, 6, 7])))"
  using resident_suffix_exact [of 4 "resident_suffix_begin 9 4 (Some [8, 9, 6, 7])" 9 "[8, 9, 6, 7]"]
  by (simp add: resident_def)

section \<open>Host policies\<close>

text \<open>C33. The memory check is exact and never wraps: an allocation is admitted exactly when the file can be read, the
  first line that scans names a size of less than \<open>2 ^ 64\<close> bytes, and the allocation leaves the reserve of 128 MiB.
  Without such a line nothing is admitted.\<close>

theorem host_allocation_exact:
  "host_allocation_fits lines bytes \<longleftrightarrow>
   (\<exists>before line rest kib. lines = Some (before @ line # rest) \<and> scan_mem_available line = Some kib \<and>
      list_all (\<lambda>l. scan_mem_available l = None) before \<and>
      unat kib * 1024 < 2 ^ 64 \<and> 134217728 < unat kib * 1024 \<and> unat bytes + 134217728 \<le> unat kib * 1024)"
  (is "_ \<longleftrightarrow> ?r lines")
proof -
  have fit: "available_kib ls \<le> (- 1) div 1024 \<and> fits bytes (available_kib ls * 1024) \<longleftrightarrow>
      unat (available_kib ls) * 1024 < 2 ^ 64 \<and> 134217728 < unat (available_kib ls) * 1024 \<and>
      unat bytes + 134217728 \<le> unat (available_kib ls) * 1024" for ls
    using kib_bytes [of "available_kib ls"] by (auto simp: fits_nat)
  have first: "available_kib (before @ line # rest) = kib"
    if "scan_mem_available line = Some kib" "list_all (\<lambda>l. scan_mem_available l = None) before" for before line rest kib
    using that by (induction before) simp_all
  have none: "available_kib ls = 0" if "\<forall>l\<in>set ls. scan_mem_available l = None" for ls
    using that by (induction ls) simp_all
  have right: "?r (Some ls)" if "available_kib ls \<le> (- 1) div 1024 \<and> fits bytes (available_kib ls * 1024)" for ls
  proof -
    have "\<exists>l\<in>set ls. scan_mem_available l \<noteq> None"
      using that none [of ls] unfolding fit by fastforce
    from split_list_first_prop [OF this] obtain before line rest where
      ls: "ls = before @ line # rest" "scan_mem_available line \<noteq> None" "\<forall>l\<in>set before. scan_mem_available l = None"
      by blast
    obtain kib where k: "scan_mem_available line = Some kib"
      using ls(2) by auto
    have b: "list_all (\<lambda>l. scan_mem_available l = None) before"
      using ls(3) by (simp add: list_all_iff)
    have "available_kib ls = kib"
      unfolding ls(1) by (rule first [OF k b])
    then show ?thesis
      using that k b ls(1) unfolding fit by auto
  qed
  show ?thesis
  proof (cases lines)
    case (Some ls)
    have "?r (Some ls) \<Longrightarrow> host_allocation_fits (Some ls) bytes"
      using first unfolding host_allocation_fits_def option.case fit by (elim exE conjE) simp
    moreover have "host_allocation_fits (Some ls) bytes \<Longrightarrow> ?r (Some ls)"
      by (rule right) (simp only: host_allocation_fits_def option.case)
    ultimately show ?thesis
      unfolding Some by (rule iffI [rotated])
  qed (simp add: host_allocation_fits_def)
qed

text \<open>A reasoning profile is found exactly under its name, in any letter case: the lookup returns the row of the table
  whose identifier is the lower-case form of the request, and nothing otherwise. The seven budgets
  increase from 0, the one profile without thinking, to the published maximum.\<close>

theorem reasoning_find_exact:
  "(reasoning_find requested = Some p \<longleftrightarrow> p \<in> set kProfiles \<and> rf_id p = lower requested) \<and>
   reasoning_find (lower requested) = reasoning_find requested \<and>
   map reasoning_find (map rf_id kProfiles) = map Some kProfiles \<and>
   length kProfiles = 7 \<and> sorted_wrt (<) (map rf_thinking_budget_tokens kProfiles) \<and>
   rf_thinking_budget_tokens (last kProfiles) = kMaxThinkingBudgetTokens \<and>
   list_all (\<lambda>p. rf_thinking p = (0 < rf_thinking_budget_tokens p)) kProfiles"
proof -
  have "reasoning_find requested = Some p \<longleftrightarrow> p \<in> set kProfiles \<and> rf_id p = lower requested"
    using find_profile_Some [OF distinct_profiles] by (simp add: reasoning_find_def canonical_name_def)
  moreover have "reasoning_find (lower requested) = reasoning_find requested"
    by (simp add: reasoning_find_def canonical_name_def lower_idem)
  moreover have "map reasoning_find (map rf_id kProfiles) = map Some kProfiles"
    by code_simp
  moreover have "sorted_wrt (<) (map rf_thinking_budget_tokens kProfiles)" "length kProfiles = 7"
    "rf_thinking_budget_tokens (last kProfiles) = kMaxThinkingBudgetTokens"
    "list_all (\<lambda>p. rf_thinking p = (0 < rf_thinking_budget_tokens p)) kProfiles"
    by (simp_all add: kProfiles_def kMaxThinkingBudgetTokens_def)
  ultimately show ?thesis by blast
qed

end
