(* ===== verification/SessionFormat.thy ===== *)
theory SessionFormat
  imports KvTxSpec Sha256
begin

text \<open>
  Names and manifest of the session store (\<open>src/axiom_qwen38_session_store.cpp\<close>,
  \<open>include/axiom/qwen38_session_store.hpp\<close>): hashes, texts that identify a session, paths, file names
  and their parsers, and the byte image of a manifest with its two kinds of checksum.
\<close>

section \<open>Hashes and numbers as text\<close>

definition fnv_basis :: u64 where "fnv_basis = 1469598103934665603"

definition fnv_update :: "u64 \<Rightarrow> byte list \<Rightarrow> u64" where
  "fnv_update hash bs = foldl (\<lambda>h b. (h XOR ucast b) * 1099511628211) hash bs"

definition hex_char :: "nat \<Rightarrow> char" where
  "hex_char n = ''0123456789abcdef'' ! n"

definition hex64 :: "u64 \<Rightarrow> string" where
  "hex64 value = map (\<lambda>i. hex_char (unat (drop_bit (60 - 4 * i) value AND 15))) [0..<16]"

definition hash128 :: "string \<Rightarrow> string" where
  "hash128 s =
     (let first = fnv_update fnv_basis (string_bytes s);
          second = fnv_update (1099511628211 XOR 0x9e3779b97f4a7c15) (string_bytes s);
          second = fnv_update second (le_bytes 8 first)
      in hex64 first @ hex64 second)"

text \<open>\<open>std::to_string\<close> of an unsigned number.\<close>

definition digit_char :: "nat \<Rightarrow> char" where
  "digit_char d = char_of (48 + d)"

fun decimal :: "nat \<Rightarrow> string" where
  "decimal n = (if n < 10 then [digit_char n] else decimal (n div 10) @ [digit_char (n mod 10)])"

declare decimal.simps [simp del]

section \<open>Sessions and their paths\<close>

record session_key =
  sk_session_id :: string
  sk_model_id :: string
  sk_target_identity :: string
  sk_dspark_identity :: string
  sk_config_signature :: string
  sk_profile :: string

record session_paths =
  sp_namespace_id :: string
  sp_namespace_dir :: string
  sp_session_stem :: string
  sp_manifest_path :: string
  sp_tier_path :: string
  sp_transaction_path :: string
  sp_generation :: u64

record session_manifest =
  sm_generation :: u64
  sm_committed_tokens :: u32
  sm_next_token :: u32
  sm_token_hash :: u64
  sm_session_id :: string
  sm_namespace_id :: string
  sm_namespace_text :: string
  sm_profile :: string
  sm_token_ids :: "u32 list"
  sm_recurrent_state :: "byte list"
  sm_speculative_state :: "byte list"

definition kSessionIdBytes :: nat where "kSessionIdBytes = 128"
definition kNamespaceIdBytes :: nat where "kNamespaceIdBytes = 33"
definition kNamespaceTextBytes :: nat where "kNamespaceTextBytes = 1536"
definition kProfileBytes :: nat where "kProfileBytes = 32"
definition kMaxRecurrentBytes :: nat where "kMaxRecurrentBytes = 1024 * 1024 * 1024"
definition kMaxSpeculativeBytes :: nat where "kMaxSpeculativeBytes = 16 * 1024 * 1024"
definition kManifestHeaderBytes :: nat where "kManifestHeaderBytes = 4096"

definition valid_session_id :: "string \<Rightarrow> bool" where
  "valid_session_id session_id \<longleftrightarrow>
     session_id \<noteq> [] \<and> length session_id \<le> kSessionIdBytes - 1 \<and>
     list_all (\<lambda>c. \<not> ((of_char c :: nat) < 0x20 \<or> (of_char c :: nat) = 0x7f \<or> c = CHR ''/'' \<or> c = CHR 0x5C)) session_id"

definition namespace_fields :: "session_key \<Rightarrow> string list" where
  "namespace_fields key = [sk_model_id key, sk_target_identity key, sk_dspark_identity key,
     sk_config_signature key, sk_profile key, sk_session_id key]"

definition namespace_text :: "session_key \<Rightarrow> string" where
  "namespace_text key = concat (map (\<lambda>field. decimal (length field) @ '':'' @ field @ '';'') (namespace_fields key))"

definition namespace_id :: "session_key \<Rightarrow> string" where
  "namespace_id key = hash128 (namespace_text key)"

definition token_bytes :: "u32 list \<Rightarrow> byte list" where
  "token_bytes tokens = concat (map (le_bytes 4) tokens)"

definition token_hash :: "u32 list \<Rightarrow> u64" where
  "token_hash tokens = (if tokens = [] then fnv_basis else fnv_update fnv_basis (token_bytes tokens))"

definition paths_for :: "string \<Rightarrow> session_key \<Rightarrow> u64 \<Rightarrow> session_paths" where
  "paths_for root_path key generation =
     (let namespace_dir = root_path @ ''/'' @ namespace_id key;
          session_stem = hash128 (sk_session_id key);
          tier_path = namespace_dir @ ''/'' @ session_stem @ ''.g'' @ decimal (unat generation) @ ''.kv''
      in \<lparr>sp_namespace_id = namespace_id key, sp_namespace_dir = namespace_dir, sp_session_stem = session_stem,
          sp_manifest_path = namespace_dir @ ''/'' @ session_stem @ ''.manifest'',
          sp_tier_path = tier_path, sp_transaction_path = tier_path @ ''.txn'', sp_generation = generation\<rparr>)"

section \<open>File names\<close>

definition is_digit :: "char \<Rightarrow> bool" where
  "is_digit c \<longleftrightarrow> 48 \<le> (of_char c :: nat) \<and> (of_char c :: nat) \<le> 57"

definition digit_of :: "char \<Rightarrow> u64" where
  "digit_of c = of_nat (of_char c - 48)"

definition ends_with :: "string \<Rightarrow> string \<Rightarrow> bool" where
  "ends_with suffix name \<longleftrightarrow> length name > length suffix \<and> drop (length name - length suffix) name = suffix"

definition generation_suffix_size :: "string \<Rightarrow> nat" where
  "generation_suffix_size name =
     (if ends_with ''.kv'' name then 3 else if ends_with ''.kv.txn'' name then 7
      else if ends_with ''.kv.txn.tmp'' name then 11 else 0)"

text \<open>The loop over the digits; \<open>None\<close> on another character or when the value does not fit.\<close>

fun digits_loop :: "string \<Rightarrow> u64 \<Rightarrow> u64 option" where
  "digits_loop [] value = Some value"
| "digits_loop (c # cs) value =
     (if \<not> is_digit c then None
      else if value > (- 1 - digit_of c) div 10 then None
      else digits_loop cs (value * 10 + digit_of c))"

definition parse_generation_filename :: "string \<Rightarrow> string \<Rightarrow> u64 option" where
  "parse_generation_filename name session_stem =
     (let prefix = session_stem @ ''.g'';
          suffix_size = generation_suffix_size name
      in if suffix_size = 0 \<or> length name \<le> length prefix + suffix_size \<or>
            take (length prefix) name \<noteq> prefix \<or> name ! length prefix = CHR ''0'' then None
         else case digits_loop (take (length name - suffix_size - length prefix) (drop (length prefix) name)) 0 of
           None \<Rightarrow> None
         | Some value \<Rightarrow> if value = 0 then None else Some value)"

definition is_lower_hex_32 :: "string \<Rightarrow> bool" where
  "is_lower_hex_32 s \<longleftrightarrow> length s = 32 \<and>
     list_all (\<lambda>c. is_digit c \<or> 97 \<le> (of_char c :: nat) \<and> (of_char c :: nat) \<le> 102) s"

fun components_loop :: "nat \<Rightarrow> string \<Rightarrow> nat \<Rightarrow> u64 \<Rightarrow> bool \<Rightarrow> bool" where
  "components_loop expected [] components value have_digit \<longleftrightarrow>
     components = expected \<and> have_digit \<and> value \<noteq> 0"
| "components_loop expected (c # cs) components value have_digit \<longleftrightarrow>
     (if is_digit c then
        (if \<not> have_digit \<and> c = CHR ''0'' then False
         else if value > (- 1 - digit_of c) div 10 then False
         else components_loop expected cs components (value * 10 + digit_of c) True)
      else if c \<noteq> CHR ''.'' \<or> \<not> have_digit \<or> value = 0 \<or> components \<ge> expected then False
      else components_loop expected cs (components + 1) 0 False)"

definition exact_positive_decimal_components :: "string \<Rightarrow> nat \<Rightarrow> bool" where
  "exact_positive_decimal_components s expected \<longleftrightarrow>
     \<not> (s = [] \<or> expected = 0 \<or> hd s = CHR ''.'' \<or> last s = CHR ''.'') \<and> components_loop expected s 1 0 False"

definition parse_session_artifact :: "string \<Rightarrow> string option" where
  "parse_session_artifact name =
     (if length name \<le> 32 then None
      else
        let stem = take 32 name; suffix = drop 32 name
        in if \<not> is_lower_hex_32 stem then None
           else if suffix = ''.manifest'' \<or> parse_generation_filename name stem \<noteq> None \<or>
             take 14 suffix = ''.manifest.tmp.'' \<and> exact_positive_decimal_components (drop 14 suffix) 2
           then Some stem else None)"

definition parse_gc_tombstone :: "string \<Rightarrow> string option" where
  "parse_gc_tombstone name =
     (if length name \<le> 4 + 32 + 1 \<or> take 4 name \<noteq> ''.gc.'' then None
      else
        let candidate = take 32 (drop 4 name)
        in if \<not> is_lower_hex_32 candidate \<or> name ! 36 \<noteq> CHR ''.'' \<or>
              \<not> exact_positive_decimal_components (drop 37 name) 3 then None
           else Some candidate)"

section \<open>The manifest on disk\<close>

record manifest_header =
  mh_magic :: "byte list"
  mh_abi :: u32
  mh_header_bytes :: u32
  mh_generation :: u64
  mh_committed_tokens :: u32
  mh_next_token :: u32
  mh_token_count :: u32
  mh_recurrent_bytes :: u32
  mh_token_hash :: u64
  mh_payload_bytes :: u64
  mh_checksum :: u64
  mh_namespace_id :: "byte list"
  mh_session_id :: "byte list"
  mh_namespace_text :: "byte list"
  mh_profile :: "byte list"
  mh_speculative_bytes :: u32
  mh_reserved :: "byte list"

definition manifest_image :: "manifest_header \<Rightarrow> byte list" where
  "manifest_image h = mh_magic h @ le_bytes 4 (mh_abi h) @ le_bytes 4 (mh_header_bytes h) @ le_bytes 8 (mh_generation h) @
     le_bytes 4 (mh_committed_tokens h) @ le_bytes 4 (mh_next_token h) @ le_bytes 4 (mh_token_count h) @
     le_bytes 4 (mh_recurrent_bytes h) @ le_bytes 8 (mh_token_hash h) @ le_bytes 8 (mh_payload_bytes h) @
     le_bytes 8 (mh_checksum h) @ mh_namespace_id h @ mh_session_id h @ mh_namespace_text h @ mh_profile h @
     le_bytes 4 (mh_speculative_bytes h) @ mh_reserved h"

definition manifest_of :: "byte list \<Rightarrow> manifest_header" where
  "manifest_of bs = \<lparr>mh_magic = field_at 0 8 bs, mh_abi = u32_at 8 bs, mh_header_bytes = u32_at 12 bs,
     mh_generation = u64_at 16 bs, mh_committed_tokens = u32_at 24 bs, mh_next_token = u32_at 28 bs,
     mh_token_count = u32_at 32 bs, mh_recurrent_bytes = u32_at 36 bs, mh_token_hash = u64_at 40 bs,
     mh_payload_bytes = u64_at 48 bs, mh_checksum = u64_at 56 bs, mh_namespace_id = field_at 64 33 bs,
     mh_session_id = field_at 97 128 bs, mh_namespace_text = field_at 225 1536 bs, mh_profile = field_at 1761 32 bs,
     mh_speculative_bytes = u32_at 1793 bs, mh_reserved = field_at 1797 2299 bs\<rparr>"

definition kManifestMagic :: "byte list" where
  "kManifestMagic = string_bytes ''AXQ38SM1''"

text \<open>A text in a field of fixed size: it ends with a zero byte, so it must be shorter than the field.\<close>

definition copy_text :: "nat \<Rightarrow> string \<Rightarrow> byte list option" where
  "copy_text capacity s =
     (if length s \<ge> capacity then None else Some (string_bytes s @ replicate (capacity - length s) 0))"

definition bytes_string :: "byte list \<Rightarrow> string" where
  "bytes_string bs = map (\<lambda>b. char_of (unat b)) bs"

definition read_text :: "byte list \<Rightarrow> string option" where
  "read_text source = (if 0 \<in> set source then Some (bytes_string (takeWhile (\<lambda>b. b \<noteq> 0) source)) else None)"

text \<open>\<open>digest\<close> is the SHA-256 of the OpenSSL library on the concatenation of all updates; \<open>None\<close> is a failed call.\<close>

definition seal_manifest ::
  "(byte list \<Rightarrow> byte list option) \<Rightarrow> manifest_header \<Rightarrow> u32 list \<Rightarrow> byte list \<Rightarrow> byte list \<Rightarrow> manifest_header option" where
  "seal_manifest digest source tokens recurrent speculative =
     (let header = source\<lparr>mh_checksum := 0\<rparr>
      in if mh_abi header = 1 then
           (let hash = fnv_update fnv_basis (manifest_image header);
                hash = fnv_update hash (token_bytes tokens);
                hash = fnv_update hash recurrent
            in Some (header\<lparr>mh_checksum := fnv_update hash speculative\<rparr>))
         else if mh_abi header = 2 then
           (let header = header\<lparr>mh_reserved := replicate 32 0 @ drop 32 (mh_reserved header)\<rparr>
            in case digest (manifest_image header @ token_bytes tokens @ recurrent @ speculative) of
                 None \<Rightarrow> None
               | Some d \<Rightarrow>
                   if length d \<noteq> 32 then None
                   else Some (header\<lparr>mh_reserved := d @ drop 32 (mh_reserved header)\<rparr>))
         else None)"

section \<open>Continuing a session\<close>

definition AXIOM_TOKEN_ID_INVALID :: u32 where "AXIOM_TOKEN_ID_INVALID = - 1"

text \<open>The result: \<open>Inl\<close> an error, \<open>Inr None\<close> not usable, \<open>Inr (Some prompt)\<close>. \<open>reserved\<close> tells whether the memory for
  the prompt can be had.\<close>

definition build_stateful_resume_prompt ::
  "session_manifest \<Rightarrow> u32 list \<Rightarrow> u32 \<Rightarrow> u32 \<Rightarrow> u32 \<Rightarrow> u32 \<Rightarrow> bool \<Rightarrow> axiom_status + u32 list option" where
  "build_stateful_resume_prompt manifest suffix im_end endoftext vocab_size prompt_limit reserved =
     (if vocab_size = 0 \<or> unat (sm_committed_tokens manifest) > length (sm_token_ids manifest)
      then Inl AXIOM_ERR_INVALID_ARGUMENT
      else if sm_committed_tokens manifest = 0 \<or> suffix = [] \<or> im_end = AXIOM_TOKEN_ID_INVALID \<or>
              sm_next_token manifest \<ge> vocab_size then Inr None
      else if sm_next_token manifest = endoftext then Inr None
      else
        let needs_chatml_close = (sm_next_token manifest \<noteq> im_end);
            candidate_tokens = unat (sm_committed_tokens manifest) + 1 + (if needs_chatml_close then 1 else 0) + length suffix
        in if candidate_tokens > unat prompt_limit then Inr None
           else if \<not> reserved then Inl AXIOM_ERR_BUDGET
           else Inr (Some (take (unat (sm_committed_tokens manifest)) (sm_token_ids manifest) @ [sm_next_token manifest] @
                  (if needs_chatml_close then [im_end] else []) @ suffix)))"

end
