(* ===== verification/SessionStore.thy ===== *)
theory SessionStore
  imports SessionFormat
begin

text \<open>
  The session store (\<open>class qwen38_persistent_session_store\<close> in \<open>src/axiom_qwen38_session_store.cpp\<close>): preparing the
  directories of a session, loading and saving its manifest. The store works on the same files and
  answers as the KV tier.
\<close>

section \<open>Reading and writing everything\<close>

text \<open>\<open>read\<close> and \<open>write\<close> move the position of the descriptor, so the loops carry it.\<close>

function read_full :: "nat \<Rightarrow> nat \<Rightarrow> nat \<Rightarrow> world \<Rightarrow> byte list option \<times> world" where
  "read_full fd bytes position w =
     (if bytes = 0 then (Some [], w)
      else case sys_pread fd bytes position w of
        (transferred d, w) \<Rightarrow>
          (if d = [] then (None, w)
           else case read_full fd (bytes - length d) (position + length d) w of
             (Some rest, w) \<Rightarrow> (Some (d @ rest), w)
           | (None, w) \<Rightarrow> (None, w))
      | (interrupted, w) \<Rightarrow> read_full fd bytes position w
      | (transfer_failed, w) \<Rightarrow> (None, w))"
  by pat_completeness auto
termination
proof (relation "measure (\<lambda>(fd, bytes, position, w). bytes + length (w_answers w))", goal_cases)
  case (2 fd bytes position w x w' d)
  then show ?case
    using sys_pread_answers [of fd bytes position w "transferred d" w'] by (cases d) auto
next
  case (3 fd bytes position w x w')
  then show ?case
    using sys_pread_answers [of fd bytes position w interrupted w'] by auto
qed simp

declare read_full.simps [simp del]

function write_full :: "nat \<Rightarrow> byte list \<Rightarrow> nat \<Rightarrow> world \<Rightarrow> bool \<times> world" where
  "write_full fd bs position w =
     (if bs = [] then (True, w)
      else case sys_pwrite fd bs position w of
        (transferred d, w) \<Rightarrow>
          (if d = [] then (False, w) else write_full fd (drop (length d) bs) (position + length d) w)
      | (interrupted, w) \<Rightarrow> write_full fd bs position w
      | (transfer_failed, w) \<Rightarrow> (False, w))"
  by pat_completeness auto
termination
proof (relation "measure (\<lambda>(fd, bs, position, w). length bs + length (w_answers w))", goal_cases)
  case (2 fd bs position w x w' d)
  then show ?case
    using sys_pwrite_answers [of fd bs position w "transferred d" w'] by (cases d) auto
next
  case (3 fd bs position w x w')
  then show ?case
    using sys_pwrite_answers [of fd bs position w interrupted w'] by auto
qed simp

declare write_full.simps [simp del]

section \<open>The store and its directories\<close>

record session_store =
  ss_base_path :: string
  ss_root_path :: string
  ss_max_context :: u32
  ss_recurrent_state_bytes :: u64
  ss_speculative_state_bytes :: u64
  ss_manifest_version :: u32

definition session_store_new :: session_store where
  "session_store_new = \<lparr>ss_base_path = [], ss_root_path = [], ss_max_context = 0, ss_recurrent_state_bytes = 0,
     ss_speculative_state_bytes = 0, ss_manifest_version = 1\<rparr>"

definition session_configure :: "string \<Rightarrow> u32 \<Rightarrow> u64 \<Rightarrow> u64 \<Rightarrow> session_store \<Rightarrow> session_store" where
  "session_configure base_path max_context recurrent speculative store =
     store\<lparr>ss_base_path := base_path, ss_root_path := (if base_path = [] then [] else base_path @ ''.sessions''),
       ss_max_context := max_context, ss_recurrent_state_bytes := recurrent, ss_speculative_state_bytes := speculative\<rparr>"

definition set_manifest_version :: "u32 \<Rightarrow> session_store \<Rightarrow> bool \<times> session_store" where
  "set_manifest_version version store =
     (if version \<noteq> 1 \<and> version \<noteq> 2 then (False, store) else (True, store\<lparr>ss_manifest_version := version\<rparr>))"

definition store_enabled :: "session_store \<Rightarrow> bool" where
  "store_enabled store \<longleftrightarrow> ss_base_path store \<noteq> []"

text \<open>Directories stand beside the files of the world. The system finds one by the components of a path, absolute
  or not; two paths with the same components name the same entry. \<open>stat\<close> follows a link, \<open>open\<close> with
  \<open>O_NOFOLLOW\<close> does not.\<close>

datatype entry_kind = entry_directory | entry_link_to_directory | entry_other

record dir_entry =
  de_kind :: entry_kind
  de_owned :: bool
  de_mode :: u32

type_synonym directories = "bool \<times> string list \<Rightarrow> dir_entry option"

fun path_components :: "string \<Rightarrow> string \<Rightarrow> string list" where
  "path_components component [] = (if component = [] then [] else [component])"
| "path_components component (c # rest) =
     (if c = CHR ''/'' then (if component = [] then [] else [component]) @ path_components [] rest
      else path_components (component @ [c]) rest)"

definition path_key :: "string \<Rightarrow> bool \<times> string list" where
  "path_key path = (path \<noteq> [] \<and> hd path = CHR ''/'', path_components [] path)"

text \<open>\<open>mkdir(path, 0700)\<close> where an existing entry counts as success; then \<open>stat\<close> must find a directory.\<close>

definition make_one_directory :: "string \<Rightarrow> directories \<Rightarrow> world \<Rightarrow> bool \<times> directories \<times> world" where
  "make_one_directory path dirs w =
     (case sys_ok w of
        (False, w) \<Rightarrow> (False, dirs, w)
      | (True, w) \<Rightarrow>
          (let dirs = (if dirs (path_key path) = None
             then dirs(path_key path \<mapsto> \<lparr>de_kind = entry_directory, de_owned = True, de_mode = 0x1C0\<rparr>) else dirs)
           in case sys_ok w of (stat_ok, w) \<Rightarrow>
             (stat_ok \<and> (case dirs (path_key path) of None \<Rightarrow> False | Some e \<Rightarrow> de_kind e \<noteq> entry_other), dirs, w)))"

function mkdir_loop :: "string \<Rightarrow> string \<Rightarrow> directories \<Rightarrow> world \<Rightarrow> bool \<times> directories \<times> world" where
  "mkdir_loop current rest dirs w =
     (let component = takeWhile (\<lambda>c. c \<noteq> CHR ''/'') rest;
          behind = dropWhile (\<lambda>c. c \<noteq> CHR ''/'') rest;
          current' = (if component = [] then current
            else if current = [] \<or> current = ''/'' then current @ component else current @ ''/'' @ component)
      in case (if component = [] then (True, dirs, w) else make_one_directory current' dirs w) of
           (False, dirs, w) \<Rightarrow> (False, dirs, w)
         | (True, dirs, w) \<Rightarrow> if behind = [] then (True, dirs, w) else mkdir_loop current' (tl behind) dirs w)"
  by pat_completeness auto
termination
proof (relation "measure (\<lambda>(current, rest, dirs, w). length rest)", goal_cases)
  case (2 current rest dirs w component behind)
  then show ?case
    using length_dropWhile_le [of "\<lambda>c. c \<noteq> CHR ''/''" rest] by (cases "dropWhile (\<lambda>c. c \<noteq> CHR ''/'') rest") auto
qed simp

declare mkdir_loop.simps [simp del]

definition make_directory_recursive :: "string \<Rightarrow> directories \<Rightarrow> world \<Rightarrow> bool \<times> directories \<times> world" where
  "make_directory_recursive path dirs w =
     (if path = [] then (False, dirs, w)
      else if hd path = CHR ''/'' then mkdir_loop ''/'' (tl path) dirs w
      else mkdir_loop [] path dirs w)"

text \<open>No permission for group or others (\<open>S_IRWXG | S_IRWXO\<close>).\<close>

definition private_owned_directory :: "dir_entry \<Rightarrow> bool" where
  "private_owned_directory e \<longleftrightarrow> de_kind e = entry_directory \<and> de_owned e \<and> de_mode e AND 0x3F = 0"

definition validate_private_directory :: "string \<Rightarrow> directories \<Rightarrow> world \<Rightarrow> bool \<times> world" where
  "validate_private_directory path dirs w =
     (case sys_ok w of
        (False, w) \<Rightarrow> (False, w)
      | (True, w) \<Rightarrow> (case dirs (path_key path) of
          None \<Rightarrow> (False, w)
        | Some e \<Rightarrow> if de_kind e \<noteq> entry_directory then (False, w)
            else case sys_ok w of (stat_ok, w) \<Rightarrow> (stat_ok \<and> private_owned_directory e, w)))"

definition session_prepare ::
  "session_store \<Rightarrow> session_key \<Rightarrow> u64 \<Rightarrow> directories \<Rightarrow> world \<Rightarrow> (axiom_status + session_paths) \<times> directories \<times> world" where
  "session_prepare store key generation dirs w =
     (if \<not> store_enabled store \<or> generation = 0 \<or> \<not> valid_session_id (sk_session_id key) \<or> sk_model_id key = [] \<or>
         sk_profile key = [] then (Inl AXIOM_ERR_INVALID_ARGUMENT, dirs, w)
      else case make_directory_recursive (ss_root_path store) dirs w of
        (False, dirs, w) \<Rightarrow> (Inl AXIOM_ERR_IO, dirs, w)
      | (True, dirs, w) \<Rightarrow> (case validate_private_directory (ss_root_path store) dirs w of
          (False, w) \<Rightarrow> (Inl AXIOM_ERR_IO, dirs, w)
        | (True, w) \<Rightarrow>
            (let paths = paths_for (ss_root_path store) key generation
             in case make_directory_recursive (sp_namespace_dir paths) dirs w of
                  (False, dirs, w) \<Rightarrow> (Inl AXIOM_ERR_IO, dirs, w)
                | (True, dirs, w) \<Rightarrow> (case validate_private_directory (sp_namespace_dir paths) dirs w of
                    (False, w) \<Rightarrow> (Inl AXIOM_ERR_IO, dirs, w)
                  | (True, w) \<Rightarrow> (Inr paths, dirs, w)))))"

section \<open>Loading\<close>

text \<open>What the header must promise before the payload is read.\<close>

definition manifest_contract :: "session_store \<Rightarrow> manifest_header \<Rightarrow> bool" where
  "manifest_contract store header \<longleftrightarrow>
     \<not> (mh_magic header \<noteq> kManifestMagic \<or> (mh_abi header \<noteq> 1 \<and> mh_abi header \<noteq> 2) \<or>
        mh_header_bytes header \<noteq> of_nat kManifestHeaderBytes \<or>
        mh_generation header = 0 \<or> mh_committed_tokens header > ss_max_context store \<or>
        mh_token_count header > ss_max_context store \<or> mh_committed_tokens header > mh_token_count header \<or>
        unat (mh_recurrent_bytes header) > kMaxRecurrentBytes \<or>
        unat (mh_speculative_bytes header) > kMaxSpeculativeBytes \<or>
        (ss_recurrent_state_bytes store \<noteq> 0 \<and> ucast (mh_recurrent_bytes header) \<noteq> ss_recurrent_state_bytes store) \<or>
        (ss_speculative_state_bytes store \<noteq> 0 \<and>
          ucast (mh_speculative_bytes header) \<noteq> ss_speculative_state_bytes store))"

definition manifest_payload :: "manifest_header \<Rightarrow> u64 option" where
  "manifest_payload header =
     (let expected = ucast (mh_token_count header) * 4
      in if ucast (mh_recurrent_bytes header) > - 1 - expected then None
         else let expected = expected + ucast (mh_recurrent_bytes header)
           in if ucast (mh_speculative_bytes header) > - 1 - expected then None
              else Some (expected + ucast (mh_speculative_bytes header)))"

definition payload_accepted :: "session_store \<Rightarrow> manifest_header \<Rightarrow> u64 \<Rightarrow> bool" where
  "payload_accepted store header expected \<longleftrightarrow>
     mh_payload_bytes header = expected \<and>
     \<not> mh_payload_bytes header > ucast (ss_max_context store) * 4 + of_nat kMaxRecurrentBytes + of_nat kMaxSpeculativeBytes"

definition words_of :: "nat \<Rightarrow> byte list \<Rightarrow> u32 list" where
  "words_of count bs = map (\<lambda>i. u32_at (4 * i) bs) [0..<count]"

text \<open>The checks on a manifest that was read completely.\<close>

definition accept_manifest ::
  "(byte list \<Rightarrow> byte list option) \<Rightarrow> session_key \<Rightarrow> manifest_header \<Rightarrow> u32 list \<Rightarrow> byte list \<Rightarrow> byte list \<Rightarrow>
   session_manifest option" where
  "accept_manifest digest key header tokens recurrent speculative =
     (case seal_manifest digest header tokens recurrent speculative of
        None \<Rightarrow> None
      | Some sealed \<Rightarrow>
          if mh_checksum header \<noteq> mh_checksum sealed \<or>
             (mh_abi header = 2 \<and> take 32 (mh_reserved header) \<noteq> take 32 (mh_reserved sealed)) then None
          else case (read_text (mh_namespace_id header), read_text (mh_session_id header),
                     read_text (mh_namespace_text header), read_text (mh_profile header)) of
            (Some namespace_id_text, Some session_id_text, Some namespace_text_value, Some profile_text) \<Rightarrow>
              if namespace_id_text \<noteq> namespace_id key \<or> session_id_text \<noteq> sk_session_id key \<or>
                 namespace_text_value \<noteq> namespace_text key \<or> profile_text \<noteq> sk_profile key \<or>
                 mh_token_hash header \<noteq> token_hash tokens then None
              else Some \<lparr>sm_generation = mh_generation header, sm_committed_tokens = mh_committed_tokens header,
                     sm_next_token = mh_next_token header, sm_token_hash = mh_token_hash header,
                     sm_session_id = session_id_text, sm_namespace_id = namespace_id_text,
                     sm_namespace_text = namespace_text_value, sm_profile = profile_text, sm_token_ids = tokens,
                     sm_recurrent_state = recurrent, sm_speculative_state = speculative\<rparr>
          | _ \<Rightarrow> None)"

text \<open>The three parts of the payload, each read only when it is not empty.\<close>

definition read_payload :: "nat \<Rightarrow> manifest_header \<Rightarrow> world \<Rightarrow> (u32 list \<times> byte list \<times> byte list) option \<times> world" where
  "read_payload fd header w =
     (let tokens = unat (mh_token_count header); recurrent = unat (mh_recurrent_bytes header);
          speculative = unat (mh_speculative_bytes header)
      in case read_full fd (4 * tokens) 4096 w of
           (None, w) \<Rightarrow> (None, w)
         | (Some ts, w) \<Rightarrow> (case read_full fd recurrent (4096 + 4 * tokens) w of
             (None, w) \<Rightarrow> (None, w)
           | (Some rs, w) \<Rightarrow> (case read_full fd speculative (4096 + 4 * tokens + recurrent) w of
               (None, w) \<Rightarrow> (None, w)
             | (Some ss, w) \<Rightarrow> (Some (words_of tokens ts, rs, ss), w))))"

text \<open>Loading from the open file.\<close>

definition load_file ::
  "(byte list \<Rightarrow> byte list option) \<Rightarrow> session_store \<Rightarrow> session_key \<Rightarrow> nat \<Rightarrow> world \<Rightarrow>
   (axiom_status + session_manifest) \<times> world" where
  "load_file digest store key fd w =
     (case read_full fd kManifestHeaderBytes 0 w of
        (None, w) \<Rightarrow> (Inl AXIOM_ERR_IO, w)
      | (Some bs, w) \<Rightarrow>
          (let header = manifest_of bs
           in if \<not> manifest_contract store header then (Inl AXIOM_ERR_IO, w)
              else case manifest_payload header of
                None \<Rightarrow> (Inl AXIOM_ERR_IO, w)
              | Some expected \<Rightarrow>
                  if \<not> payload_accepted store header expected then (Inl AXIOM_ERR_IO, w)
                  else case sys_ok w of (stat_ok, w) \<Rightarrow>
                    if \<not> stat_ok \<or> length (file_bytes w fd) \<noteq> kManifestHeaderBytes + unat (mh_payload_bytes header)
                    then (Inl AXIOM_ERR_IO, w)
                    else case sys_ok w of
                      (False, w) \<Rightarrow> (Inl AXIOM_ERR_BUDGET, w)
                    | (True, w) \<Rightarrow> (case read_payload fd header w of
                        (None, w) \<Rightarrow> (Inl AXIOM_ERR_IO, w)
                      | (Some (tokens, recurrent, speculative), w) \<Rightarrow>
                          (case accept_manifest digest key header tokens recurrent speculative of
                             None \<Rightarrow> (Inl AXIOM_ERR_IO, w)
                           | Some manifest \<Rightarrow> (Inr manifest, w)))))"

text \<open>\<open>Inr None\<close>: there is no manifest, a new session. \<open>stat\<close> and \<open>open\<close> of the manifest are two calls.\<close>

definition session_load ::
  "(byte list \<Rightarrow> byte list option) \<Rightarrow> session_store \<Rightarrow> session_key \<Rightarrow> world \<Rightarrow>
   (axiom_status + (session_manifest \<times> session_paths) option) \<times> world" where
  "session_load digest store key w =
     (if \<not> store_enabled store \<or> \<not> valid_session_id (sk_session_id key) then (Inl AXIOM_ERR_INVALID_ARGUMENT, w)
      else
        let path = sp_manifest_path (paths_for (ss_root_path store) key 1)
        in case sys_open path w of
             (Inl enoent, w) \<Rightarrow> (if enoent then Inr None else Inl AXIOM_ERR_IO, w)
           | (Inr status, w) \<Rightarrow> (case sys_open path w of
               (Inl enoent, w) \<Rightarrow> (Inl AXIOM_ERR_IO, w)
             | (Inr fd, w) \<Rightarrow> (case load_file digest store key fd w of
                 (Inl rc, w) \<Rightarrow> (Inl rc, w)
               | (Inr manifest, w) \<Rightarrow>
                   (Inr (Some (manifest, paths_for (ss_root_path store) key (sm_generation manifest))), w))))"

section \<open>Saving\<close>

definition save_arguments :: "session_store \<Rightarrow> session_key \<Rightarrow> session_paths \<Rightarrow> session_manifest \<Rightarrow> bool" where
  "save_arguments store key paths manifest \<longleftrightarrow>
     \<not> (\<not> store_enabled store \<or> sm_generation manifest = 0 \<or> sm_generation manifest \<noteq> sp_generation paths \<or>
        sm_committed_tokens manifest > ss_max_context store \<or>
        length (sm_token_ids manifest) > unat (ss_max_context store) \<or>
        length (sm_token_ids manifest) > 2 ^ 32 - 1 \<or>
        unat (sm_committed_tokens manifest) > length (sm_token_ids manifest) \<or>
        length (sm_recurrent_state manifest) > 2 ^ 32 - 1 \<or>
        length (sm_recurrent_state manifest) \<noteq> unat (ss_recurrent_state_bytes store) \<or>
        length (sm_speculative_state manifest) > 2 ^ 32 - 1 \<or>
        length (sm_speculative_state manifest) \<noteq> unat (ss_speculative_state_bytes store) \<or>
        sm_session_id manifest \<noteq> sk_session_id key \<or> sm_namespace_id manifest \<noteq> namespace_id key \<or>
        sm_namespace_text manifest \<noteq> namespace_text key \<or> sm_profile manifest \<noteq> sk_profile key)"

text \<open>The header with its text fields, not yet sealed.\<close>

definition fill_manifest_header :: "u32 \<Rightarrow> session_manifest \<Rightarrow> manifest_header option" where
  "fill_manifest_header version manifest =
     (case (copy_text kNamespaceIdBytes (sm_namespace_id manifest), copy_text kSessionIdBytes (sm_session_id manifest),
            copy_text kNamespaceTextBytes (sm_namespace_text manifest), copy_text kProfileBytes (sm_profile manifest)) of
        (Some namespace_id_field, Some session_id_field, Some namespace_text_field, Some profile_field) \<Rightarrow>
          Some \<lparr>mh_magic = kManifestMagic, mh_abi = version, mh_header_bytes = of_nat kManifestHeaderBytes,
            mh_generation = sm_generation manifest, mh_committed_tokens = sm_committed_tokens manifest,
            mh_next_token = sm_next_token manifest, mh_token_count = of_nat (length (sm_token_ids manifest)),
            mh_recurrent_bytes = of_nat (length (sm_recurrent_state manifest)),
            mh_token_hash = token_hash (sm_token_ids manifest),
            mh_payload_bytes = of_nat (length (sm_token_ids manifest)) * 4 +
              of_nat (length (sm_recurrent_state manifest)) + of_nat (length (sm_speculative_state manifest)),
            mh_checksum = 0, mh_namespace_id = namespace_id_field, mh_session_id = session_id_field,
            mh_namespace_text = namespace_text_field, mh_profile = profile_field,
            mh_speculative_bytes = of_nat (length (sm_speculative_state manifest)), mh_reserved = replicate 2299 0\<rparr>
      | _ \<Rightarrow> None)"

text \<open>Writing the temporary file: header, tokens, both states, then \<open>fsync\<close> and, in any case, \<open>close\<close>.\<close>

definition write_manifest_file :: "nat \<Rightarrow> manifest_header \<Rightarrow> session_manifest \<Rightarrow> world \<Rightarrow> bool \<times> world" where
  "write_manifest_file fd header manifest w =
     (let tokens = token_bytes (sm_token_ids manifest); recurrent = sm_recurrent_state manifest
      in case write_full fd (manifest_image header) 0 w of (ok, w) \<Rightarrow>
        (case (if ok then write_full fd tokens 4096 w else (False, w)) of (ok, w) \<Rightarrow>
          (case (if ok then write_full fd recurrent (4096 + length tokens) w else (False, w)) of (ok, w) \<Rightarrow>
            (case (if ok then write_full fd (sm_speculative_state manifest) (4096 + length tokens + length recurrent) w
                   else (False, w)) of (ok, w) \<Rightarrow>
              (case (if ok then sys_ok w else (False, w)) of (ok, w) \<Rightarrow>
                (case sys_ok w of (closed, w) \<Rightarrow> (ok \<and> closed, w)))))))"

definition publish_manifest ::
  "string \<Rightarrow> string \<Rightarrow> manifest_header \<Rightarrow> session_manifest \<Rightarrow> world \<Rightarrow> axiom_status \<times> world" where
  "publish_manifest temporary path header manifest w =
     (case sys_open_creat True temporary w of
        (None, w) \<Rightarrow> (AXIOM_ERR_IO, w)
      | (Some fd, w) \<Rightarrow>
          (case write_manifest_file fd header manifest w of (ok, w) \<Rightarrow>
            (case (if ok then sys_rename temporary path w else (False, w)) of (ok, w) \<Rightarrow>
              (case (if ok then parent_directory_sync path w else (False, w)) of (ok, w) \<Rightarrow>
                 (if ok then (AXIOM_OK, w) else (AXIOM_ERR_IO, snd (sys_unlink temporary w)))))))"

text \<open>The name of the temporary file has the number of the process and a number that the process uses once.\<close>

definition temporary_path :: "string \<Rightarrow> nat \<Rightarrow> u64 \<Rightarrow> string" where
  "temporary_path path pid temp_id = path @ ''.tmp.'' @ decimal pid @ ''.'' @ decimal (unat temp_id)"

text \<open>Whether the sum of the three parts of the payload leaves the 64-bit range.\<close>

definition payload_overflows :: "session_manifest \<Rightarrow> bool" where
  "payload_overflows manifest \<longleftrightarrow>
     (let tokens = of_nat (length (sm_token_ids manifest)) * 4 :: u64;
          recurrent = of_nat (length (sm_recurrent_state manifest));
          speculative = of_nat (length (sm_speculative_state manifest))
      in tokens > - 1 - recurrent \<or> tokens + recurrent > - 1 - speculative \<or> tokens + recurrent + speculative > - 1)"

text \<open>\<open>sequence\<close> is the global counter \<open>g_temp_sequence\<close>.\<close>

definition session_save ::
  "(byte list \<Rightarrow> byte list option) \<Rightarrow> nat \<Rightarrow> session_store \<Rightarrow> session_key \<Rightarrow> session_paths \<Rightarrow> session_manifest \<Rightarrow>
   u64 \<Rightarrow> directories \<Rightarrow> world \<Rightarrow> axiom_status \<times> u64 \<times> directories \<times> world" where
  "session_save digest pid store key paths manifest sequence dirs w =
     (if \<not> save_arguments store key paths manifest then (AXIOM_ERR_INVALID_ARGUMENT, sequence, dirs, w)
      else case session_prepare store key (sm_generation manifest) dirs w of
        (Inl rc, dirs, w) \<Rightarrow> (rc, sequence, dirs, w)
      | (Inr prepared, dirs, w) \<Rightarrow>
          if sp_manifest_path prepared \<noteq> sp_manifest_path paths \<or> sp_tier_path prepared \<noteq> sp_tier_path paths \<or>
             sp_transaction_path prepared \<noteq> sp_transaction_path paths
          then (AXIOM_ERR_INVALID_ARGUMENT, sequence, dirs, w)
          else if payload_overflows manifest then (AXIOM_ERR_BUDGET, sequence, dirs, w)
          else case fill_manifest_header (ss_manifest_version store) manifest of
            None \<Rightarrow> (AXIOM_ERR_INVALID_ARGUMENT, sequence, dirs, w)
          | Some header \<Rightarrow>
              (case seal_manifest digest header (sm_token_ids manifest) (sm_recurrent_state manifest)
                  (sm_speculative_state manifest) of
                 None \<Rightarrow> (AXIOM_ERR_RUNTIME, sequence, dirs, w)
               | Some sealed \<Rightarrow>
                   (case publish_manifest (temporary_path (sp_manifest_path paths) pid (sequence + 1))
                       (sp_manifest_path paths) sealed manifest w of (rc, w) \<Rightarrow> (rc, sequence + 1, dirs, w))))"

end
