(* ===== verification/SessionSpec.thy ===== *)
theory SessionSpec
  imports SessionStore
begin

text \<open>
  What saving and loading a manifest do: the byte image and its seal, the loops over \<open>read\<close> and \<open>write\<close>, the published
  file, and the manifest that a later load returns.
\<close>

section \<open>Transfers\<close>

lemma read_full_exact:
  "read_full fd n position w =
     (case exact_pread fd n position w of (Inl e, w') \<Rightarrow> (None, w') | (Inr bs, w') \<Rightarrow> (Some bs, w'))"
proof (induction fd n position w rule: read_full.induct)
  case (1 fd n position w)
  then show ?case
    by (subst read_full.simps, subst exact_pread.simps) (auto split: prod.splits transfer.splits sum.splits)
qed

lemma write_full_exact:
  "write_full fd bs position w = (case exact_pwrite fd bs position w of (rc, w') \<Rightarrow> (rc = AXIOM_OK, w'))"
proof (induction fd bs position w rule: write_full.induct)
  case (1 fd bs position w)
  then show ?case
    by (subst write_full.simps, subst exact_pwrite.simps) (auto split: prod.splits transfer.splits)
qed

lemma read_full_ok:
  assumes "read_full fd n position w = (Some bs, w')"
  shows "bs = field_at position n (file_bytes w fd)" and "quiet w w'"
  using assms exact_pread_ok by (auto simp: read_full_exact split: prod.splits sum.splits)

lemma read_full_quiet: "read_full fd n position w = (r, w') \<Longrightarrow> quiet w w'"
  using exact_pread_spec by (fastforce simp: read_full_exact split: prod.splits sum.splits)

lemma read_full_empty:
  "w_answers w = [] \<Longrightarrow> position + n \<le> length (file_bytes w fd) \<Longrightarrow>
   read_full fd n position w = (Some (field_at position n (file_bytes w fd)), w)"
  by (simp add: read_full_exact exact_pread_empty)

lemma write_full_ok:
  assumes "w_files w fd = Some f" and "write_full fd bs position w = (True, w')"
  shows "quiet (set_bytes fd (write_at position bs (file_bytes w fd)) w) w'"
  using assms exact_pwrite_ok by (auto simp: write_full_exact split: prod.splits)

lemma write_full_any:
  assumes "w_files w fd = Some f" and "write_full fd bs position w = (ok, w')"
  shows "\<exists>cs. quiet (set_bytes fd cs w) w'"
  using assms exact_pwrite_spec [OF assms(1)] by (fastforce simp: write_full_exact split: prod.splits)

lemma write_full_empty:
  "w_answers w = [] \<Longrightarrow>
   write_full fd bs position w = (True, set_bytes fd (write_at position bs (file_bytes w fd)) w)"
  by (simp add: write_full_exact exact_pwrite_empty)

section \<open>Fields of a manifest\<close>

definition wf_manifest_header :: "manifest_header \<Rightarrow> bool" where
  "wf_manifest_header h \<longleftrightarrow> length (mh_magic h) = 8 \<and> length (mh_namespace_id h) = 33 \<and> length (mh_session_id h) = 128 \<and>
     length (mh_namespace_text h) = 1536 \<and> length (mh_profile h) = 32 \<and> length (mh_reserved h) = 2299"

lemma length_manifest_image: "wf_manifest_header h \<Longrightarrow> length (manifest_image h) = 4096"
  by (simp add: manifest_image_def wf_manifest_header_def)

lemma manifest_of_image: "wf_manifest_header h \<Longrightarrow> manifest_of (manifest_image h) = h"
  by (cases h) (simp add: manifest_image_def manifest_of_def wf_manifest_header_def u32_at_def u64_at_def field_at_def)

lemma length_string_bytes [simp]: "length (string_bytes s) = length s"
  by (simp add: string_bytes_def)

lemma bytes_string_bytes [simp]: "bytes_string (string_bytes s) = s"
  by (induction s) (simp_all add: bytes_string_def string_bytes_def unat_of_nat)

lemma string_bytes_nonzero: "CHR 0x00 \<notin> set s \<Longrightarrow> 0 \<notin> set (string_bytes s)"
proof
  assume zero: "CHR 0x00 \<notin> set s" and "0 \<in> set (string_bytes s)"
  then have "char_of (unat (0 :: byte)) \<in> set (bytes_string (string_bytes s))"
    unfolding bytes_string_def by (metis imageI set_map)
  then show False
    using zero by (simp add: char_of_def)
qed

lemma copy_text_length: "copy_text n s = Some field \<Longrightarrow> length field = n"
  by (auto simp: copy_text_def split: if_splits)

lemma read_copied_text: "copy_text n s = Some field \<Longrightarrow> CHR 0x00 \<notin> set s \<Longrightarrow> read_text field = Some s"
proof -
  assume field: "copy_text n s = Some field" and "CHR 0x00 \<notin> set s"
  then have "takeWhile (\<lambda>b. b \<noteq> 0) (string_bytes s) = string_bytes s"
    using string_bytes_nonzero [of s] by (auto simp: takeWhile_eq_all_conv)
  then have "takeWhile (\<lambda>b. b \<noteq> 0) (string_bytes s @ replicate (n - length s) 0) = string_bytes s"
    using string_bytes_nonzero [OF \<open>CHR 0x00 \<notin> set s\<close>] by (subst takeWhile_append2) auto
  then show ?thesis
    using field by (auto simp: copy_text_def read_text_def split: if_splits)
qed

lemma length_token_bytes [simp]: "length (token_bytes tokens) = 4 * length tokens"
  by (induction tokens) (simp_all add: token_bytes_def)

lemma words_of_token_bytes: "words_of (length tokens) (token_bytes tokens) = tokens"
proof (rule nth_equalityI)
  fix i assume "i < length (words_of (length tokens) (token_bytes tokens))"
  then have i: "i < length tokens"
    by (simp add: words_of_def)
  then have "field_at (4 * i) 4 (token_bytes tokens) = le_bytes 4 (tokens ! i)"
  proof (induction tokens arbitrary: i)
    case (Cons t tokens)
    then show ?case
      by (cases i) (simp_all add: token_bytes_def field_at_def)
  qed simp
  then show "words_of (length tokens) (token_bytes tokens) ! i = tokens ! i"
    using i by (simp add: words_of_def u32_at_def)
qed (simp add: words_of_def)

section \<open>The seal\<close>

lemma seal_manifest_wf: "seal_manifest d h t r s = Some h' \<Longrightarrow> wf_manifest_header h \<Longrightarrow> wf_manifest_header h'"
  by (auto simp: seal_manifest_def wf_manifest_header_def Let_def split: if_splits option.splits)

lemma seal_manifest_again: "seal_manifest d h t r s = Some h' \<Longrightarrow> seal_manifest d h' t r s = Some h'"
  by (cases h) (auto simp: seal_manifest_def Let_def split: if_splits option.splits)

lemma seal_manifest_keeps:
  assumes "seal_manifest d h t r s = Some h'"
  shows "mh_magic h' = mh_magic h" "mh_abi h' = mh_abi h" "mh_header_bytes h' = mh_header_bytes h"
    "mh_generation h' = mh_generation h" "mh_committed_tokens h' = mh_committed_tokens h"
    "mh_next_token h' = mh_next_token h" "mh_token_count h' = mh_token_count h"
    "mh_recurrent_bytes h' = mh_recurrent_bytes h" "mh_token_hash h' = mh_token_hash h"
    "mh_payload_bytes h' = mh_payload_bytes h" "mh_namespace_id h' = mh_namespace_id h"
    "mh_session_id h' = mh_session_id h" "mh_namespace_text h' = mh_namespace_text h" "mh_profile h' = mh_profile h"
    "mh_speculative_bytes h' = mh_speculative_bytes h" "mh_abi h = 1 \<or> mh_abi h = 2"
  using assms by (auto simp: seal_manifest_def Let_def split: if_splits option.splits)

section \<open>Publishing\<close>

definition manifest_content :: "manifest_header \<Rightarrow> session_manifest \<Rightarrow> byte list" where
  "manifest_content h m = manifest_image h @ token_bytes (sm_token_ids m) @ sm_recurrent_state m @ sm_speculative_state m"

lemma write_full_append:
  assumes "w_files w fd = Some f" and "df_bytes f = content" and "write_full fd bs (length content) w = (True, w')"
  shows "quiet (set_bytes fd (content @ bs) w) w'" and "w_files w' fd = Some (f\<lparr>df_bytes := content @ bs\<rparr>)"
proof -
  have "write_at (length content) bs content = content @ bs"
    by (simp add: write_at_def)
  then show q: "quiet (set_bytes fd (content @ bs) w) w'"
    using write_full_ok [OF assms(1,3)] assms(1,2) by (simp add: file_bytes_def)
  show "w_files w' fd = Some (f\<lparr>df_bytes := content @ bs\<rparr>)"
    using quiet_files(1) [OF q] assms(1) by (simp add: w_files_set_bytes)
qed

lemma quiet_set_twice:
  "quiet (set_bytes fd xs w) w' \<Longrightarrow> quiet (set_bytes fd ys w') w'' \<Longrightarrow> quiet (set_bytes fd ys w) w''"
  using quiet_trans [OF quiet_set_bytes [of "set_bytes fd xs w" w' fd ys]] by simp

lemma write_manifest_file_ok:
  assumes "write_manifest_file fd h m w = (True, w')"
    and "w_files w fd = Some f" and "df_bytes f = []" and "wf_manifest_header h"
  shows "quiet (set_bytes fd (manifest_content h m) w) w'"
proof -
  let ?t = "token_bytes (sm_token_ids m)" and ?r = "sm_recurrent_state m" and ?s = "sm_speculative_state m"
  let ?h = "manifest_image h"
  obtain w1 w2 w3 w4 w5 where s: "write_full fd ?h 0 w = (True, w1)"
    "write_full fd ?t 4096 w1 = (True, w2)" "write_full fd ?r (4096 + length ?t) w2 = (True, w3)"
    "write_full fd ?s (4096 + length ?t + length ?r) w3 = (True, w4)" "sys_ok w4 = (True, w5)" "sys_ok w5 = (True, w')"
    using assms(1) by (auto simp: write_manifest_file_def Let_def split: prod.splits if_splits)
  have len: "length ?h = 4096"
    using assms(4) by (rule length_manifest_image)
  note a1 = write_full_append [OF assms(2,3), of ?h w1, simplified, OF s(1)]
  note a2 = write_full_append [OF a1(2), of ?h ?t w2, simplified len, simplified, OF s(2) [simplified]]
  note a3 = write_full_append [OF a2(2), of "?h @ ?t" ?r w3, simplified len length_append, simplified, OF s(3) [simplified]]
  note a4 = write_full_append [OF a3(2), of "?h @ ?t @ ?r" ?s w4, simplified len length_append add.assoc, simplified]
  have "quiet (set_bytes fd (manifest_content h m) w3) w4"
    using a4(1) s(4) by (simp add: manifest_content_def add.assoc)
  then have "quiet (set_bytes fd (manifest_content h m) w) w4"
    using quiet_set_twice a1(1) a2(1) a3(1) by (metis (no_types))
  then show ?thesis
    using sys_ok_quiet [OF s(5)] sys_ok_quiet [OF s(6)] quiet_trans by blast
qed

text \<open>What a failed write leaves: some content in the temporary file and nothing else.\<close>

definition file_filled :: "nat \<Rightarrow> world \<Rightarrow> world \<Rightarrow> bool" where
  "file_filled fd w w' \<longleftrightarrow> (\<exists>bs. quiet (set_bytes fd bs w) w')"

lemma file_filled_trans:
  assumes "file_filled fd w w'" and "file_filled fd w' w''" shows "file_filled fd w w''"
  using assms quiet_set_twice unfolding file_filled_def by blast

lemma file_filled_quiet: "quiet w w' \<Longrightarrow> file_filled fd w w'"
  unfolding file_filled_def by (metis set_bytes_same)

lemma file_filled_exists: "file_filled fd w w' \<Longrightarrow> w_files w fd = Some f \<Longrightarrow> \<exists>f'. w_files w' fd = Some f'"
  by (auto simp: file_filled_def quiet_iff w_files_set_bytes)

lemma write_step_filled:
  assumes "(if ok then write_full fd bs position w else (False, w)) = (ok', w')" and "w_files w fd = Some f"
  shows "file_filled fd w w'"
  using assms write_full_any [OF assms(2)] file_filled_quiet [of w w']
  by (auto simp: file_filled_def split: if_splits)

lemma write_manifest_file_any:
  assumes "write_manifest_file fd h m w = (ok, w')" and "w_files w fd = Some f"
  shows "file_filled fd w w'"
proof -
  let ?t = "token_bytes (sm_token_ids m)" and ?r = "sm_recurrent_state m" and ?s = "sm_speculative_state m"
  obtain ok1 w1 where s1: "(if True then write_full fd (manifest_image h) 0 w else (False, w)) = (ok1, w1)" by fastforce
  obtain ok2 w2 where s2: "(if ok1 then write_full fd ?t 4096 w1 else (False, w1)) = (ok2, w2)" by fastforce
  obtain ok3 w3 where s3: "(if ok2 then write_full fd ?r (4096 + length ?t) w2 else (False, w2)) = (ok3, w3)" by fastforce
  obtain ok4 w4 where s4: "(if ok3 then write_full fd ?s (4096 + length ?t + length ?r) w3 else (False, w3)) = (ok4, w4)"
    by fastforce
  obtain ok5 w5 where s5: "(if ok4 then sys_ok w4 else (False, w4)) = (ok5, w5)" by fastforce
  obtain ok6 where s6: "sys_ok w5 = (ok6, w')"
    using assms(1) s1 s2 s3 s4 s5 by (simp add: write_manifest_file_def Let_def split: prod.splits)
  note f1 = write_step_filled [OF s1 assms(2)]
  obtain f1' where f1': "w_files w1 fd = Some f1'" using file_filled_exists [OF f1 assms(2)] ..
  note f2 = write_step_filled [OF s2 f1']
  obtain f2' where f2': "w_files w2 fd = Some f2'" using file_filled_exists [OF f2 f1'] ..
  note f3 = write_step_filled [OF s3 f2']
  obtain f3' where f3': "w_files w3 fd = Some f3'" using file_filled_exists [OF f3 f2'] ..
  note f4 = write_step_filled [OF s4 f3']
  have "quiet w4 w5"
    using s5 sys_ok_quiet by (auto split: if_splits)
  then have "file_filled fd w4 w'"
    using sys_ok_quiet [OF s6] quiet_trans file_filled_quiet by blast
  then show ?thesis
    using f1 f2 f3 f4 file_filled_trans by blast
qed

text \<open>What publishing does: only the names of the temporary file and of the manifest change, and the manifest is the
  old file or the complete new one.\<close>

definition published :: "string \<Rightarrow> string \<Rightarrow> byte list \<Rightarrow> world \<Rightarrow> world \<Rightarrow> bool" where
  "published temporary path content w w' \<longleftrightarrow>
     w_names w' = (w_names w)(temporary := w_names w' temporary, path := Some (w_next w)) \<and>
     w_files w' = (w_files w)(w_next w := Some (empty_file\<lparr>df_bytes := content\<rparr>))"

definition unpublished :: "string \<Rightarrow> world \<Rightarrow> world \<Rightarrow> bool" where
  "unpublished temporary w w' \<longleftrightarrow>
     w_names w' = (w_names w)(temporary := w_names w' temporary) \<and>
     (\<forall>fd. fd \<noteq> w_next w \<longrightarrow> w_files w' fd = w_files w fd)"

lemma published_manifest:
  assumes "published temporary path content w w'"
  shows "w_names w' path = Some (w_next w)" "w_files w' (w_next w) = Some (empty_file\<lparr>df_bytes := content\<rparr>)"
  using assms unfolding published_def by (metis fun_upd_same)+

lemma published_frame:
  assumes "published temporary path content w w'"
  shows "p \<noteq> path \<and> p \<noteq> temporary \<longrightarrow> w_names w' p = w_names w p" "fd \<noteq> w_next w \<longrightarrow> w_files w' fd = w_files w fd"
  using assms unfolding published_def by (metis fun_upd_other)+

lemma unpublished_frame:
  assumes "unpublished temporary w w'"
  shows "p \<noteq> temporary \<longrightarrow> w_names w' p = w_names w p" "fd \<noteq> w_next w \<longrightarrow> w_files w' fd = w_files w fd"
  using assms unfolding unpublished_def by (metis fun_upd_other, blast)

lemma sys_unlink_any:
  "w_files (snd (sys_unlink path w)) = w_files w"
  "\<exists>x. w_names (snd (sys_unlink path w)) = (w_names w)(path := x)"
proof -
  obtain a w1 where a: "take_answer w = (a, w1)" by fastforce
  then have "w_files w1 = w_files w" "w_names w1 = w_names w"
    using take_answer_quiet quiet_files by blast+
  moreover have "\<exists>x. w_names w = (w_names w)(path := x)"
    by (metis fun_upd_triv)
  ultimately show "w_files (snd (sys_unlink path w)) = w_files w"
    "\<exists>x. w_names (snd (sys_unlink path w)) = (w_names w)(path := x)"
    using a by (cases "a = io_done"; auto simp: sys_unlink_def)+
qed

lemma sys_rename_false: "sys_rename old new w = (False, w') \<Longrightarrow> quiet w w'"
  using take_answer_quiet [of w] by (fastforce simp: sys_rename_def quiet_iff split: prod.splits if_splits)

lemma sys_open_creat_none: "sys_open_creat True path w = (None, w') \<Longrightarrow> quiet w w'"
  using take_answer_quiet [of w]
  by (fastforce simp: sys_open_creat_def new_file_def quiet_iff split: prod.splits if_splits option.splits)

lemma publish_manifest_effect:
  assumes "publish_manifest temporary path h m w = (rc, w')" and "wf_manifest_header h" and "temporary \<noteq> path"
  shows "(rc = AXIOM_OK \<or> rc = AXIOM_ERR_IO) \<and>
    (published temporary path (manifest_content h m) w w' \<or> rc \<noteq> AXIOM_OK \<and> unpublished temporary w w')"
proof (cases "sys_open_creat True temporary w")
  case (Pair created w1)
  show ?thesis
  proof (cases created)
    case None
    then show ?thesis
      using assms(1) Pair sys_open_creat_none [of temporary w w1]
      by (auto simp: publish_manifest_def unpublished_def quiet_iff)
  next
    case (Some fd)
    have fd: "fd = w_next w" "w_files w1 = (w_files w)(fd := Some empty_file)" "w_names w1 = (w_names w)(temporary := Some fd)"
      using sys_open_creat_excl [OF Pair [unfolded Some]] by (auto simp: quiet_iff new_file_def)
    obtain ok w2 where s2: "write_manifest_file fd h m w1 = (ok, w2)" by fastforce
    obtain ok' w3 where s3: "(if ok then sys_rename temporary path w2 else (False, w2)) = (ok', w3)" by fastforce
    obtain ok'' w4 where s4: "(if ok' then parent_directory_sync path w3 else (False, w3)) = (ok'', w4)" by fastforce
    have r: "rc = (if ok'' then AXIOM_OK else AXIOM_ERR_IO)" "w' = (if ok'' then w4 else snd (sys_unlink temporary w4))"
      using assms(1) Pair Some s2 s3 s4 by (simp_all add: publish_manifest_def split: if_splits)
    obtain x where x: "w_files w' = w_files w4" "w_names w' = (w_names w4)(temporary := x)"
      using r(2) sys_unlink_any [of temporary w4] by (metis fun_upd_triv)
    have q4: "quiet w3 w4"
      using s4 parent_directory_sync_quiet by (auto split: if_splits)
    show ?thesis
    proof (cases ok')
      case True
      then have s: "ok" "sys_rename temporary path w2 = (True, w3)"
        using s3 by (auto split: if_splits)
      have "quiet (set_bytes fd (manifest_content h m) w1) w2"
        using write_manifest_file_ok [of fd h m w1 w2 empty_file] s2 s(1) fd(2) assms(2) by (simp add: empty_file_def)
      then have w2: "w_files w2 = (w_files w)(fd := Some (empty_file\<lparr>df_bytes := manifest_content h m\<rparr>))"
        "w_names w2 = w_names w1"
        using fd(2) by (auto simp: quiet_iff w_files_set_bytes fun_eq_iff)
      have "w_names w4 = (w_names w)(temporary := None, path := Some fd)" "w_files w4 = w_files w2"
        using quiet_files [OF q4] quiet_files [OF sys_rename_true [OF s(2)]] w2(2) fd(3) assms(3)
        by (simp_all add: fun_upd_twist)
      then have "published temporary path (manifest_content h m) w w'"
        using x w2(1) fd(1) assms(3) by (simp add: published_def fun_upd_twist)
      then show ?thesis using r(1) by simp
    next
      case False
      then have q3: "quiet w2 w3" "\<not> ok''"
        using s3 s4 sys_rename_false by (auto split: if_splits)
      have "file_filled fd w1 w2"
        using write_manifest_file_any [OF s2] fd(2) by simp
      then obtain bs where bs: "quiet (set_bytes fd bs w1) w2"
        by (auto simp: file_filled_def)
      have "w_names w4 = w_names w1" "w_files w4 = w_files (set_bytes fd bs w1)"
        using quiet_files [OF q4] quiet_files [OF q3(1)] quiet_files [OF bs] by simp_all
      then have "unpublished temporary w w'"
        using x fd by (simp add: unpublished_def w_files_set_bytes)
      then show ?thesis using r(1) q3(2) by simp
    qed
  qed
qed

section \<open>Loading\<close>

lemma read_payload_ok:
  assumes "read_payload fd h w = (Some (tokens, recurrent, speculative), w')"
  shows "quiet w w'"
    and "tokens = words_of (unat (mh_token_count h)) (field_at 4096 (4 * unat (mh_token_count h)) (file_bytes w fd))"
    and "recurrent = field_at (4096 + 4 * unat (mh_token_count h)) (unat (mh_recurrent_bytes h)) (file_bytes w fd)"
    and "speculative = field_at (4096 + 4 * unat (mh_token_count h) + unat (mh_recurrent_bytes h))
      (unat (mh_speculative_bytes h)) (file_bytes w fd)"
proof -
  let ?t = "unat (mh_token_count h)" and ?r = "unat (mh_recurrent_bytes h)" and ?s = "unat (mh_speculative_bytes h)"
  obtain w1 w2 ts where s: "read_full fd (4 * ?t) 4096 w = (Some ts, w1)"
    "read_full fd ?r (4096 + 4 * ?t) w1 = (Some recurrent, w2)"
    "read_full fd ?s (4096 + 4 * ?t + ?r) w2 = (Some speculative, w')" "tokens = words_of ?t ts"
    using assms by (auto simp: read_payload_def Let_def split: prod.splits option.splits)
  note r = read_full_ok [OF s(1)] read_full_ok [OF s(2)] read_full_ok [OF s(3)]
  show "quiet w w'"
    using r quiet_trans by blast
  show "tokens = words_of ?t (field_at 4096 (4 * ?t) (file_bytes w fd))"
    "recurrent = field_at (4096 + 4 * ?t) ?r (file_bytes w fd)"
    "speculative = field_at (4096 + 4 * ?t + ?r) ?s (file_bytes w fd)"
    using s(4) r quiet_file_bytes [OF r(2)] quiet_file_bytes [OF r(4)] by simp_all
qed

lemma read_payload_quiet: "read_payload fd h w = (r, w') \<Longrightarrow> quiet w w'"
  by (auto simp: read_payload_def Let_def dest!: read_full_quiet split: prod.splits option.splits intro: quiet_trans)

lemma read_payload_empty:
  assumes "w_answers w = []"
    and "4096 + 4 * unat (mh_token_count h) + unat (mh_recurrent_bytes h) + unat (mh_speculative_bytes h) \<le>
      length (file_bytes w fd)"
  shows "\<exists>r. read_payload fd h w = (Some r, w)"
  using assms by (simp add: read_payload_def Let_def read_full_empty)

lemma load_file_quiet: "load_file digest store key fd w = (r, w') \<Longrightarrow> quiet w w'"
  by (auto simp: load_file_def Let_def dest!: read_full_quiet sys_ok_quiet read_payload_quiet
      split: prod.splits option.splits if_splits bool.splits intro: quiet_trans)

text \<open>A complete manifest file that passes every check, and what it holds.\<close>

definition sound_manifest ::
  "(byte list \<Rightarrow> byte list option) \<Rightarrow> session_store \<Rightarrow> session_key \<Rightarrow> manifest_header \<Rightarrow> session_manifest \<Rightarrow> bool" where
  "sound_manifest digest store key h m \<longleftrightarrow>
     wf_manifest_header h \<and> manifest_contract store h \<and>
     (\<exists>expected. manifest_payload h = Some expected \<and> payload_accepted store h expected) \<and>
     unat (mh_token_count h) = length (sm_token_ids m) \<and> unat (mh_recurrent_bytes h) = length (sm_recurrent_state m) \<and>
     unat (mh_speculative_bytes h) = length (sm_speculative_state m) \<and>
     unat (mh_payload_bytes h) = 4 * length (sm_token_ids m) + length (sm_recurrent_state m) + length (sm_speculative_state m) \<and>
     accept_manifest digest key h (sm_token_ids m) (sm_recurrent_state m) (sm_speculative_state m) = Some m"

lemma manifest_content_fields:
  assumes "wf_manifest_header h"
  shows "field_at 0 4096 (manifest_content h m) = manifest_image h"
    and "field_at 4096 (4 * length (sm_token_ids m)) (manifest_content h m) = token_bytes (sm_token_ids m)"
    and "field_at (4096 + 4 * length (sm_token_ids m)) (length (sm_recurrent_state m)) (manifest_content h m) = sm_recurrent_state m"
    and "field_at (4096 + 4 * length (sm_token_ids m) + length (sm_recurrent_state m)) (length (sm_speculative_state m))
      (manifest_content h m) = sm_speculative_state m"
  using length_manifest_image [OF assms] by (simp_all add: manifest_content_def field_at_def)

lemma load_file_sound:
  assumes "file_bytes w fd = manifest_content h m" and "sound_manifest digest store key h m"
  shows "fst (load_file digest store key fd w) \<in> {Inl AXIOM_ERR_IO, Inl AXIOM_ERR_BUDGET, Inr m}"
proof -
  note sound = assms(2) [unfolded sound_manifest_def]
  note fields = manifest_content_fields [of h m]
  obtain r1 w1 where r1: "read_full fd kManifestHeaderBytes 0 w = (r1, w1)" by fastforce
  obtain ok2 w2 where r2: "sys_ok w1 = (ok2, w2)" by fastforce
  obtain ok3 w3 where r3: "sys_ok w2 = (ok3, w3)" by fastforce
  obtain r4 w4 where r4: "read_payload fd h w3 = (r4, w4)" by fastforce
  have header: "r1 = Some bs \<Longrightarrow> manifest_of bs = h" for bs
    using read_full_ok(1) [of fd kManifestHeaderBytes 0 w bs w1] r1 assms(1) fields(1) sound
    by (simp add: kManifestHeaderBytes_def manifest_of_image)
  have "file_bytes w3 fd = manifest_content h m"
    using quiet_file_bytes [OF read_full_quiet [OF r1]] quiet_file_bytes [OF sys_ok_quiet [OF r2]]
      quiet_file_bytes [OF sys_ok_quiet [OF r3]] assms(1) by simp
  then have payload: "r4 = Some (tokens, recurrent, speculative) \<Longrightarrow>
      tokens = sm_token_ids m \<and> recurrent = sm_recurrent_state m \<and> speculative = sm_speculative_state m"
    for tokens recurrent speculative
    using read_payload_ok [of fd h w3 tokens recurrent speculative w4] r4 fields(2-4) sound
    by (simp add: words_of_token_bytes)
  have "file_bytes w2 fd = manifest_content h m"
    using quiet_file_bytes [OF read_full_quiet [OF r1]] quiet_file_bytes [OF sys_ok_quiet [OF r2]] assms(1) by simp
  then have len: "length (file_bytes w2 fd) = kManifestHeaderBytes + unat (mh_payload_bytes h)"
    using sound length_manifest_image [of h] by (simp add: manifest_content_def kManifestHeaderBytes_def)
  show ?thesis
  proof (cases r1)
    case None
    then show ?thesis using r1 by (simp add: load_file_def)
  next
    case (Some bs)
    then show ?thesis
      using r1 r2 r3 r4 header [OF Some] payload sound len
      by (cases ok2; cases ok3; cases r4) (auto simp: load_file_def Let_def)
  qed
qed

lemma load_file_empty:
  assumes "file_bytes w fd = manifest_content h m" and "sound_manifest digest store key h m" and "w_answers w = []"
  shows "load_file digest store key fd w = (Inr m, w)"
proof -
  note sound = assms(2) [unfolded sound_manifest_def]
  note fields = manifest_content_fields [of h m]
  have len: "length (file_bytes w fd) = 4096 + unat (mh_payload_bytes h)"
    using sound length_manifest_image [of h] by (simp add: assms(1) manifest_content_def)
  have r1: "read_full fd kManifestHeaderBytes 0 w = (Some (manifest_image h), w)"
    using read_full_empty [OF assms(3), of 0 4096 fd] len assms(1) fields(1) sound by (simp add: kManifestHeaderBytes_def)
  obtain r4 where r4: "read_payload fd h w = (Some r4, w)"
    using read_payload_empty [OF assms(3), of h fd] len sound by auto
  obtain tokens recurrent speculative where r: "r4 = (tokens, recurrent, speculative)"
    by (cases r4)
  have "tokens = sm_token_ids m \<and> recurrent = sm_recurrent_state m \<and> speculative = sm_speculative_state m"
    using read_payload_ok [OF r4 [unfolded r]] fields(2-4) sound assms(1) by (simp add: words_of_token_bytes)
  then show ?thesis
    using r1 r4 r sound len sys_ok_empty [OF assms(3)]
    by (auto simp: load_file_def Let_def manifest_of_image kManifestHeaderBytes_def)
qed

end
