(* ===== verification/SessionSave.thy ===== *)
theory SessionSave
  imports SessionSpec
begin

text \<open>
  What a saved manifest is worth: every header that \<open>save\<close> seals passes the checks of \<open>load\<close>. Directories that \<open>prepare\<close>
  makes and accepts. From both, the effect of a whole \<open>save\<close>.
\<close>

section \<open>Saved headers pass the checks\<close>

lemma hex64_chars: "c \<in> set (hex64 v) \<Longrightarrow> c \<in> set ''0123456789abcdef''"
proof -
  assume "c \<in> set (hex64 v)"
  then obtain i where "c = hex_char (unat (drop_bit (60 - 4 * i) v AND 15))"
    by (auto simp: hex64_def)
  moreover have "unat (x AND 15) < 16" for x :: u64
    using word_and_le1 [of x 15] by (simp add: word_le_nat_alt)
  moreover have "n < 16 \<Longrightarrow> hex_char n \<in> set ''0123456789abcdef''" for n
    unfolding hex_char_def by (rule nth_mem) simp
  ultimately show ?thesis by blast
qed

lemma namespace_id_chars: "c \<in> set (namespace_id key) \<Longrightarrow> c \<in> set ''0123456789abcdef''"
  unfolding namespace_id_def hash128_def Let_def set_append using hex64_chars by blast

lemma namespace_fields_chars: "field \<in> set (namespace_fields key) \<Longrightarrow> set field \<subseteq> set (namespace_text key)"
  by (auto simp: namespace_text_def)

lemma unat_of_nat_u32: "n < 2 ^ 32 \<Longrightarrow> unat (of_nat n :: u32) = n"
  by (simp add: unat_of_nat take_bit_nat_eq_self)

lemma ucast_of_nat_u64: "n < 2 ^ 32 \<Longrightarrow> (ucast (of_nat n :: u32) :: u64) = of_nat n"
  using unat_of_nat_u32 [of n] by (metis unat_ucast_u64 unat_eq_of_nat)

lemma payload_sum:
  assumes "t < 2 ^ 32" "r < 2 ^ 32" "s < 2 ^ 32"
  shows "unat (of_nat t * 4 + of_nat r + of_nat s :: u64) = 4 * t + r + s"
proof -
  have "of_nat t * 4 + of_nat r + of_nat s = (of_nat (4 * t + r + s) :: u64)"
    by simp
  moreover have "4 * t + r + s < 2 ^ 64"
    using assms by simp
  ultimately show ?thesis
    using unat_of_nat_small [of "4 * t + r + s"] by (simp add: mult.commute)
qed

lemma sum_fits: "unat x + unat y < 2 ^ 64 \<Longrightarrow> \<not> x > - 1 - y" for x y :: u64
  using unat_max_u64 unat_u64_less [of y] by (simp add: word_less_nat_alt unat_sub_if')

lemma payload_parts:
  assumes "t < 2 ^ 32" "r < 2 ^ 32" "s < 2 ^ 32"
  shows "unat (of_nat t * 4 :: u64) = 4 * t" "unat (of_nat t * 4 + of_nat r :: u64) = 4 * t + r"
    "unat (of_nat r :: u64) = r" "unat (of_nat s :: u64) = s"
  using assms payload_sum [of t 0 0] payload_sum [of t r 0] by (simp_all add: unat_of_nat_small)

text \<open>The sizes that \<open>load\<close> accepts; \<open>save\<close> itself allows larger states.\<close>

definition loadable_sizes :: "session_manifest \<Rightarrow> bool" where
  "loadable_sizes m \<longleftrightarrow> length (sm_recurrent_state m) \<le> kMaxRecurrentBytes \<and> length (sm_speculative_state m) \<le> kMaxSpeculativeBytes"

lemma save_sizes:
  assumes "save_arguments store key paths m"
  shows "length (sm_token_ids m) < 2 ^ 32" "length (sm_recurrent_state m) < 2 ^ 32" "length (sm_speculative_state m) < 2 ^ 32"
    "length (sm_token_ids m) \<le> unat (ss_max_context store)"
  using assms by (auto simp: save_arguments_def)

lemma fill_manifest_header_sel:
  assumes "fill_manifest_header version m = Some h"
  shows "wf_manifest_header h" "mh_magic h = kManifestMagic" "mh_abi h = version" "mh_header_bytes h = of_nat kManifestHeaderBytes"
    "mh_generation h = sm_generation m" "mh_committed_tokens h = sm_committed_tokens m" "mh_next_token h = sm_next_token m"
    "mh_token_count h = of_nat (length (sm_token_ids m))" "mh_recurrent_bytes h = of_nat (length (sm_recurrent_state m))"
    "mh_speculative_bytes h = of_nat (length (sm_speculative_state m))" "mh_token_hash h = token_hash (sm_token_ids m)"
    "mh_payload_bytes h = of_nat (length (sm_token_ids m)) * 4 + of_nat (length (sm_recurrent_state m)) +
       of_nat (length (sm_speculative_state m))"
    "copy_text kNamespaceIdBytes (sm_namespace_id m) = Some (mh_namespace_id h)"
    "copy_text kSessionIdBytes (sm_session_id m) = Some (mh_session_id h)"
    "copy_text kNamespaceTextBytes (sm_namespace_text m) = Some (mh_namespace_text h)"
    "copy_text kProfileBytes (sm_profile m) = Some (mh_profile h)"
  using assms copy_text_length [of kNamespaceIdBytes "sm_namespace_id m" "mh_namespace_id h"]
    copy_text_length [of kSessionIdBytes "sm_session_id m" "mh_session_id h"]
    copy_text_length [of kNamespaceTextBytes "sm_namespace_text m" "mh_namespace_text h"]
    copy_text_length [of kProfileBytes "sm_profile m" "mh_profile h"]
  by (auto simp: fill_manifest_header_def wf_manifest_header_def kManifestMagic_def kNamespaceIdBytes_def
      kSessionIdBytes_def kNamespaceTextBytes_def kProfileBytes_def split: option.splits)

lemma saved_contract:
  assumes "save_arguments store key paths m" and "loadable_sizes m" and "fill_manifest_header version m = Some h"
    and "version = 1 \<or> version = 2"
  shows "manifest_contract store h"
proof -
  note fill = fill_manifest_header_sel [OF assms(3)] and sizes = save_sizes [OF assms(1)]
  note unats = unat_of_nat_u32 [OF sizes(1)] unat_of_nat_u32 [OF sizes(2)] unat_of_nat_u32 [OF sizes(3)]
  note casts = ucast_of_nat_u64 [OF sizes(2)] ucast_of_nat_u64 [OF sizes(3)]
  have "of_nat (length (sm_recurrent_state m)) = ss_recurrent_state_bytes store"
    "of_nat (length (sm_speculative_state m)) = ss_speculative_state_bytes store"
    using assms(1) unat_eq_of_nat by (simp_all add: save_arguments_def)
  then show ?thesis
    using assms(1,2,4) sizes unats casts
    by (simp add: manifest_contract_def fill loadable_sizes_def save_arguments_def word_less_nat_alt)
qed

lemma saved_payload_accepted:
  assumes "save_arguments store key paths m" and "loadable_sizes m" and "fill_manifest_header version m = Some h"
  shows "manifest_payload h = Some (mh_payload_bytes h)" and "payload_accepted store h (mh_payload_bytes h)"
proof -
  note fill = fill_manifest_header_sel [OF assms(3)] and sizes = save_sizes [OF assms(1)]
  note casts = ucast_of_nat_u64 [OF sizes(1)] ucast_of_nat_u64 [OF sizes(2)] ucast_of_nat_u64 [OF sizes(3)]
  note parts = payload_parts [OF sizes(1-3)]
  show "manifest_payload h = Some (mh_payload_bytes h)"
    using sizes sum_fits parts by (simp add: manifest_payload_def fill casts Let_def)
  have "unat (ucast (ss_max_context store) * 4 + of_nat kMaxRecurrentBytes + of_nat kMaxSpeculativeBytes :: u64) =
      4 * unat (ss_max_context store) + kMaxRecurrentBytes + kMaxSpeculativeBytes"
    using payload_sum [of "unat (ss_max_context store)" kMaxRecurrentBytes kMaxSpeculativeBytes] unat_u32_less
    by (simp add: kMaxRecurrentBytes_def kMaxSpeculativeBytes_def)
  then show "payload_accepted store h (mh_payload_bytes h)"
    using assms(2) sizes payload_sum [OF sizes(1,2,3)]
    by (simp add: payload_accepted_def fill word_less_nat_alt loadable_sizes_def)
qed

lemma saved_accepted:
  assumes "save_arguments store key paths m" and "fill_manifest_header version m = Some h"
    and "seal_manifest digest h (sm_token_ids m) (sm_recurrent_state m) (sm_speculative_state m) = Some sealed"
    and "CHR 0x00 \<notin> set (namespace_text key)"
  shows "accept_manifest digest key sealed (sm_token_ids m) (sm_recurrent_state m) (sm_speculative_state m) =
    Some (m\<lparr>sm_token_hash := token_hash (sm_token_ids m)\<rparr>)"
proof -
  note fill = fill_manifest_header_sel [OF assms(2)] and keeps = seal_manifest_keeps [OF assms(3)]
  have texts: "sm_session_id m = sk_session_id key" "sm_namespace_id m = namespace_id key"
    "sm_namespace_text m = namespace_text key" "sm_profile m = sk_profile key"
    using assms(1) by (simp_all add: save_arguments_def)
  have "CHR 0x00 \<notin> set (namespace_id key)"
    using namespace_id_chars [of "CHR 0x00" key] by auto
  moreover have "CHR 0x00 \<notin> set (sk_session_id key)" "CHR 0x00 \<notin> set (sk_profile key)"
    using assms(4) namespace_fields_chars [of "sk_session_id key" key] namespace_fields_chars [of "sk_profile key" key]
    by (auto simp: namespace_fields_def)
  ultimately have "read_text (mh_namespace_id sealed) = Some (namespace_id key)"
    "read_text (mh_session_id sealed) = Some (sk_session_id key)"
    "read_text (mh_namespace_text sealed) = Some (namespace_text key)" "read_text (mh_profile sealed) = Some (sk_profile key)"
    using read_copied_text fill(13-16) keeps assms(4) texts by metis+
  then show ?thesis
    using seal_manifest_again [OF assms(3)] keeps fill texts by (cases m) (simp add: accept_manifest_def)
qed

lemma saved_manifest_sound:
  assumes "save_arguments store key paths m" and "loadable_sizes m" and "fill_manifest_header version m = Some h"
    and "seal_manifest digest h (sm_token_ids m) (sm_recurrent_state m) (sm_speculative_state m) = Some sealed"
    and "CHR 0x00 \<notin> set (namespace_text key)"
  shows "sound_manifest digest store key sealed (m\<lparr>sm_token_hash := token_hash (sm_token_ids m)\<rparr>)"
proof -
  note fill = fill_manifest_header_sel [OF assms(3)] and keeps = seal_manifest_keeps [OF assms(4)]
  note sizes = save_sizes [OF assms(1)]
  have "manifest_contract store sealed"
    using saved_contract [OF assms(1-3)] keeps fill(3) by (simp add: manifest_contract_def)
  moreover have "manifest_payload sealed = Some (mh_payload_bytes sealed)" "payload_accepted store sealed (mh_payload_bytes sealed)"
    using saved_payload_accepted [OF assms(1-3)]
    unfolding manifest_payload_def payload_accepted_def keeps by simp_all
  moreover have "unat (mh_payload_bytes sealed) =
      4 * length (sm_token_ids m) + length (sm_recurrent_state m) + length (sm_speculative_state m)"
    using payload_sum [OF sizes(1-3)] keeps fill(12) by simp
  ultimately show ?thesis
    using saved_accepted [OF assms(1,3-5)] seal_manifest_wf [OF assms(4) fill(1)] keeps fill(8-10) sizes
    by (simp add: sound_manifest_def unat_of_nat_u32)
qed

section \<open>Paths and directories\<close>

lemma path_components_slash:
  "path_components acc (xs @ CHR ''/'' # ys) = path_components acc xs @ path_components [] ys"
  by (induction acc xs rule: path_components.induct) auto

lemma path_components_plain:
  "CHR ''/'' \<notin> set xs \<Longrightarrow> path_components acc xs = (if acc @ xs = [] then [] else [acc @ xs])"
  by (induction acc xs rule: path_components.induct) auto

definition new_directory :: dir_entry where
  "new_directory = \<lparr>de_kind = entry_directory, de_owned = True, de_mode = 0x1C0\<rparr>"

lemma new_directory_private: "private_owned_directory new_directory"
  by (simp add: private_owned_directory_def new_directory_def)

text \<open>Directories are only added, and an added one is private.\<close>

definition only_adds :: "directories \<Rightarrow> directories \<Rightarrow> bool" where
  "only_adds dirs dirs' \<longleftrightarrow> (\<forall>k. dirs' k = dirs k \<or> dirs k = None \<and> dirs' k = Some new_directory)"

lemma only_adds_refl [simp]: "only_adds dirs dirs"
  by (simp add: only_adds_def)

lemma only_adds_trans: "only_adds dirs dirs' \<Longrightarrow> only_adds dirs' dirs'' \<Longrightarrow> only_adds dirs dirs''"
  unfolding only_adds_def by metis

lemma only_adds_keeps: "only_adds dirs dirs' \<Longrightarrow> dirs k \<noteq> None \<Longrightarrow> dirs' k = dirs k"
  unfolding only_adds_def by metis

lemma make_one_directory_effect:
  assumes "make_one_directory path dirs w = (ok, dirs', w')"
  shows "quiet w w' \<and> only_adds dirs dirs' \<and> (ok \<longrightarrow> dirs' (path_key path) \<noteq> None)"
proof -
  obtain ok1 w1 where s1: "sys_ok w = (ok1, w1)" by fastforce
  obtain ok2 w2 where s2: "sys_ok w1 = (ok2, w2)" by fastforce
  show ?thesis
  proof (cases ok1)
    case True
    then have "w' = w2" "dirs' = (if dirs (path_key path) = None then dirs(path_key path \<mapsto> new_directory) else dirs)"
      using assms s1 s2 by (auto simp: make_one_directory_def new_directory_def Let_def)
    then show ?thesis
      using sys_ok_quiet [OF s1] sys_ok_quiet [OF s2] quiet_trans by (auto simp: only_adds_def)
  next
    case False
    then show ?thesis
      using assms s1 sys_ok_quiet [OF s1] by (auto simp: make_one_directory_def)
  qed
qed

text \<open>The key of what is left to make below the directory that the loop is at.\<close>

definition loop_key :: "string \<Rightarrow> string \<Rightarrow> bool \<times> string list" where
  "loop_key current rest = (current \<noteq> [] \<and> hd current = CHR ''/'', path_components [] current @ path_components [] rest)"

definition next_current :: "string \<Rightarrow> string \<Rightarrow> string" where
  "next_current current component = (if component = [] then current
     else if current = [] \<or> current = ''/'' then current @ component else current @ ''/'' @ component)"

lemma path_key_next:
  assumes "CHR ''/'' \<notin> set component" and "component \<noteq> []"
  shows "path_key (next_current current component) = loop_key current component"
    and "loop_key (next_current current component) rest =
      (fst (loop_key current component), path_components [] current @ [component] @ path_components [] rest)"
proof -
  have "hd component \<noteq> CHR ''/''"
    using assms hd_in_set by metis
  then show "path_key (next_current current component) = loop_key current component"
    "loop_key (next_current current component) rest =
      (fst (loop_key current component), path_components [] current @ [component] @ path_components [] rest)"
    using assms path_components_plain [OF assms(1), of "[]"] path_components_slash [of "[]" current component]
    by (auto simp: path_key_def loop_key_def next_current_def)
qed

lemma loop_components:
  assumes "component = takeWhile (\<lambda>c. c \<noteq> CHR ''/'') rest" and "behind = dropWhile (\<lambda>c. c \<noteq> CHR ''/'') rest"
  shows "CHR ''/'' \<notin> set component"
    and "path_components [] rest = (if component = [] then [] else [component]) @ path_components [] (tl behind)"
    and "behind = [] \<Longrightarrow> path_components [] (tl behind) = []"
proof -
  show plain: "CHR ''/'' \<notin> set component"
    using set_takeWhileD [of "CHR ''/''" "\<lambda>c. c \<noteq> CHR ''/''" rest] by (auto simp: assms(1))
  have "rest = component @ behind"
    by (simp add: assms)
  moreover have "behind \<noteq> [] \<Longrightarrow> behind = CHR ''/'' # tl behind"
    using hd_dropWhile [of "\<lambda>c. c \<noteq> CHR ''/''" rest] unfolding assms(2) by (metis list.collapse)
  ultimately show "path_components [] rest = (if component = [] then [] else [component]) @ path_components [] (tl behind)"
    using path_components_slash [of "[]" component "tl behind"] path_components_plain [OF plain, of "[]"]
    by (cases "behind = []") auto
  show "behind = [] \<Longrightarrow> path_components [] (tl behind) = []" by simp
qed

lemma mkdir_loop_effect:
  "mkdir_loop current rest dirs w = (ok, dirs', w') \<Longrightarrow>
     quiet w w' \<and> only_adds dirs dirs' \<and> (ok \<and> path_components [] rest \<noteq> [] \<longrightarrow> dirs' (loop_key current rest) \<noteq> None)"
proof (induction current rest dirs w arbitrary: ok dirs' w' rule: mkdir_loop.induct)
  case (1 current rest dirs w)
  define component where "component = takeWhile (\<lambda>c. c \<noteq> CHR ''/'') rest"
  define behind where "behind = dropWhile (\<lambda>c. c \<noteq> CHR ''/'') rest"
  note plain = loop_components(1) [OF component_def behind_def] and comps = loop_components(2) [OF component_def behind_def]
  obtain ok1 dirs1 w1 where one: "(if component = [] then (True, dirs, w)
      else make_one_directory (next_current current component) dirs w) = (ok1, dirs1, w1)"
    by (metis prod_cases3)
  have eff: "quiet w w1 \<and> only_adds dirs dirs1 \<and>
      (component \<noteq> [] \<and> ok1 \<longrightarrow> dirs1 (path_key (next_current current component)) \<noteq> None)"
    using one make_one_directory_effect by (auto split: if_splits)
  have eq: "mkdir_loop current rest dirs w = (if \<not> ok1 then (False, dirs1, w1) else if behind = [] then (True, dirs1, w1)
      else mkdir_loop (next_current current component) (tl behind) dirs1 w1)"
    by (subst mkdir_loop.simps) (simp only: Let_def component_def [symmetric] behind_def [symmetric]
      next_current_def [symmetric] one prod.case split: bool.split if_split, simp)
  have key: "loop_key (next_current current component) (tl behind) = loop_key current rest"
    using path_key_next(2) [OF plain, of current "tl behind"] comps
    by (cases "component = []") (simp_all add: loop_key_def next_current_def)
  show ?case
  proof (cases "ok1 \<and> behind \<noteq> []")
    case True
    then have loop: "mkdir_loop (next_current current component) (tl behind) dirs1 w1 = (ok, dirs', w')"
      using "1.prems" eq by simp
    have ih: "quiet w1 w' \<and> only_adds dirs1 dirs' \<and>
        (ok \<and> path_components [] (tl behind) \<noteq> [] \<longrightarrow> dirs' (loop_key (next_current current component) (tl behind)) \<noteq> None)"
      using "1.IH" [OF component_def behind_def next_current_def] one loop True by auto
    have tr: "quiet w w'" "only_adds dirs dirs'"
      using eff ih by (simp_all add: quiet_iff only_adds_trans [of dirs dirs1 dirs'])
    show ?thesis
    proof (cases "path_components [] (tl behind) = []")
      case empty: True
      then have "ok \<and> path_components [] rest \<noteq> [] \<longrightarrow> dirs' (path_key (next_current current component)) \<noteq> None"
        using comps eff ih True only_adds_keeps [of dirs1 dirs' "path_key (next_current current component)"] by auto
      moreover have "path_components [] rest \<noteq> [] \<Longrightarrow> path_key (next_current current component) = loop_key current rest"
        using comps empty path_key_next(1) [OF plain, of current] path_components_plain [OF plain, of "[]"]
        by (simp add: loop_key_def split: if_splits)
      ultimately show ?thesis
        using tr by metis
    next
      case False
      then show ?thesis
        using tr ih key by simp
    qed
  next
    case False
    then have r: "ok = ok1" "dirs' = dirs1" "w' = w1" "ok1 \<Longrightarrow> behind = []"
      using "1.prems" eq by (auto split: if_splits)
    have "ok1 \<Longrightarrow> path_components [] rest \<noteq> [] \<Longrightarrow>
        component \<noteq> [] \<and> path_key (next_current current component) = loop_key current rest"
      using r(4) comps path_key_next(1) [OF plain, of current] path_components_plain [OF plain, of "[]"]
      by (simp add: loop_key_def split: if_splits)
    then show ?thesis
      using eff r(1-3) by metis
  qed
qed

lemma make_directory_recursive_effect:
  assumes "make_directory_recursive path dirs w = (ok, dirs', w')"
  shows "quiet w w' \<and> only_adds dirs dirs' \<and> (ok \<and> path_components [] path \<noteq> [] \<longrightarrow> dirs' (path_key path) \<noteq> None)"
proof (cases path)
  case (Cons c cs)
  then have "c = CHR ''/'' \<Longrightarrow> loop_key ''/'' cs = path_key path \<and> path_components [] path = path_components [] cs"
    "c \<noteq> CHR ''/'' \<Longrightarrow> loop_key [] path = path_key path"
    by (auto simp: loop_key_def path_key_def)
  then show ?thesis
    using Cons assms mkdir_loop_effect [of "''/''" cs dirs w ok dirs' w'] mkdir_loop_effect [of "[]" path dirs w ok dirs' w']
    by (cases "c = CHR ''/''") (auto simp: make_directory_recursive_def)
qed (use assms in \<open>simp add: make_directory_recursive_def\<close>)

lemma validate_private_directory_effect:
  assumes "validate_private_directory path dirs w = (ok, w')"
  shows "quiet w w' \<and> (ok \<longrightarrow> (\<exists>e. dirs (path_key path) = Some e \<and> private_owned_directory e))"
  using assms sys_ok_quiet quiet_trans
  by (auto simp: validate_private_directory_def split: prod.splits bool.splits option.splits if_splits) blast+

lemma session_prepare_effect:
  assumes "session_prepare store key generation dirs w = (r, dirs', w')"
  shows "quiet w w'" and "only_adds dirs dirs'" and "r \<noteq> Inl AXIOM_OK"
    and "r = Inr paths \<Longrightarrow> paths = paths_for (ss_root_path store) key generation \<and> store_enabled store \<and> generation \<noteq> 0 \<and>
      valid_session_id (sk_session_id key) \<and> sk_model_id key \<noteq> [] \<and> sk_profile key \<noteq> [] \<and>
      (\<exists>e. dirs' (path_key (ss_root_path store)) = Some e \<and> private_owned_directory e) \<and>
      (\<exists>e. dirs' (path_key (sp_namespace_dir paths)) = Some e \<and> private_owned_directory e)"
proof -
  let ?root = "ss_root_path store" and ?paths = "paths_for (ss_root_path store) key generation"
  let ?guard = "\<not> store_enabled store \<or> generation = 0 \<or> \<not> valid_session_id (sk_session_id key) \<or> sk_model_id key = [] \<or>
    sk_profile key = []"
  obtain ok1 dirs1 w1 where s1: "make_directory_recursive ?root dirs w = (ok1, dirs1, w1)" by (metis prod_cases3)
  obtain ok2 w2 where s2: "validate_private_directory ?root dirs1 w1 = (ok2, w2)" by fastforce
  obtain ok3 dirs3 w3 where s3: "make_directory_recursive (sp_namespace_dir ?paths) dirs1 w2 = (ok3, dirs3, w3)"
    by (metis prod_cases3)
  obtain ok4 w4 where s4: "validate_private_directory (sp_namespace_dir ?paths) dirs3 w3 = (ok4, w4)" by fastforce
  note e1 = make_directory_recursive_effect [OF s1] and e2 = validate_private_directory_effect [OF s2]
    and e3 = make_directory_recursive_effect [OF s3] and e4 = validate_private_directory_effect [OF s4]
  have q: "quiet w w2" "quiet w w3" "quiet w w4" "only_adds dirs dirs3"
    using e1 e2 e3 e4 by (simp_all add: quiet_iff only_adds_trans [of dirs dirs1 dirs3])
  have eq: "(r, dirs', w') = (if ?guard then (Inl AXIOM_ERR_INVALID_ARGUMENT, dirs, w)
      else if \<not> ok1 then (Inl AXIOM_ERR_IO, dirs1, w1) else if \<not> ok2 then (Inl AXIOM_ERR_IO, dirs1, w2)
      else if \<not> ok3 then (Inl AXIOM_ERR_IO, dirs3, w3) else if \<not> ok4 then (Inl AXIOM_ERR_IO, dirs3, w4)
      else (Inr ?paths, dirs3, w4))"
    using assms s1 s2 s3 s4
    by (cases ?guard; cases ok1; cases ok2; cases ok3; cases ok4) (simp_all add: session_prepare_def Let_def)
  then show "quiet w w'" "only_adds dirs dirs'" "r \<noteq> Inl AXIOM_OK"
    using q e1 by (auto split: if_splits)
  assume "r = Inr paths"
  then have fin: "\<not> ?guard" "ok2" "ok4" "paths = ?paths" "dirs' = dirs3"
    using eq by (auto split: if_splits)
  then show "paths = ?paths \<and> store_enabled store \<and> generation \<noteq> 0 \<and>
      valid_session_id (sk_session_id key) \<and> sk_model_id key \<noteq> [] \<and> sk_profile key \<noteq> [] \<and>
      (\<exists>e. dirs' (path_key ?root) = Some e \<and> private_owned_directory e) \<and>
      (\<exists>e. dirs' (path_key (sp_namespace_dir paths)) = Some e \<and> private_owned_directory e)"
    using e2 e3 e4 only_adds_keeps [of dirs1 dirs3 "path_key ?root"] by auto
qed

section \<open>Directories without failing calls\<close>

text \<open>An entry that the way to a directory may pass: absent, a directory, or a link to one.\<close>

definition passable :: "directories \<Rightarrow> bool \<times> string list \<Rightarrow> bool" where
  "passable dirs k \<longleftrightarrow> (case dirs k of None \<Rightarrow> True | Some e \<Rightarrow> de_kind e \<noteq> entry_other)"

fun way_open :: "directories \<Rightarrow> bool \<Rightarrow> string list \<Rightarrow> string list \<Rightarrow> bool" where
  "way_open dirs absolute upper [] \<longleftrightarrow> True"
| "way_open dirs absolute upper (c # cs) \<longleftrightarrow>
     passable dirs (absolute, upper @ [c]) \<and> way_open dirs absolute (upper @ [c]) cs"

definition path_open :: "directories \<Rightarrow> string \<Rightarrow> bool" where
  "path_open dirs path \<longleftrightarrow> way_open dirs (fst (path_key path)) [] (snd (path_key path))"

definition absent_or_private :: "directories \<Rightarrow> string \<Rightarrow> bool" where
  "absent_or_private dirs path \<longleftrightarrow>
     (case dirs (path_key path) of None \<Rightarrow> True | Some e \<Rightarrow> private_owned_directory e)"

lemma passable_adds:
  assumes "only_adds dirs dirs'"
  shows "passable dirs' k = passable dirs k"
proof -
  have "dirs' k = dirs k \<or> dirs k = None \<and> dirs' k = Some new_directory"
    using assms unfolding only_adds_def by blast
  then show ?thesis
    by (auto simp: passable_def new_directory_def)
qed

lemma way_open_adds: "only_adds dirs dirs' \<Longrightarrow> way_open dirs' absolute upper cs = way_open dirs absolute upper cs"
  by (induction cs arbitrary: upper) (simp_all add: passable_adds)

lemma way_open_append:
  "way_open dirs absolute upper (xs @ ys) \<longleftrightarrow> way_open dirs absolute upper xs \<and> way_open dirs absolute (upper @ xs) ys"
  by (induction xs arbitrary: upper) simp_all

lemma make_one_directory_empty:
  assumes "w_answers w = []"
  shows "\<exists>dirs'. make_one_directory path dirs w = (passable dirs (path_key path), dirs', w)"
  using assms by (auto simp: make_one_directory_def passable_def Let_def sys_ok_empty split: option.split)

lemma mkdir_loop_empty:
  "w_answers w = [] \<Longrightarrow> \<exists>dirs'. mkdir_loop current rest dirs w =
     (way_open dirs (fst (loop_key current rest)) (path_components [] current) (path_components [] rest), dirs', w)"
proof (induction current rest dirs w rule: mkdir_loop.induct)
  case (1 current rest dirs w)
  define component where "component = takeWhile (\<lambda>c. c \<noteq> CHR ''/'') rest"
  define behind where "behind = dropWhile (\<lambda>c. c \<noteq> CHR ''/'') rest"
  note split = loop_components [OF component_def behind_def]
  let ?next = "next_current current component"
  obtain ok1 dirs1 where one: "(if component = [] then (True, dirs, w) else make_one_directory ?next dirs w) = (ok1, dirs1, w)"
    "ok1 = (component = [] \<or> passable dirs (path_key ?next))"
    using make_one_directory_empty [OF "1.prems", of ?next dirs] by (cases "component = []") auto
  have adds: "only_adds dirs dirs1"
    using one(1) make_one_directory_effect by (auto split: if_splits)
  have eq: "mkdir_loop current rest dirs w = (if \<not> ok1 then (False, dirs1, w) else if behind = [] then (True, dirs1, w)
      else mkdir_loop ?next (tl behind) dirs1 w)"
    by (subst mkdir_loop.simps) (simp only: Let_def component_def [symmetric] behind_def [symmetric]
      next_current_def [symmetric] one(1) prod.case split: bool.split if_split, simp)
  have way: "way_open dirs (fst (loop_key current rest)) (path_components [] current) (path_components [] rest) \<longleftrightarrow>
      ok1 \<and> way_open dirs (fst (loop_key ?next (tl behind))) (path_components [] ?next) (path_components [] (tl behind))"
    using split(2) one(2) path_key_next(1) [OF split(1), of current] path_key_next(2) [OF split(1), of current "tl behind"]
    by (cases "component = []") (auto simp: loop_key_def next_current_def path_components_plain [OF split(1)])
  show ?case
  proof (cases "ok1 \<and> behind \<noteq> []")
    case True
    then have "\<exists>dirs'. mkdir_loop ?next (tl behind) dirs1 w =
        (way_open dirs1 (fst (loop_key ?next (tl behind))) (path_components [] ?next) (path_components [] (tl behind)), dirs', w)"
      using "1.IH" [OF component_def behind_def next_current_def one(1) [symmetric]] "1.prems" by simp
    then show ?thesis
      using True eq way way_open_adds [OF adds] by simp
  next
    case False
    then show ?thesis
      using eq way split(3) by auto
  qed
qed

lemma make_directory_recursive_empty:
  assumes "w_answers w = []" and "path_components [] path \<noteq> []"
  obtains dirs' where "make_directory_recursive path dirs w = (path_open dirs path, dirs', w)" and "only_adds dirs dirs'"
    and "path_open dirs path \<Longrightarrow> validate_private_directory path dirs' w = (absent_or_private dirs path, w)"
proof -
  obtain dirs' where make: "make_directory_recursive path dirs w = (path_open dirs path, dirs', w)"
  proof (cases path)
    case (Cons c cs)
    then show ?thesis
      using that mkdir_loop_empty [OF assms(1), of "''/''" cs dirs] mkdir_loop_empty [OF assms(1), of "[]" path dirs]
      by (cases "c = CHR ''/''") (auto simp: make_directory_recursive_def path_open_def path_key_def loop_key_def)
  qed (use assms(2) in simp)
  note eff = make_directory_recursive_effect [OF make]
  have "validate_private_directory path dirs' w = (absent_or_private dirs path, w)" if "path_open dirs path"
  proof -
    have k: "dirs' (path_key path) = dirs (path_key path) \<and> dirs (path_key path) \<noteq> None \<or>
        dirs (path_key path) = None \<and> dirs' (path_key path) = Some new_directory"
      using eff assms(2) that unfolding only_adds_def by metis
    then show ?thesis
      using new_directory_private
      by (auto simp: validate_private_directory_def absent_or_private_def sys_ok_empty [OF assms(1)] private_owned_directory_def)
  qed
  then show ?thesis
    using that make eff by blast
qed

lemma path_components_nonempty: "acc \<noteq> [] \<or> (\<exists>c\<in>set path. c \<noteq> CHR ''/'') \<Longrightarrow> path_components acc path \<noteq> []"
  by (induction acc path rule: path_components.induct) auto

lemma path_open_above: "path \<noteq> [] \<Longrightarrow> path_open dirs (path @ ''/'' @ name) \<Longrightarrow> path_open dirs path"
  using path_components_slash [of "[]" path name] by (simp add: path_open_def path_key_def way_open_append)

text \<open>What \<open>prepare\<close> needs of the directories when no call fails.\<close>

definition directories_ready :: "directories \<Rightarrow> string \<Rightarrow> string \<Rightarrow> bool" where
  "directories_ready dirs root namespace_dir \<longleftrightarrow>
     path_open dirs namespace_dir \<and> absent_or_private dirs root \<and> absent_or_private dirs namespace_dir"

lemma absent_or_private_adds: "only_adds dirs dirs' \<Longrightarrow> absent_or_private dirs' path = absent_or_private dirs path"
  unfolding only_adds_def absent_or_private_def by (metis new_directory_private option.simps(4,5))

lemma session_prepare_empty:
  assumes "w_answers w = []" and "\<exists>c\<in>set (ss_root_path store). c \<noteq> CHR ''/''"
    and "store_enabled store" and "generation \<noteq> 0" and "valid_session_id (sk_session_id key)"
    and "sk_model_id key \<noteq> []" and "sk_profile key \<noteq> []"
  defines "paths \<equiv> paths_for (ss_root_path store) key generation"
  shows "\<exists>dirs'. session_prepare store key generation dirs w =
    (if directories_ready dirs (ss_root_path store) (sp_namespace_dir paths) then Inr paths else Inl AXIOM_ERR_IO, dirs', w)"
proof -
  let ?root = "ss_root_path store" and ?ns = "sp_namespace_dir paths"
  have ns: "?ns = ?root @ ''/'' @ namespace_id key"
    by (simp add: paths_def paths_for_def Let_def)
  have "\<exists>c\<in>set ?ns. c \<noteq> CHR ''/''" "?root \<noteq> []"
    using assms(2) by (auto simp: ns)
  then have comps: "path_components [] ?root \<noteq> []" "path_components [] ?ns \<noteq> []" "?root \<noteq> []"
    using path_components_nonempty assms(2) by blast+
  obtain dirs1 where d1: "make_directory_recursive ?root dirs w = (path_open dirs ?root, dirs1, w)" "only_adds dirs dirs1"
    "path_open dirs ?root \<Longrightarrow> validate_private_directory ?root dirs1 w = (absent_or_private dirs ?root, w)"
    using make_directory_recursive_empty [OF assms(1) comps(1)] by blast
  obtain dirs2 where d2: "make_directory_recursive ?ns dirs1 w = (path_open dirs1 ?ns, dirs2, w)" "only_adds dirs1 dirs2"
    "path_open dirs1 ?ns \<Longrightarrow> validate_private_directory ?ns dirs2 w = (absent_or_private dirs1 ?ns, w)"
    using make_directory_recursive_empty [OF assms(1) comps(2)] by blast
  have same: "path_open dirs1 ?ns = path_open dirs ?ns" "absent_or_private dirs1 ?ns = absent_or_private dirs ?ns"
    using way_open_adds [OF d1(2)] absent_or_private_adds [OF d1(2)] by (simp_all add: path_open_def)
  have "path_open dirs ?ns \<Longrightarrow> path_open dirs ?root"
    using path_open_above [OF comps(3)] by (simp add: ns)
  then show ?thesis
    using assms(3-7) d1 d2 same
    by (cases "path_open dirs ?root"; cases "absent_or_private dirs ?root"; cases "path_open dirs ?ns"; cases "absent_or_private dirs ?ns")
      (simp_all add: session_prepare_def directories_ready_def Let_def flip: paths_def)
qed

section \<open>A whole save\<close>

lemma session_save_cases:
  assumes "session_save digest pid store key paths m sequence dirs w = (rc, sequence', dirs', w')"
  shows "rc \<noteq> AXIOM_OK \<and> quiet w w' \<or>
    (\<exists>h sealed w1. save_arguments store key paths m \<and> quiet w w1 \<and>
       fill_manifest_header (ss_manifest_version store) m = Some h \<and>
       seal_manifest digest h (sm_token_ids m) (sm_recurrent_state m) (sm_speculative_state m) = Some sealed \<and>
       sp_manifest_path paths = sp_manifest_path (paths_for (ss_root_path store) key (sm_generation m)) \<and>
       store_enabled store \<and> valid_session_id (sk_session_id key) \<and>
       publish_manifest (temporary_path (sp_manifest_path paths) pid (sequence + 1)) (sp_manifest_path paths) sealed m w1 =
         (rc, w'))"
proof -
  obtain r dirs1 w1 where prep: "session_prepare store key (sm_generation m) dirs w = (r, dirs1, w1)" by (metis prod_cases3)
  note eff = session_prepare_effect [OF prep]
  show ?thesis
    using assms prep eff
    by (cases r) (auto simp: session_save_def split: if_splits option.splits prod.splits)
qed

section \<open>Saving without failing calls\<close>

lemma write_manifest_file_empty:
  assumes "w_answers w = []"
  shows "\<exists>w'. write_manifest_file fd h m w = (True, w') \<and> w_answers w' = [] \<and> w_names w' = w_names w"
  using assms by (simp add: write_manifest_file_def Let_def write_full_empty sys_ok_empty)

lemma publish_manifest_empty:
  assumes "w_answers w = []" and "w_names w temporary = None"
  shows "\<exists>w'. publish_manifest temporary path h m w = (AXIOM_OK, w')"
proof -
  obtain fd w1 where s1: "sys_open_creat True temporary w = (Some fd, w1)" "w_answers w1 = []" "w_names w1 temporary = Some fd"
    using assms by (auto simp: sys_open_creat_def take_answer_empty new_file_def)
  obtain w2 where s2: "write_manifest_file fd h m w1 = (True, w2)" "w_answers w2 = []" "w_names w2 = w_names w1"
    using write_manifest_file_empty [OF s1(2)] by blast
  obtain w3 where s3: "sys_rename temporary path w2 = (True, w3)" "w_answers w3 = []"
    using s1(3) s2(2,3) by (auto simp: sys_rename_def take_answer_empty)
  show ?thesis
    using s1 s2 s3 by (simp add: publish_manifest_def parent_directory_sync_def sys_ok_empty)
qed

lemma length_hash128 [simp]: "length (hash128 s) = 32"
  by (simp add: hash128_def hex64_def Let_def)

lemma length_namespace_id [simp]: "length (namespace_id key) = 32"
  by (simp add: namespace_id_def)

lemma payload_fits: "save_arguments store key paths m \<Longrightarrow> \<not> payload_overflows m"
  using save_sizes [of store key paths m] sum_fits unat_max_u64
    payload_parts [of "length (sm_token_ids m)" "length (sm_recurrent_state m)" "length (sm_speculative_state m)"]
  by (simp add: payload_overflows_def Let_def)

text \<open>The texts fit into their fields.\<close>

lemma fill_manifest_header_some:
  assumes "save_arguments store key paths m" and "valid_session_id (sk_session_id key)"
    and "length (namespace_text key) < kNamespaceTextBytes" and "length (sk_profile key) < kProfileBytes"
  shows "\<exists>h. fill_manifest_header version m = Some h"
  using assms by (simp add: fill_manifest_header_def save_arguments_def copy_text_def valid_session_id_def
      kNamespaceIdBytes_def kSessionIdBytes_def)

lemma seal_manifest_some:
  assumes "mh_abi h = 1 \<or> mh_abi h = 2 \<and> (\<forall>x. \<exists>d. digest x = Some d \<and> length d = 32)"
  shows "\<exists>sealed. seal_manifest digest h t r s = Some sealed"
proof -
  have "\<forall>x. \<exists>d. digest x = Some d \<and> length d = 32 \<Longrightarrow> mh_abi h = 2 \<Longrightarrow> ?thesis"
    by (simp add: seal_manifest_def Let_def split: option.split) (metis option.distinct(1) option.inject)
  then show ?thesis
    using assms by (auto simp: seal_manifest_def Let_def)
qed

lemma session_save_empty:
  assumes "w_answers w = []" and "directories_ready dirs (ss_root_path store) (sp_namespace_dir paths)"
    and "\<exists>c\<in>set (ss_root_path store). c \<noteq> CHR ''/''" and "save_arguments store key paths m" and "paths = paths_for (ss_root_path store) key (sm_generation m)"
    and "valid_session_id (sk_session_id key)" and "sk_model_id key \<noteq> []" and "sk_profile key \<noteq> []"
    and "length (namespace_text key) < kNamespaceTextBytes" and "length (sk_profile key) < kProfileBytes"
    and "ss_manifest_version store = 1 \<or> ss_manifest_version store = 2 \<and> (\<forall>x. \<exists>d. digest x = Some d \<and> length d = 32)"
    and "w_names w (temporary_path (sp_manifest_path paths) pid (sequence + 1)) = None"
  shows "\<exists>dirs' w'. session_save digest pid store key paths m sequence dirs w = (AXIOM_OK, sequence + 1, dirs', w')"
proof -
  have on: "store_enabled store" "sm_generation m \<noteq> 0"
    using assms(4) by (simp_all add: save_arguments_def)
  obtain dirs' where prep: "session_prepare store key (sm_generation m) dirs w = (Inr paths, dirs', w)"
    using session_prepare_empty [OF assms(1,3) on assms(6-8), of dirs, folded assms(5)] assms(2) by auto
  obtain h where h: "fill_manifest_header (ss_manifest_version store) m = Some h"
    using fill_manifest_header_some [OF assms(4,6,9,10)] by blast
  obtain sealed where "seal_manifest digest h (sm_token_ids m) (sm_recurrent_state m) (sm_speculative_state m) = Some sealed"
    using seal_manifest_some assms(11) fill_manifest_header_sel(3) [OF h] by metis
  then show ?thesis
    using assms(4) payload_fits [OF assms(4)] prep h publish_manifest_empty [OF assms(1,12), of "sp_manifest_path paths" sealed m]
    by (auto simp: session_save_def)
qed

lemma temporary_path_neq: "temporary_path path pid n \<noteq> path"
  by (simp add: temporary_path_def)

lemma sys_open_known:
  assumes "w_names w path = Some fd" and "sys_open path w = (r, w')"
  shows "r = Inl False \<or> r = Inr fd"
  using assms take_answer_quiet [of w] by (fastforce simp: sys_open_def quiet_iff split: prod.splits if_splits)

lemma session_load_sound:
  assumes "store_enabled store" and "valid_session_id (sk_session_id key)"
    and "w_names w (sp_manifest_path (paths_for (ss_root_path store) key 1)) = Some fd"
    and "file_bytes w fd = manifest_content h m" and "sound_manifest digest store key h m"
  shows "fst (session_load digest store key w) \<in> {Inl AXIOM_ERR_IO, Inl AXIOM_ERR_BUDGET,
      Inr (Some (m, paths_for (ss_root_path store) key (sm_generation m)))}"
    and "w_answers w = [] \<Longrightarrow> session_load digest store key w =
      (Inr (Some (m, paths_for (ss_root_path store) key (sm_generation m))), w)"
proof -
  let ?path = "sp_manifest_path (paths_for (ss_root_path store) key 1)"
  obtain r1 w1 where s1: "sys_open ?path w = (r1, w1)" by fastforce
  obtain r2 w2 where s2: "sys_open ?path w1 = (r2, w2)" by fastforce
  have q: "quiet w w1" "quiet w1 w2"
    using sys_open_quiet s1 s2 by blast+
  have r: "r1 = Inl False \<or> r1 = Inr fd" "r2 = Inl False \<or> r2 = Inr fd"
    using sys_open_known s1 s2 assms(3) quiet_files(2) [OF q(1)] by metis+
  have "file_bytes w2 fd = manifest_content h m"
    using assms(4) quiet_file_bytes q by metis
  from load_file_sound [OF this assms(5)] have
    "fst (load_file digest store key fd w2) \<in> {Inl AXIOM_ERR_IO, Inl AXIOM_ERR_BUDGET, Inr m}" .
  then show "fst (session_load digest store key w) \<in> {Inl AXIOM_ERR_IO, Inl AXIOM_ERR_BUDGET,
      Inr (Some (m, paths_for (ss_root_path store) key (sm_generation m)))}"
    using assms(1,2) s1 s2 r by (cases "load_file digest store key fd w2") (auto simp: session_load_def Let_def)
  assume empty: "w_answers w = []"
  show "session_load digest store key w = (Inr (Some (m, paths_for (ss_root_path store) key (sm_generation m))), w)"
    using load_file_empty [OF assms(4,5) empty] assms(1-3) empty
    by (simp add: session_load_def Let_def sys_open_def take_answer_empty)
qed

end
