(* ===== verification/SessionNames.thy ===== *)
theory SessionNames
  imports SessionFormat
begin

text \<open>
  Names that the session store writes and reads: decimal numbers, the text that identifies a session, and the names of
  the files of a generation. Printing and parsing are inverse to each other.
\<close>

section \<open>Decimal numbers\<close>

definition digit_value :: "char \<Rightarrow> nat" where
  "digit_value c = of_char c - 48"

definition decimal_value :: "nat \<Rightarrow> string \<Rightarrow> nat" where
  "decimal_value start s = foldl (\<lambda>n c. n * 10 + digit_value c) start s"

lemma decimal_value_simps [simp]:
  "decimal_value n [] = n" "decimal_value n (c # s) = decimal_value (n * 10 + digit_value c) s"
  "decimal_value n (s @ [c]) = decimal_value n s * 10 + digit_value c"
  by (simp_all add: decimal_value_def)

lemma decimal_value_ge: "n \<le> decimal_value n s"
proof (induction s arbitrary: n)
  case (Cons c s)
  then show ?case
    using order_trans [of n "n * 10 + digit_value c" "decimal_value (n * 10 + digit_value c) s"] by simp
qed simp

lemma digit_char_digit:
  assumes "d < 10" shows "is_digit (digit_char d)" "digit_value (digit_char d) = d"
  using assms by (simp_all add: is_digit_def digit_char_def digit_value_def)

lemma digit_char_value: "is_digit c \<Longrightarrow> digit_char (digit_value c) = c"
  by (simp add: is_digit_def digit_char_def digit_value_def)

lemma digit_value_less: "is_digit c \<Longrightarrow> digit_value c < 10"
  by (auto simp: is_digit_def digit_value_def)

lemma digit_value_zero: "is_digit c \<Longrightarrow> digit_value c = 0 \<longleftrightarrow> c = CHR ''0''"
proof -
  assume "is_digit c"
  then have "digit_value c = 0 \<longleftrightarrow> (of_char c :: nat) = of_char (CHR ''0'')"
    by (auto simp: is_digit_def digit_value_def)
  then show ?thesis
    by (metis char_of_char)
qed

lemma decimal_digits: "decimal n \<noteq> [] \<and> list_all is_digit (decimal n) \<and> decimal_value 0 (decimal n) = n"
proof (induction n rule: decimal.induct)
  case (1 n)
  then show ?case
    using digit_char_digit [of "n mod 10"] digit_char_digit [of n] by (subst (1 2 3) decimal.simps) simp
qed

lemma decimal_head: "0 < n \<Longrightarrow> hd (decimal n) \<noteq> CHR ''0''"
proof (induction n rule: decimal.induct)
  case (1 n)
  show ?case
  proof (cases "n < 10")
    case True
    then show ?thesis
      using 1(2) digit_char_digit [OF True] digit_value_zero [of "digit_char n"] by (subst decimal.simps) auto
  next
    case False
    then show ?thesis
      using 1(1) decimal_digits [of "n div 10"] by (subst decimal.simps) simp
  qed
qed

lemma decimal_unique:
  assumes "list_all is_digit s" and "s \<noteq> []" and "hd s \<noteq> CHR ''0''"
  shows "decimal (decimal_value 0 s) = s \<and> 0 < decimal_value 0 s"
  using assms
proof (induction s rule: rev_induct)
  case (snoc c s)
  note digit = digit_value_less [of c] digit_char_value [of c] digit_value_zero [of c]
  show ?case
  proof (cases "s = []")
    case True
    then show ?thesis
      using snoc.prems digit by (subst decimal.simps) auto
  next
    case False
    then have "decimal (decimal_value 0 s) = s" "0 < decimal_value 0 s"
      using snoc by simp_all
    then show ?thesis
      using snoc.prems digit by (subst decimal.simps) simp
  qed
qed simp

lemma digit_of_value: "is_digit c \<Longrightarrow> unat (digit_of c) = digit_value c"
  using digit_value_less [of c] by (simp add: digit_of_def digit_value_def unat_of_nat take_bit_nat_eq_self)

lemma next_digit_fits:
  assumes "is_digit c"
  shows "v > (- 1 - digit_of c) div 10 \<longleftrightarrow> unat v * 10 + digit_value c \<ge> 2 ^ 64"
    and "\<not> v > (- 1 - digit_of c) div 10 \<Longrightarrow> unat (v * 10 + digit_of c) = unat v * 10 + digit_value c"
proof -
  have "unat (- 1 - digit_of c) = 2 ^ 64 - 1 - digit_value c"
    using unat_max_u64 digit_of_value [OF assms] digit_value_less [OF assms] by (simp add: unat_sub_if')
  then show fits: "v > (- 1 - digit_of c) div 10 \<longleftrightarrow> unat v * 10 + digit_value c \<ge> 2 ^ 64"
    using digit_value_less [OF assms] by (simp add: word_less_nat_alt unat_div) linarith
  assume "\<not> v > (- 1 - digit_of c) div 10"
  then show "unat (v * 10 + digit_of c) = unat v * 10 + digit_value c"
    using fits digit_of_value [OF assms] by (simp add: unat_word_ariths)
qed

lemma digits_loop_exact:
  "digits_loop s v = Some r \<longleftrightarrow> list_all is_digit s \<and> decimal_value (unat v) s < 2 ^ 64 \<and> unat r = decimal_value (unat v) s"
proof (induction s arbitrary: v)
  case Nil
  then show ?case
    using unat_u64_less [of v] by (auto dest: word_unat_eq_iff [THEN iffD2])
next
  case (Cons c s)
  show ?case
  proof (cases "is_digit c \<and> \<not> v > (- 1 - digit_of c) div 10")
    case True
    then show ?thesis
      using Cons next_digit_fits(2) [of c v] by simp
  next
    case False
    then show ?thesis
      using next_digit_fits(1) [of c v] decimal_value_ge [of "unat v * 10 + digit_value c" s] by auto
  qed
qed

section \<open>Files of a generation\<close>

definition generation_suffixes :: "string list" where
  "generation_suffixes = [''.kv'', ''.kv.txn'', ''.kv.txn.tmp'']"

text \<open>The name that \<open>paths_for\<close> gives to a file of a generation.\<close>

definition generation_name :: "string \<Rightarrow> u64 \<Rightarrow> string \<Rightarrow> string" where
  "generation_name stem generation suffix = stem @ ''.g'' @ decimal (unat generation) @ suffix"

lemma ends_with_append: "ends_with suffix (xs @ suffix) \<longleftrightarrow> xs \<noteq> []"
  by (auto simp: ends_with_def)

lemma ends_with_prefix: "ends_with suffix name \<Longrightarrow> name = take (length name - length suffix) name @ suffix"
  unfolding ends_with_def by (metis append_take_drop_id)

lemma ends_with_last: "ends_with suffix name \<Longrightarrow> suffix \<noteq> [] \<Longrightarrow> last name = last suffix"
  using ends_with_prefix by (metis last_appendR)

lemma generation_suffix_size_append:
  assumes "suffix \<in> set generation_suffixes" and "xs \<noteq> []"
  shows "generation_suffix_size (xs @ suffix) = length suffix"
  using assms ends_with_append [of suffix xs] ends_with_last [of "''.kv''" "xs @ suffix"] ends_with_last [of "''.kv.txn''" "xs @ suffix"]
  by (auto simp: generation_suffixes_def generation_suffix_size_def)

lemma generation_suffix_size_cases:
  assumes "generation_suffix_size name \<noteq> 0"
  shows "\<exists>suffix\<in>set generation_suffixes. length suffix = generation_suffix_size name \<and>
    name = take (length name - generation_suffix_size name) name @ suffix"
proof -
  have "\<exists>suffix\<in>set generation_suffixes. length suffix = generation_suffix_size name \<and> ends_with suffix name"
    using assms by (auto simp: generation_suffixes_def generation_suffix_size_def split: if_splits)
  then show ?thesis
    using ends_with_prefix by metis
qed

lemma parse_generation_name:
  assumes "suffix \<in> set generation_suffixes" and "g \<noteq> 0"
  shows "parse_generation_filename (generation_name stem g suffix) stem = Some g"
proof -
  let ?digits = "decimal (unat g)"
  have pos: "0 < unat g"
    using assms(2) by (simp add: unat_gt_0)
  have "digits_loop ?digits 0 = Some g"
    using decimal_digits [of "unat g"] unat_u64_less [of g] by (simp add: digits_loop_exact)
  moreover have "generation_suffix_size (generation_name stem g suffix) = length suffix"
    using generation_suffix_size_append [OF assms(1), of "stem @ ''.g'' @ ?digits"] by (simp add: generation_name_def)
  moreover have "length suffix \<noteq> 0"
    using assms(1) by (auto simp: generation_suffixes_def)
  moreover have "?digits ! 0 \<noteq> CHR ''0''" "?digits \<noteq> []"
    using decimal_head [OF pos] decimal_digits [of "unat g"] by (simp_all add: hd_conv_nth)
  ultimately show ?thesis
    using assms(2) by (simp add: parse_generation_filename_def Let_def generation_name_def nth_append)
qed

lemma parse_generation_sound:
  assumes "parse_generation_filename name stem = Some g"
  shows "g \<noteq> 0 \<and> (\<exists>suffix\<in>set generation_suffixes. name = generation_name stem g suffix)"
proof -
  let ?n = "generation_suffix_size name" and ?p = "stem @ ''.g''"
  let ?digits = "take (length name - ?n - length ?p) (drop (length ?p) name)"
  have g: "?n \<noteq> 0" "length ?p + ?n < length name" "take (length ?p) name = ?p" "name ! length ?p \<noteq> CHR ''0''"
    "digits_loop ?digits 0 = Some g" "g \<noteq> 0"
    using assms by (auto simp: parse_generation_filename_def Let_def split: if_splits option.splits)
  have "?digits \<noteq> []" "hd ?digits \<noteq> CHR ''0''"
    using g(2,4) by (auto simp: hd_conv_nth)
  moreover have "list_all is_digit ?digits" "unat g = decimal_value 0 ?digits"
    using g(5) by (simp_all add: digits_loop_exact)
  ultimately have digits: "decimal (unat g) = ?digits"
    using decimal_unique by metis
  obtain suffix where s: "suffix \<in> set generation_suffixes" "length suffix = ?n" "name = take (length name - ?n) name @ suffix"
    using generation_suffix_size_cases [OF g(1)] by blast
  have "length ?p + (length name - ?n - length ?p) = length name - ?n"
    using g(2) by linarith
  then have "take (length name - ?n) name = ?p @ ?digits"
    using g(3) by (metis take_add)
  then show ?thesis
    using g(6) s digits by (metis append.assoc generation_name_def)
qed

section \<open>The text of a session\<close>

lemma decimal_no_colon: "CHR '':'' \<notin> set (decimal n)"
proof
  assume "CHR '':'' \<in> set (decimal n)"
  then have "is_digit (CHR '':'')"
    using decimal_digits [of n] by (auto simp: list_all_iff)
  then show False
    by (simp add: is_digit_def)
qed

lemma decimal_inj: "decimal m = decimal n \<longleftrightarrow> m = n"
  using decimal_digits by metis

lemma sized_field_inj:
  assumes "decimal (length a) @ '':'' @ a @ '';'' @ x = decimal (length b) @ '':'' @ b @ '';'' @ y"
  shows "a = b \<and> x = y"
proof -
  have until: "takeWhile (\<lambda>c. c \<noteq> CHR '':'') (decimal n @ '':'' @ z) = decimal n" for n z
    using decimal_no_colon [of n] by (subst takeWhile_append2) auto
  have "decimal (length a) = decimal (length b)"
    using arg_cong [OF assms, of "takeWhile (\<lambda>c. c \<noteq> CHR '':'')"] until by metis
  then have "length a = length b"
    by (simp add: decimal_inj)
  then show ?thesis
    using assms by auto
qed

lemma sized_fields_inj:
  "length fs = length gs \<Longrightarrow>
   concat (map (\<lambda>field. decimal (length field) @ '':'' @ field @ '';'') fs) =
   concat (map (\<lambda>field. decimal (length field) @ '':'' @ field @ '';'') gs) \<Longrightarrow> fs = gs"
proof (induction fs gs rule: list_induct2)
  case (Cons f fs g gs)
  let ?text = "\<lambda>fs. concat (map (\<lambda>field. decimal (length field) @ '':'' @ field @ '';'') fs)"
  have "decimal (length f) @ '':'' @ f @ '';'' @ ?text fs = decimal (length g) @ '':'' @ g @ '';'' @ ?text gs"
    using Cons.prems by simp
  then show ?case
    using sized_field_inj [of f "?text fs" g "?text gs"] Cons.IH by blast
qed simp

lemma namespace_text_inj: "namespace_text key = namespace_text key' \<longleftrightarrow> key = key'"
proof
  assume "namespace_text key = namespace_text key'"
  then have "namespace_fields key = namespace_fields key'"
    unfolding namespace_text_def by (rule sized_fields_inj [rotated]) (simp add: namespace_fields_def)
  then show "key = key'"
    by (cases key; cases key') (simp add: namespace_fields_def)
qed simp

end
