(* ===== verification/SessionGc.thy ===== *)
theory SessionGc
  imports SessionSave SessionNames
begin

text \<open>
  Collection of old files (\<open>src/axiom_qwen38_session_store.cpp\<close>): \<open>prune_obsolete_generations\<close> removes the tier files of
  older generations of one session, \<open>prune_stale_sessions\<close> removes whole sessions by age and number, each
  first renamed to a tombstone. Here a directory is the list of its entries, in the order in which \<open>readdir\<close> gives
  them. The system calls succeed or fail by the answers of a world, as in \<open>KvPosix\<close>; a failing \<open>readdir\<close> has another error than
  \<open>ENOMEM\<close> or \<open>EOVERFLOW\<close>. The hook
  \<open>before_unlink\<close>, a test seam that is null in production, is left out.
\<close>

section \<open>Directories with their files\<close>

record gc_file =
  gf_regular :: bool
  gf_nlink :: nat
  gf_mtime :: int
  gf_blocks :: int

record gc_directory =
  gd_entry :: dir_entry
  gd_mtime :: int
  gd_blocks :: int
  gd_files :: "(string \<times> gc_file) list"

type_synonym gc_root = "(string \<times> gc_directory) list"

definition entry_delete :: "string \<Rightarrow> (string \<times> 'a) list \<Rightarrow> (string \<times> 'a) list" where
  "entry_delete name entries = filter (\<lambda>(n, e). n \<noteq> name) entries"

definition entry_replace :: "string \<Rightarrow> 'a \<Rightarrow> (string \<times> 'a) list \<Rightarrow> (string \<times> 'a) list" where
  "entry_replace name e entries = map (\<lambda>(n, e'). if n = name then (n, e) else (n, e')) entries"

definition entry_rename :: "string \<Rightarrow> string \<Rightarrow> (string \<times> 'a) list \<Rightarrow> (string \<times> 'a) list" where
  "entry_rename old new entries = map (\<lambda>(n, e). if n = old then (new, e) else (n, e)) entries"

definition allocated_bytes :: "int \<Rightarrow> u64" where
  "allocated_bytes st_blocks =
     (if st_blocks \<le> 0 then 0
      else let blocks = of_int st_blocks :: u64 in if blocks > - 1 div 512 then - 1 else blocks * 512)"

definition add_saturating :: "u64 \<Rightarrow> u64 \<Rightarrow> u64" where
  "add_saturating left right = (if right > - 1 - left then - 1 else left + right)"

definition mtime_seconds :: "int \<Rightarrow> u64" where
  "mtime_seconds tv_sec = (if tv_sec > 0 then of_int tv_sec else 0)"

section \<open>Old generations\<close>

text \<open>The loop over the directory: \<open>removed\<close> counts, \<open>ok\<close> is lost at the first failing call.\<close>

fun prune_loop :: "string \<Rightarrow> u64 \<Rightarrow> string list \<Rightarrow> (string \<times> gc_file) list \<Rightarrow> u64 \<Rightarrow> world \<Rightarrow>
    bool \<times> (string \<times> gc_file) list \<times> u64 \<times> world" where
  "prune_loop stem committed [] files removed w = (case sys_ok w of (ok, w) \<Rightarrow> (ok, files, removed, w))"
| "prune_loop stem committed (name # names) files removed w =
     (case sys_ok w of
        (False, w) \<Rightarrow> (False, files, removed, w)
      | (True, w) \<Rightarrow> (case parse_generation_filename name stem of
          None \<Rightarrow> prune_loop stem committed names files removed w
        | Some generation \<Rightarrow>
            if generation \<ge> committed then prune_loop stem committed names files removed w
            else case sys_ok w of
              (False, w) \<Rightarrow> (False, files, removed, w)
            | (True, w) \<Rightarrow> (case map_of files name of
                None \<Rightarrow> prune_loop stem committed names files removed w
              | Some f \<Rightarrow>
                  if \<not> gf_regular f then prune_loop stem committed names files removed w
                  else case sys_ok w of
                    (False, w) \<Rightarrow> (False, files, removed, w)
                  | (True, w) \<Rightarrow> prune_loop stem committed names (entry_delete name files) (removed + 1) w)))"

definition prune_obsolete_generations ::
  "session_store \<Rightarrow> session_key \<Rightarrow> session_paths \<Rightarrow> (string \<times> gc_file) list \<Rightarrow> world \<Rightarrow>
   axiom_status \<times> u64 \<times> (string \<times> gc_file) list \<times> world" where
  "prune_obsolete_generations store key committed_paths files w =
     (if \<not> store_enabled store \<or> sp_generation committed_paths = 0 \<or> \<not> valid_session_id (sk_session_id key)
      then (AXIOM_ERR_INVALID_ARGUMENT, 0, files, w)
      else if paths_for (ss_root_path store) key (sp_generation committed_paths) \<noteq> committed_paths
      then (AXIOM_ERR_INVALID_ARGUMENT, 0, files, w)
      else case sys_ok w of
        (False, w) \<Rightarrow> (AXIOM_ERR_IO, 0, files, w)
      | (True, w) \<Rightarrow>
          (case prune_loop (sp_session_stem committed_paths) (sp_generation committed_paths) (map fst files) files 0 w of
             (ok, files, removed, w) \<Rightarrow>
               (case (if ok \<and> removed \<noteq> 0 then sys_ok w else (ok, w)) of (ok, w) \<Rightarrow>
                  (if ok then AXIOM_OK else AXIOM_ERR_IO, removed, files, w))))"

section \<open>Scanning a session\<close>

definition kMaxGcArtifactsPerNamespace :: nat where "kMaxGcArtifactsPerNamespace = 16384"

record gc_namespace_entry =
  ge_namespace_id :: string
  ge_directory_name :: string
  ge_session_stem :: string
  ge_files :: "string list"
  ge_last_used_unix_seconds :: u64
  ge_allocated_bytes :: u64
  ge_protected_namespace :: bool
  ge_remove :: bool

text \<open>The loop over the files of a session. \<open>Inl AXIOM_OK\<close> is an unsafe or unreadable directory, another \<open>Inl\<close> a budget
  that is used up.\<close>

fun scan_files :: "nat \<Rightarrow> (string \<times> gc_file) list \<Rightarrow> gc_namespace_entry \<Rightarrow> nat \<Rightarrow> world \<Rightarrow>
    (axiom_status + gc_namespace_entry) \<times> nat \<times> world" where
  "scan_files budget [] entry artifacts w =
     (case sys_ok w of (ok, w) \<Rightarrow> (if ok then Inr entry else Inl AXIOM_OK, artifacts, w))"
| "scan_files budget ((name, f) # files) entry artifacts w =
     (case sys_ok w of
        (False, w) \<Rightarrow> (Inl AXIOM_OK, artifacts, w)
      | (True, w) \<Rightarrow>
          if name = ''.'' \<or> name = ''..'' then scan_files budget files entry artifacts w
          else case sys_ok w of
            (False, w) \<Rightarrow> (Inl AXIOM_OK, artifacts, w)
          | (True, w) \<Rightarrow> (case parse_session_artifact name of
              None \<Rightarrow> (Inl AXIOM_OK, artifacts, w)
            | Some stem \<Rightarrow>
                if \<not> gf_regular f \<or> gf_nlink f \<noteq> 1 \<or> (ge_session_stem entry \<noteq> [] \<and> ge_session_stem entry \<noteq> stem)
                then (Inl AXIOM_OK, artifacts, w)
                else if length (ge_files entry) \<ge> kMaxGcArtifactsPerNamespace \<or> artifacts \<ge> budget
                then (Inl AXIOM_ERR_BUDGET, artifacts, w)
                else case sys_ok w of
                  (False, w) \<Rightarrow> (Inl AXIOM_ERR_BUDGET, artifacts, w)
                | (True, w) \<Rightarrow> scan_files budget files
                    (entry\<lparr>ge_session_stem := stem, ge_files := ge_files entry @ [name],
                       ge_last_used_unix_seconds := max (ge_last_used_unix_seconds entry) (mtime_seconds (gf_mtime f)),
                       ge_allocated_bytes := add_saturating (ge_allocated_bytes entry) (allocated_bytes (gf_blocks f))\<rparr>)
                    (artifacts + 1) w))"

definition scan_gc_namespace :: "gc_root \<Rightarrow> string \<Rightarrow> string \<Rightarrow> nat \<Rightarrow> nat \<Rightarrow> world \<Rightarrow>
    (axiom_status + gc_namespace_entry) \<times> nat \<times> world" where
  "scan_gc_namespace root directory_name namespace artifact_budget artifacts w =
     (if \<not> is_lower_hex_32 namespace then (Inl AXIOM_OK, artifacts, w)
      else case sys_ok w of
        (False, w) \<Rightarrow> (Inl AXIOM_OK, artifacts, w)
      | (True, w) \<Rightarrow> (case map_of root directory_name of
          None \<Rightarrow> (Inl AXIOM_OK, artifacts, w)
        | Some d \<Rightarrow>
            if \<not> private_owned_directory (gd_entry d) then (Inl AXIOM_OK, artifacts, w)
            else case sys_ok w of
              (False, w) \<Rightarrow> (Inl AXIOM_OK, artifacts, w)
            | (True, w) \<Rightarrow> (case sys_ok w of
                (False, w) \<Rightarrow> (Inl AXIOM_OK, artifacts, w)
              | (True, w) \<Rightarrow> scan_files artifact_budget (gd_files d)
                  \<lparr>ge_namespace_id = namespace, ge_directory_name = directory_name, ge_session_stem = [], ge_files = [],
                    ge_last_used_unix_seconds = mtime_seconds (gd_mtime d), ge_allocated_bytes = allocated_bytes (gd_blocks d),
                    ge_protected_namespace = False, ge_remove = False\<rparr> artifacts w)))"

section \<open>Removing a tombstone\<close>

fun remove_files :: "string list \<Rightarrow> (string \<times> gc_file) list \<Rightarrow> u64 \<Rightarrow> u64 \<Rightarrow> world \<Rightarrow>
    bool \<times> (string \<times> gc_file) list \<times> u64 \<times> u64 \<times> world" where
  "remove_files [] files count bytes w = (True, files, count, bytes, w)"
| "remove_files (name # names) files count bytes w =
     (case sys_ok w of
        (False, w) \<Rightarrow> (False, files, count, bytes, w)
      | (True, w) \<Rightarrow> (case map_of files name of
          None \<Rightarrow> remove_files names files count bytes w
        | Some f \<Rightarrow>
            if \<not> gf_regular f \<or> gf_nlink f \<noteq> 1 then (False, files, count, bytes, w)
            else case sys_ok w of
              (False, w) \<Rightarrow> (False, files, count, bytes, w)
            | (True, w) \<Rightarrow> remove_files names (entry_delete name files) (count + 1)
                (add_saturating bytes (allocated_bytes (gf_blocks f))) w))"

text \<open>After the files: \<open>fsync\<close>, \<open>rmdir\<close> of the empty directory, \<open>fsync\<close> of the root.\<close>

definition remove_directory :: "bool \<Rightarrow> string \<Rightarrow> gc_root \<Rightarrow> world \<Rightarrow> bool \<times> gc_root \<times> world" where
  "remove_directory ok name root w =
     (case (if ok then sys_ok w else (False, w)) of
        (False, w) \<Rightarrow> (False, root, w)
      | (True, w) \<Rightarrow> (case sys_ok w of
          (False, w) \<Rightarrow> (False, root, w)
        | (True, w) \<Rightarrow> (case map_of root name of
            None \<Rightarrow> (False, root, w)
          | Some d \<Rightarrow>
              if gd_files d \<noteq> [] then (False, root, w)
              else case sys_ok w of (ok, w) \<Rightarrow> (ok, entry_delete name root, w))))"

definition remove_gc_namespace :: "gc_root \<Rightarrow> gc_namespace_entry \<Rightarrow> u64 \<Rightarrow> u64 \<Rightarrow> world \<Rightarrow>
    bool \<times> gc_root \<times> u64 \<times> u64 \<times> world" where
  "remove_gc_namespace root entry removed_files reclaimed_bytes w =
     (case sys_ok w of
        (False, w) \<Rightarrow> (False, root, removed_files, reclaimed_bytes, w)
      | (True, w) \<Rightarrow> (case map_of root (ge_directory_name entry) of
          None \<Rightarrow> (False, root, removed_files, reclaimed_bytes, w)
        | Some d \<Rightarrow>
            if de_kind (gd_entry d) \<noteq> entry_directory then (False, root, removed_files, reclaimed_bytes, w)
            else case sys_ok w of (stat_ok, w) \<Rightarrow>
              if \<not> stat_ok \<or> \<not> private_owned_directory (gd_entry d) then (False, root, removed_files, reclaimed_bytes, w)
              else case remove_files (ge_files entry) (gd_files d) 0 (allocated_bytes (gd_blocks d)) w of
                (ok, files, count, bytes, w) \<Rightarrow>
                  (case remove_directory ok (ge_directory_name entry)
                      (entry_replace (ge_directory_name entry) (d\<lparr>gd_files := files\<rparr>) root) w of
                     (ok, root, w) \<Rightarrow>
                       (ok, root, add_saturating removed_files count, add_saturating reclaimed_bytes bytes, w))))"

text \<open>\<open>renameat2\<close> with \<open>RENAME_NOREPLACE\<close>, or a look and \<open>renameat\<close> on a kernel that does not have it.\<close>

definition rename_directory_noreplace :: "bool \<Rightarrow> string \<Rightarrow> string \<Rightarrow> gc_root \<Rightarrow> world \<Rightarrow> bool \<times> gc_root \<times> world" where
  "rename_directory_noreplace has_renameat2 source destination root w =
     (if has_renameat2 then
        (case sys_ok w of (ok, w) \<Rightarrow>
           (if \<not> ok \<or> map_of root source = None \<or> map_of root destination \<noteq> None then (False, root, w)
            else (True, entry_rename source destination root, w)))
      else case sys_ok w of
        (False, w) \<Rightarrow> (False, root, w)
      | (True, w) \<Rightarrow>
          if map_of root destination \<noteq> None then (False, root, w)
          else case sys_ok w of (ok, w) \<Rightarrow>
            (if \<not> ok \<or> map_of root source = None then (False, root, w)
             else (True, entry_rename source destination root, w)))"

section \<open>Selecting sessions\<close>

record gc_policy =
  gp_now_unix_seconds :: u64
  gp_ttl_seconds :: u64
  gp_max_sessions :: u32
  gp_scan_namespace_budget :: u64
  gp_scan_artifact_budget :: u64
  gp_protected_namespace_ids :: "string list"

record gc_result =
  gr_scanned_sessions :: u64
  gr_retained_sessions :: u64
  gr_protected_sessions :: u64
  gr_unsafe_namespaces :: u64
  gr_removed_sessions :: u64
  gr_removed_files :: u64
  gr_reclaimed_bytes :: u64

definition empty_result :: gc_result where
  "empty_result = \<lparr>gr_scanned_sessions = 0, gr_retained_sessions = 0, gr_protected_sessions = 0, gr_unsafe_namespaces = 0,
     gr_removed_sessions = 0, gr_removed_files = 0, gr_reclaimed_bytes = 0\<rparr>"

text \<open>The age rule: the number selected and the entries, marked.\<close>

fun select_expired :: "gc_policy \<Rightarrow> gc_namespace_entry list \<Rightarrow> u64 \<Rightarrow> u64 \<times> gc_namespace_entry list" where
  "select_expired policy [] selected = (selected, [])"
| "select_expired policy (entry # entries) selected =
     (let remove = \<not> (ge_protected_namespace entry \<or> ge_last_used_unix_seconds entry > gp_now_unix_seconds policy) \<and>
            gp_now_unix_seconds policy - ge_last_used_unix_seconds entry \<ge> gp_ttl_seconds policy
      in case select_expired policy entries (if remove then selected + 1 else selected) of (selected, entries) \<Rightarrow>
           (selected, (if remove then entry\<lparr>ge_remove := True\<rparr> else entry) # entries))"

text \<open>The order of \<open>std::sort\<close>: last use, then namespace. Namespaces differ, so that the sorted list is unique;
  it is computed by insertion.\<close>

fun text_less :: "string \<Rightarrow> string \<Rightarrow> bool" where
  "text_less [] ys \<longleftrightarrow> ys \<noteq> []"
| "text_less (x # xs) [] \<longleftrightarrow> False"
| "text_less (x # xs) (y # ys) \<longleftrightarrow>
     (if x = y then text_less xs ys else (of_char x :: nat) < of_char y)"

definition entry_less :: "gc_namespace_entry \<Rightarrow> gc_namespace_entry \<Rightarrow> bool" where
  "entry_less left right \<longleftrightarrow>
     (if ge_last_used_unix_seconds left \<noteq> ge_last_used_unix_seconds right
      then ge_last_used_unix_seconds left < ge_last_used_unix_seconds right
      else text_less (ge_namespace_id left) (ge_namespace_id right))"

fun insert_entry :: "gc_namespace_entry \<Rightarrow> gc_namespace_entry list \<Rightarrow> gc_namespace_entry list" where
  "insert_entry entry [] = [entry]"
| "insert_entry entry (e # entries) = (if entry_less e entry then e # insert_entry entry entries else entry # e # entries)"

definition sort_entries :: "gc_namespace_entry list \<Rightarrow> gc_namespace_entry list" where
  "sort_entries entries = foldr insert_entry entries []"

text \<open>The number rule, oldest first.\<close>

fun select_oldest :: "u64 \<Rightarrow> gc_namespace_entry list \<Rightarrow> u64 \<Rightarrow> gc_namespace_entry list" where
  "select_oldest max_sessions [] projected = []"
| "select_oldest max_sessions (entry # entries) projected =
     (if projected \<le> max_sessions then entry # entries
      else if ge_protected_namespace entry \<or> ge_remove entry then entry # select_oldest max_sessions entries projected
      else entry\<lparr>ge_remove := True\<rparr> # select_oldest max_sessions entries (projected - 1))"

definition gc_select :: "gc_policy \<Rightarrow> gc_namespace_entry list \<Rightarrow> gc_namespace_entry list" where
  "gc_select policy sessions =
     (case (if gp_ttl_seconds policy \<noteq> 0 then select_expired policy sessions 0 else (0, sessions)) of (selected, sessions) \<Rightarrow>
        (let sessions = sort_entries sessions;
             managed_sessions = of_nat (length sessions);
             projected_sessions = (if managed_sessions > selected then managed_sessions - selected else 0)
         in if gp_max_sessions policy \<noteq> 0 \<and> projected_sessions > ucast (gp_max_sessions policy)
            then select_oldest (ucast (gp_max_sessions policy)) sessions projected_sessions
            else sessions))"

section \<open>Stale sessions\<close>

record gc_scan =
  gs_result :: gc_result
  gs_sessions :: "gc_namespace_entry list"
  gs_tombstones :: "gc_namespace_entry list"
  gs_artifacts :: nat

definition count_unsafe :: "gc_scan \<Rightarrow> gc_scan" where
  "count_unsafe scan =
     scan\<lparr>gs_result := (gs_result scan)\<lparr>gr_unsafe_namespaces := gr_unsafe_namespaces (gs_result scan) + 1\<rparr>\<rparr>"

text \<open>What the scan does with one entry of the root: \<open>AXIOM_OK\<close> goes on.\<close>

definition scan_item :: "gc_policy \<Rightarrow> string list \<Rightarrow> gc_root \<Rightarrow> string \<Rightarrow> gc_scan \<Rightarrow> world \<Rightarrow>
    axiom_status \<times> gc_scan \<times> world" where
  "scan_item policy protected_namespaces root name scan w =
     (let tombstone = parse_gc_tombstone name
      in if tombstone = None \<and> \<not> is_lower_hex_32 name then (AXIOM_OK, count_unsafe scan, w)
         else
           let namespace = (case tombstone of None \<Rightarrow> name | Some candidate \<Rightarrow> candidate);
               scan = (if tombstone = None then scan\<lparr>gs_result := (gs_result scan)\<lparr>gr_scanned_sessions :=
                 gr_scanned_sessions (gs_result scan) + 1\<rparr>\<rparr> else scan)
           in case scan_gc_namespace root name namespace (unat (gp_scan_artifact_budget policy)) (gs_artifacts scan) w of
                (Inl rc, artifacts, w) \<Rightarrow>
                  (if rc \<noteq> AXIOM_OK then (rc, scan\<lparr>gs_artifacts := artifacts\<rparr>, w)
                   else (AXIOM_OK, count_unsafe (scan\<lparr>gs_artifacts := artifacts\<rparr>), w))
              | (Inr entry, artifacts, w) \<Rightarrow>
                  (let scan = scan\<lparr>gs_artifacts := artifacts\<rparr>
                   in if length (gs_sessions scan) + length (gs_tombstones scan) \<ge> unat (gp_scan_namespace_budget policy)
                      then (AXIOM_ERR_BUDGET, scan, w)
                      else if tombstone \<noteq> None then
                        (case sys_ok w of
                           (False, w) \<Rightarrow> (AXIOM_ERR_BUDGET, scan, w)
                         | (True, w) \<Rightarrow> (AXIOM_OK, scan\<lparr>gs_tombstones := gs_tombstones scan @ [entry]\<rparr>, w))
                      else
                        let entry = entry\<lparr>ge_protected_namespace := namespace \<in> set protected_namespaces\<rparr>;
                            scan = (if ge_protected_namespace entry
                              then scan\<lparr>gs_result := (gs_result scan)\<lparr>gr_protected_sessions :=
                                gr_protected_sessions (gs_result scan) + 1\<rparr>\<rparr> else scan)
                        in case sys_ok w of
                             (False, w) \<Rightarrow> (AXIOM_ERR_BUDGET, scan, w)
                           | (True, w) \<Rightarrow> (AXIOM_OK, scan\<lparr>gs_sessions := gs_sessions scan @ [entry]\<rparr>, w)))"

fun scan_root :: "gc_policy \<Rightarrow> string list \<Rightarrow> gc_root \<Rightarrow> string list \<Rightarrow> gc_scan \<Rightarrow> world \<Rightarrow> axiom_status \<times> gc_scan \<times> world" where
  "scan_root policy protected_namespaces root [] scan w =
     (case sys_ok w of (ok, w) \<Rightarrow> (if ok then AXIOM_OK else AXIOM_ERR_IO, scan, w))"
| "scan_root policy protected_namespaces root (name # names) scan w =
     (case sys_ok w of
        (False, w) \<Rightarrow> (AXIOM_ERR_IO, scan, w)
      | (True, w) \<Rightarrow>
          if name = ''.'' \<or> name = ''..'' then scan_root policy protected_namespaces root names scan w
          else case scan_item policy protected_namespaces root name scan w of (rc, scan, w) \<Rightarrow>
            (if rc \<noteq> AXIOM_OK then (rc, scan, w) else scan_root policy protected_namespaces root names scan w))"

text \<open>Tombstones of an earlier call.\<close>

fun remove_tombstones :: "gc_namespace_entry list \<Rightarrow> gc_root \<Rightarrow> gc_result \<Rightarrow> world \<Rightarrow> bool \<times> gc_root \<times> gc_result \<times> world" where
  "remove_tombstones [] root result w = (True, root, result, w)"
| "remove_tombstones (entry # entries) root result w =
     (case remove_gc_namespace root entry (gr_removed_files result) (gr_reclaimed_bytes result) w of
        (ok, root, files, bytes, w) \<Rightarrow>
          (let result = result\<lparr>gr_removed_files := files, gr_reclaimed_bytes := bytes\<rparr>
           in if ok then remove_tombstones entries root result w
              else (False, root, result\<lparr>gr_retained_sessions := gr_scanned_sessions result\<rparr>, w)))"

definition tombstone_name :: "gc_namespace_entry \<Rightarrow> nat \<Rightarrow> u64 \<Rightarrow> u64 \<Rightarrow> string" where
  "tombstone_name entry pid now sequence =
     ''.gc.'' @ ge_namespace_id entry @ ''.'' @ decimal pid @ ''.'' @ decimal (unat now) @ ''.'' @ decimal (unat sequence)"

text \<open>The loop over the marked sessions: rename, \<open>fsync\<close>, count, remove.\<close>

fun remove_selected :: "bool \<Rightarrow> nat \<Rightarrow> u64 \<Rightarrow> gc_namespace_entry list \<Rightarrow> u64 \<Rightarrow> gc_root \<Rightarrow> gc_result \<Rightarrow> world \<Rightarrow>
    axiom_status \<times> u64 \<times> gc_root \<times> gc_result \<times> world" where
  "remove_selected has_renameat2 pid now [] sequence root result w = (AXIOM_OK, sequence, root, result, w)"
| "remove_selected has_renameat2 pid now (entry # entries) sequence root result w =
     (if \<not> ge_remove entry then remove_selected has_renameat2 pid now entries sequence root result w
      else
        let sequence = sequence + 1; tombstone = tombstone_name entry pid now sequence
        in case rename_directory_noreplace has_renameat2 (ge_directory_name entry) tombstone root w of
             (False, root, w) \<Rightarrow> (AXIOM_ERR_IO, sequence, root, result, w)
           | (True, root, w) \<Rightarrow> (case sys_ok w of
               (False, w) \<Rightarrow> (AXIOM_ERR_IO, sequence, root, result, w)
             | (True, w) \<Rightarrow>
                 (let result = result\<lparr>gr_removed_sessions := gr_removed_sessions result + 1,
                        gr_retained_sessions := (if gr_retained_sessions result \<noteq> 0 then gr_retained_sessions result - 1
                          else gr_retained_sessions result)\<rparr>
                  in case remove_gc_namespace root (entry\<lparr>ge_directory_name := tombstone\<rparr>) (gr_removed_files result)
                       (gr_reclaimed_bytes result) w of
                       (ok, root, files, bytes, w) \<Rightarrow>
                         (let result = result\<lparr>gr_removed_files := files, gr_reclaimed_bytes := bytes\<rparr>
                          in if ok then remove_selected has_renameat2 pid now entries sequence root result w
                             else (AXIOM_ERR_IO, sequence, root, result, w)))))"

definition prune_stale_sessions ::
  "session_store \<Rightarrow> bool \<Rightarrow> nat \<Rightarrow> gc_policy \<Rightarrow> dir_entry option \<Rightarrow> u64 \<Rightarrow> gc_root \<Rightarrow> world \<Rightarrow>
   axiom_status \<times> u64 \<times> gc_root \<times> gc_result \<times> world" where
  "prune_stale_sessions store has_renameat2 pid policy root_entry sequence root w =
     (if \<not> store_enabled store \<or> gp_now_unix_seconds policy = 0 \<or> gp_scan_namespace_budget policy = 0 \<or>
         gp_scan_artifact_budget policy = 0 then (AXIOM_ERR_INVALID_ARGUMENT, sequence, root, empty_result, w)
      else case sys_ok w of
        (False, w) \<Rightarrow> (AXIOM_ERR_IO, sequence, root, empty_result, w)
      | (True, w) \<Rightarrow> (case root_entry of
          None \<Rightarrow> (AXIOM_OK, sequence, root, empty_result, w)
        | Some e \<Rightarrow>
            if de_kind e \<noteq> entry_directory then (AXIOM_ERR_IO, sequence, root, empty_result, w)
            else case sys_ok w of (stat_ok, w) \<Rightarrow>
              if \<not> stat_ok \<or> \<not> private_owned_directory e then (AXIOM_ERR_IO, sequence, root, empty_result, w)
              else case sys_ok w of (dup_ok, w) \<Rightarrow>
                if \<not> dup_ok then (AXIOM_ERR_IO, sequence, root, empty_result, w)
                else case sys_ok w of (open_ok, w) \<Rightarrow>
                  if \<not> open_ok then (AXIOM_ERR_IO, sequence, root, empty_result, w)
                  else case sys_ok w of (reserve_ok, w) \<Rightarrow>
                    if \<not> reserve_ok then (AXIOM_ERR_BUDGET, sequence, root, empty_result, w)
                    else case scan_root policy (filter is_lower_hex_32 (gp_protected_namespace_ids policy)) root (map fst root)
                        \<lparr>gs_result = empty_result, gs_sessions = [], gs_tombstones = [], gs_artifacts = 0\<rparr> w of
                      (rc, scan, w) \<Rightarrow>
                        if rc \<noteq> AXIOM_OK then (rc, sequence, root, gs_result scan, w)
                        else case remove_tombstones (gs_tombstones scan) root (gs_result scan) w of
                          (False, root, result, w) \<Rightarrow> (AXIOM_ERR_IO, sequence, root, result, w)
                        | (True, root, result, w) \<Rightarrow>
                            remove_selected has_renameat2 pid (gp_now_unix_seconds policy) (gc_select policy (gs_sessions scan))
                              sequence root (result\<lparr>gr_retained_sessions := gr_scanned_sessions result\<rparr>) w))"

end
