(* ===== verification/SessionGcSpec.thy ===== *)
theory SessionGcSpec
  imports SessionGc "HOL-Library.Multiset"
begin

text \<open>
  What the two collections do: which files of a session are removed, which sessions are selected, and which directories of
  the root stay as they are.
\<close>

section \<open>Old generations\<close>

text \<open>A regular file of a generation before the committed one.\<close>

definition obsolete :: "string \<Rightarrow> u64 \<Rightarrow> string \<times> gc_file \<Rightarrow> bool" where
  "obsolete stem committed e \<longleftrightarrow> gf_regular (snd e) \<and>
     (case parse_generation_filename (fst e) stem of None \<Rightarrow> False | Some g \<Rightarrow> g < committed)"

definition pruned :: "string \<Rightarrow> u64 \<Rightarrow> string list \<Rightarrow> (string \<times> gc_file) list \<Rightarrow> (string \<times> gc_file) list" where
  "pruned stem committed names files = filter (\<lambda>e. \<not> (fst e \<in> set names \<and> obsolete stem committed e)) files"

lemma map_of_distinct: "distinct (map fst xs) \<Longrightarrow> map_of xs k = Some v \<Longrightarrow> (k, v') \<in> set xs \<Longrightarrow> v' = v"
  by (metis map_of_eq_Some_iff option.inject)

lemma entry_delete_absent: "name \<notin> fst ` set files \<Longrightarrow> entry_delete name files = files"
  by (force simp: entry_delete_def filter_id_conv)

lemma length_entry_delete:
  "distinct (map fst files) \<Longrightarrow> map_of files name = Some f \<Longrightarrow> Suc (length (entry_delete name files)) = length files"
proof (induction files)
  case (Cons e files)
  then show ?case
    using entry_delete_absent [of name files] by (cases e) (auto simp: entry_delete_def split: if_splits)
qed simp

lemma distinct_entry_delete: "distinct (map fst files) \<Longrightarrow> distinct (map fst (entry_delete name files))"
  unfolding entry_delete_def by (rule distinct_map_filter)

lemma pruned_skip:
  assumes "distinct (map fst files)" and "\<And>f. map_of files name = Some f \<Longrightarrow> \<not> obsolete stem committed (name, f)"
  shows "pruned stem committed (name # names) files = pruned stem committed names files"
  using assms unfolding pruned_def by (intro filter_cong) auto

lemma pruned_delete:
  assumes "distinct (map fst files)" and "map_of files name = Some f" and "obsolete stem committed (name, f)"
  shows "pruned stem committed (name # names) files = pruned stem committed names (entry_delete name files)"
    and "Suc (length (entry_delete name files)) = length files"
proof -
  have same: "fst e = name \<Longrightarrow> e \<in> set files \<Longrightarrow> e = (name, f)" for e
    using map_of_distinct [OF assms(1,2)] by (cases e) auto
  have "e \<in> set files \<Longrightarrow> (\<not> (fst e \<in> set (name # names) \<and> obsolete stem committed e)) \<longleftrightarrow>
      fst e \<noteq> name \<and> \<not> (fst e \<in> set names \<and> obsolete stem committed e)" for e
    using same [of e] assms(3) by auto
  then show "pruned stem committed (name # names) files = pruned stem committed names (entry_delete name files)"
    unfolding pruned_def entry_delete_def filter_filter by (intro filter_cong) (auto simp: case_prod_beta)
  show "Suc (length (entry_delete name files)) = length files"
    by (rule length_entry_delete [OF assms(1,2)])
qed

lemma length_pruned_le: "length (pruned stem committed names files) \<le> length files"
  by (simp add: pruned_def)

text \<open>The effect of the loop: the obsolete files among the names it got to are gone and counted.\<close>

definition prune_effect ::
  "string \<Rightarrow> u64 \<Rightarrow> string list \<Rightarrow> (string \<times> gc_file) list \<Rightarrow> u64 \<Rightarrow> world \<Rightarrow>
   bool \<times> (string \<times> gc_file) list \<times> u64 \<times> world \<Rightarrow> bool" where
  "prune_effect stem committed names files removed w r \<longleftrightarrow> (case r of (ok, files', removed', w') \<Rightarrow>
     \<exists>k\<le>length names. files' = pruned stem committed (take k names) files \<and> (ok \<longrightarrow> k = length names) \<and>
       removed' = removed + of_nat (length files - length files') \<and> quiet w w')"

lemma prune_effect_stop: "quiet w v \<Longrightarrow> prune_effect stem committed names files removed w (False, files, removed, v)"
  unfolding prune_effect_def by (auto simp: pruned_def intro: exI [of _ 0])

lemma prune_effect_skip:
  assumes "prune_effect stem committed names files removed v r" and "quiet w v" and "distinct (map fst files)"
    and "\<And>f. map_of files name = Some f \<Longrightarrow> \<not> obsolete stem committed (name, f)"
  shows "prune_effect stem committed (name # names) files removed w r"
proof -
  obtain ok files' removed' w' where r: "r = (ok, files', removed', w')" by (cases r)
  obtain k where k: "k \<le> length names" "files' = pruned stem committed (take k names) files" "ok \<longrightarrow> k = length names"
    "removed' = removed + of_nat (length files - length files')" "quiet v w'"
    using assms(1) by (auto simp: prune_effect_def r)
  then show ?thesis
    using pruned_skip [OF assms(3,4), of "take k names"] quiet_trans [OF assms(2)]
    unfolding prune_effect_def r by (auto intro!: exI [of _ "Suc k"])
qed

lemma prune_effect_delete:
  assumes "prune_effect stem committed names (entry_delete name files) (removed + 1) v r" and "quiet w v"
    and "distinct (map fst files)" and "map_of files name = Some f" and "obsolete stem committed (name, f)"
  shows "prune_effect stem committed (name # names) files removed w r"
proof -
  obtain ok files' removed' w' where r: "r = (ok, files', removed', w')" by (cases r)
  obtain k where k: "k \<le> length names" "files' = pruned stem committed (take k names) (entry_delete name files)"
    "ok \<longrightarrow> k = length names" "removed' = removed + 1 + of_nat (length (entry_delete name files) - length files')" "quiet v w'"
    using assms(1) by (auto simp: prune_effect_def r)
  have del: "Suc (length (entry_delete name files)) = length files"
    using pruned_delete(2) [OF assms(3-5)] .
  moreover have "length files' \<le> length (entry_delete name files)"
    using length_pruned_le k(2) by simp
  ultimately have "length files - length files' = Suc (length (entry_delete name files) - length files')"
    by linarith
  then have "removed' = removed + of_nat (length files - length files')"
    using k(4) by simp
  then show ?thesis
    using k pruned_delete(1) [OF assms(3-5), of "take k names"] quiet_trans [OF assms(2)]
    unfolding prune_effect_def r by (auto intro!: exI [of _ "Suc k"])
qed

lemma prune_loop_effect:
  "distinct (map fst files) \<Longrightarrow>
   prune_effect stem committed names files removed w (prune_loop stem committed names files removed w)"
proof (induction names arbitrary: files removed w)
  case Nil
  then show ?case
    using sys_ok_quiet [of w] by (auto simp: prune_effect_def pruned_def split: prod.split)
next
  case (Cons name names)
  obtain ok1 w1 where s1: "sys_ok w = (ok1, w1)" by fastforce
  obtain ok2 w2 where s2: "sys_ok w1 = (ok2, w2)" by fastforce
  obtain ok3 w3 where s3: "sys_ok w2 = (ok3, w3)" by fastforce
  have q: "quiet w w1" "quiet w w2" "quiet w w3"
    using sys_ok_quiet [OF s1] sys_ok_quiet [OF s2] sys_ok_quiet [OF s3] by (simp_all add: quiet_iff)
  note stop = q [THEN prune_effect_stop]
  note skip = prune_effect_skip [OF Cons.IH [OF Cons.prems] _ Cons.prems]
  note delete = prune_effect_delete [OF Cons.IH [OF distinct_entry_delete [OF Cons.prems]] _ Cons.prems]
  show ?case
  proof (cases "ok1 \<and> (\<exists>g. parse_generation_filename name stem = Some g \<and> g < committed)")
    case True
    then obtain g where g: "ok1" "parse_generation_filename name stem = Some g" "\<not> committed \<le> g" "g < committed"
      by auto
    show ?thesis
      using s1 s2 s3 g stop skip [OF q(2), of name] delete [OF q(3), of name]
      by (cases ok2; cases ok3; cases "map_of files name") (auto simp: obsolete_def)
  next
    case False
    then show ?thesis
      using s1 stop skip [OF q(1), of name]
      by (cases ok1; cases "parse_generation_filename name stem") (auto simp: obsolete_def)
  qed
qed

lemma prune_loop_empty:
  "w_answers w = [] \<Longrightarrow> \<exists>files' removed'. prune_loop stem committed names files removed w = (True, files', removed', w)"
  by (induction names arbitrary: files removed) (auto simp: sys_ok_empty split: option.split)

section \<open>Selecting sessions\<close>

abbreviation "last_used \<equiv> ge_last_used_unix_seconds"

definition expired :: "gc_policy \<Rightarrow> gc_namespace_entry \<Rightarrow> bool" where
  "expired policy e \<longleftrightarrow> gp_ttl_seconds policy \<noteq> 0 \<and> last_used e \<le> gp_now_unix_seconds policy \<and>
     gp_now_unix_seconds policy - last_used e \<ge> gp_ttl_seconds policy"

definition unmark :: "gc_namespace_entry \<Rightarrow> gc_namespace_entry" where
  "unmark e = e\<lparr>ge_remove := False\<rparr>"

text \<open>The sessions that are left.\<close>

definition kept :: "gc_namespace_entry list \<Rightarrow> gc_namespace_entry list" where
  "kept entries = filter (\<lambda>e. \<not> ge_remove e) entries"

lemma kept_simps [simp]: "kept [] = []" "kept (e # es) = (if ge_remove e then kept es else e # kept es)"
  by (simp_all add: kept_def)

lemma unmark_sel [simp]: "last_used (unmark e) = last_used e" "ge_protected_namespace (unmark e) = ge_protected_namespace e"
  "ge_directory_name (unmark e) = ge_directory_name e" "ge_namespace_id (unmark e) = ge_namespace_id e"
  "expired policy (unmark e) \<longleftrightarrow> expired policy e" "unmark (e\<lparr>ge_remove := r\<rparr>) = unmark e" "unmark (unmark e) = unmark e"
  by (simp_all add: unmark_def expired_def)

lemma unmark_id [simp]: "\<not> ge_remove e \<Longrightarrow> unmark e = e"
  by (simp add: unmark_def)

subsection \<open>The age rule\<close>

lemma select_expired_eq:
  assumes "gp_ttl_seconds policy \<noteq> 0"
  shows "snd (select_expired policy es n) =
    map (\<lambda>e. if \<not> ge_protected_namespace e \<and> expired policy e then e\<lparr>ge_remove := True\<rparr> else e) es"
  using assms
  by (induction policy es n rule: select_expired.induct) (auto simp: expired_def Let_def not_less split: prod.splits)

lemma select_expired_count:
  assumes "gp_ttl_seconds policy \<noteq> 0"
  shows "fst (select_expired policy es n) = n + of_nat (length (filter (\<lambda>e. \<not> ge_protected_namespace e \<and> expired policy e) es))"
  using assms
  by (induction policy es n rule: select_expired.induct) (auto simp: expired_def Let_def not_less split: prod.splits)

subsection \<open>Sorting\<close>

lemma mset_insert_entry [simp]: "mset (insert_entry e es) = add_mset e (mset es)"
  by (induction es) auto

lemma sort_entries_mset: "mset (sort_entries es) = mset es"
  by (induction es) (simp_all add: sort_entries_def)

lemma sort_entries_set [simp]: "set (sort_entries es) = set es" "length (sort_entries es) = length es"
  using sort_entries_mset by (metis mset_eq_setD, metis mset_eq_length)

lemma insert_entry_set [simp]: "set (insert_entry e es) = insert e (set es)"
  using mset_insert_entry by (metis set_mset_mset set_mset_add_mset_insert)

lemma insert_entry_kept: "length (kept (insert_entry e es)) = length (kept (e # es))"
  by (induction es) auto

lemma sort_entries_kept: "length (kept (sort_entries es)) = length (kept es)"
  by (induction es) (simp_all add: sort_entries_def insert_entry_kept)

abbreviation oldest_first :: "gc_namespace_entry list \<Rightarrow> bool" where
  "oldest_first \<equiv> sorted_wrt (\<lambda>a b. last_used a \<le> last_used b)"

lemma insert_entry_sorted: "oldest_first es \<Longrightarrow> oldest_first (insert_entry e es)"
proof (induction es)
  case (Cons x es)
  then show ?case
    by (auto simp: entry_less_def split: if_splits intro: order_trans)
qed simp

lemma sort_entries_sorted: "oldest_first (sort_entries es)"
  by (induction es) (simp_all add: sort_entries_def insert_entry_sorted)

subsection \<open>The number rule\<close>

lemma select_oldest_unmark: "map unmark (select_oldest m es p) = map unmark es"
  by (induction es arbitrary: p) simp_all

lemma select_oldest_last_used:
  "e \<in> set (select_oldest m es p) \<Longrightarrow> \<exists>x\<in>set es. last_used e = last_used x \<and> ge_protected_namespace e = ge_protected_namespace x"
  by (induction es arbitrary: p) (auto split: if_splits)

lemma select_oldest_count:
  fixes m :: u64
  assumes "unat p = u + length (kept es)"
  defines "left \<equiv> kept (select_oldest m es p)"
  shows "(u + length left \<le> unat m \<or> (\<forall>e\<in>set left. ge_protected_namespace e)) \<and>
    (unat m \<le> u + length left \<or> select_oldest m es p = es)"
  using assms(1) unfolding left_def
proof (induction es arbitrary: u p)
  case (Cons e es)
  consider "p \<le> m" | "\<not> p \<le> m" "ge_remove e" | "\<not> p \<le> m" "\<not> ge_remove e" "ge_protected_namespace e"
    | "\<not> p \<le> m" "\<not> ge_remove e" "\<not> ge_protected_namespace e" by blast
  then show ?case
  proof cases
    case 1
    then show ?thesis
      using Cons.prems by (simp add: word_le_nat_alt)
  next
    case 2
    then show ?thesis
      using Cons.IH [of p u] Cons.prems by simp
  next
    case 3
    then show ?thesis
      using Cons.IH [of p "Suc u"] Cons.prems by simp
  next
    case 4
    then have "p \<noteq> 0"
      using Cons.prems by auto
    then have "unat (p - 1) = u + length (kept es)" "unat m \<le> u + length (kept es)"
      using 4 Cons.prems unat_minus_one [of p] by (simp_all add: word_le_nat_alt)
    then show ?thesis
      using 4 Cons.IH [of "p - 1" u] by auto
  qed
qed simp

lemma select_oldest_marks:
  assumes "\<forall>e\<in>set es. ge_remove e \<longrightarrow> \<not> ge_protected_namespace e" and "e \<in> set (select_oldest m es p)" and "ge_remove e"
  shows "\<not> ge_protected_namespace e"
  using assms by (induction es arbitrary: p) (auto split: if_splits)

lemma select_oldest_expired:
  assumes "\<forall>e\<in>set es. \<not> ge_protected_namespace e \<and> expired policy e \<longrightarrow> ge_remove e"
    and "e \<in> set (select_oldest m es p)" and "\<not> ge_protected_namespace e \<and> expired policy e"
  shows "ge_remove e"
  using assms by (induction es arbitrary: p) (auto split: if_splits)

lemma select_oldest_order:
  assumes "oldest_first es" and "\<forall>e\<in>set es. ge_remove e \<longrightarrow> expired policy e"
    and "e \<in> set (select_oldest m es p)" and "ge_remove e" and "\<not> expired policy e"
    and "e' \<in> set (kept (select_oldest m es p))" and "\<not> ge_protected_namespace e'"
  shows "last_used e \<le> last_used e'"
  using assms
proof (induction es arbitrary: p)
  case (Cons x es)
  consider "p \<le> m" | "\<not> p \<le> m" "ge_protected_namespace x \<or> ge_remove x"
    | "\<not> p \<le> m" "\<not> ge_remove x" "\<not> ge_protected_namespace x" by blast
  then show ?case
  proof cases
    case 1
    then show ?thesis using Cons.prems by auto
  next
    case 2
    then show ?thesis
      using Cons.IH [of p] Cons.prems by (auto split: if_splits)
  next
    case 3
    then have e': "e' \<in> set (kept (select_oldest m es (p - 1)))"
      using Cons.prems(6) by simp
    then obtain y where "y \<in> set es" "last_used e' = last_used y"
      using select_oldest_last_used [of e' m es "p - 1"] by (auto simp: kept_def)
    then have "last_used x \<le> last_used e'"
      using Cons.prems(1) by simp
    then show ?thesis
      using 3 e' Cons.IH [of "p - 1"] Cons.prems by auto
  qed
qed simp

subsection \<open>Both rules\<close>

definition marked_expired :: "gc_policy \<Rightarrow> gc_namespace_entry list \<Rightarrow> gc_namespace_entry list" where
  "marked_expired policy es =
     map (\<lambda>e. if \<not> ge_protected_namespace e \<and> expired policy e then e\<lparr>ge_remove := True\<rparr> else e) es"

lemma marked_expired_facts:
  assumes "\<forall>e\<in>set es. \<not> ge_remove e"
  shows "map unmark (marked_expired policy es) = es"
    and "length (kept (marked_expired policy es)) =
      length es - length (filter (\<lambda>e. \<not> ge_protected_namespace e \<and> expired policy e) es)"
    and "\<forall>e\<in>set (marked_expired policy es). ge_remove e \<longleftrightarrow> \<not> ge_protected_namespace e \<and> expired policy e"
proof -
  show "map unmark (marked_expired policy es) = es"
    using assms by (induction es) (auto simp: marked_expired_def)
  show "length (kept (marked_expired policy es)) =
      length es - length (filter (\<lambda>e. \<not> ge_protected_namespace e \<and> expired policy e) es)"
    using assms
  proof (induction es)
    case (Cons e es)
    then show ?case
      using length_filter_le [of "\<lambda>e. \<not> ge_protected_namespace e \<and> expired policy e" es]
      by (auto simp: marked_expired_def Suc_diff_le)
  qed (simp add: marked_expired_def)
  show "\<forall>e\<in>set (marked_expired policy es). ge_remove e \<longleftrightarrow> \<not> ge_protected_namespace e \<and> expired policy e"
    using assms by (auto simp: marked_expired_def expired_def)
qed

lemma gc_select_eq:
  assumes "\<forall>e\<in>set es. \<not> ge_remove e" and "length es < 2 ^ 64"
  shows "\<exists>p. unat p = length (kept (sort_entries (marked_expired policy es))) \<and>
    gc_select policy es = (if gp_max_sessions policy \<noteq> 0 \<and> p > ucast (gp_max_sessions policy)
      then select_oldest (ucast (gp_max_sessions policy)) (sort_entries (marked_expired policy es)) p
      else sort_entries (marked_expired policy es))"
proof -
  let ?n = "length (filter (\<lambda>e. \<not> ge_protected_namespace e \<and> expired policy e) es)"
  let ?selected = "of_nat ?n :: u64" and ?managed = "of_nat (length es) :: u64"
  have step: "(if gp_ttl_seconds policy \<noteq> 0 then select_expired policy es 0 else (0, es)) = (?selected, marked_expired policy es)"
  proof (cases "gp_ttl_seconds policy = 0")
    case True
    then have "\<not> expired policy e" for e
      by (simp add: expired_def)
    then show ?thesis
      using True by (simp add: marked_expired_def)
  next
    case False
    then show ?thesis
      using select_expired_eq [OF False, of es 0] select_expired_count [OF False, of es 0]
      by (simp add: marked_expired_def prod_eq_iff)
  qed
  have le: "?n \<le> length es"
    by (rule length_filter_le)
  have un: "unat ?selected = ?n" "unat ?managed = length es"
    using unat_of_nat_small [OF le_less_trans [OF le assms(2)]] unat_of_nat_small [OF assms(2)] by simp_all
  let ?p = "if ?managed > ?selected then ?managed - ?selected else 0"
  have "unat ?p = length (kept (sort_entries (marked_expired policy es)))"
    using un le by (simp add: sort_entries_kept marked_expired_facts(2) [OF assms(1)] word_less_nat_alt unat_sub word_le_nat_alt)
  moreover have "length (marked_expired policy es) = length es"
    by (simp add: marked_expired_def)
  ultimately show ?thesis
    using step by (intro exI [of _ ?p]) (simp add: gc_select_def Let_def)
qed

lemma gc_select_permutes:
  assumes "\<forall>e\<in>set es. \<not> ge_remove e" and "length es < 2 ^ 64"
  shows "mset (map unmark (gc_select policy es)) = mset es"
proof -
  have "mset (map unmark (sort_entries (marked_expired policy es))) = mset es"
    using marked_expired_facts(1) [OF assms(1)] by (metis mset_map sort_entries_mset)
  then show ?thesis
    using gc_select_eq [OF assms, of policy] select_oldest_unmark by (metis (no_types))
qed

lemma select_oldest_unmark_mem: "e \<in> set (select_oldest m es p) \<Longrightarrow> unmark e \<in> unmark ` set es"
  using select_oldest_unmark [of m es p] by (metis image_eqI set_map)

lemma gc_select_marks:
  assumes "\<forall>e\<in>set es. \<not> ge_remove e" and "e \<in> set (gc_select policy es)"
  shows "unmark e \<in> set es" and "ge_remove e \<Longrightarrow> \<not> ge_protected_namespace e"
proof -
  obtain selected es1 where step: "(if gp_ttl_seconds policy \<noteq> 0 then select_expired policy es 0 else (0, es)) = (selected, es1)"
    by fastforce
  have "es1 = marked_expired policy es"
    using step select_expired_eq [of policy es 0] by (auto simp: marked_expired_def expired_def split: if_splits)
  then have es: "unmark ` set es1 = set es" "\<forall>e\<in>set es1. ge_remove e \<longrightarrow> \<not> ge_protected_namespace e"
    using marked_expired_facts(1,3) [OF assms(1), of policy] by (metis set_map, auto)
  obtain m p c where "gc_select policy es = (if c then select_oldest m (sort_entries es1) p else sort_entries es1)"
    using step by (simp add: gc_select_def Let_def)
  then have "e \<in> set (select_oldest m (sort_entries es1) p) \<or> e \<in> set es1"
    using assms(2) by (auto split: if_splits)
  then show "unmark e \<in> set es" "ge_remove e \<Longrightarrow> \<not> ge_protected_namespace e"
    using es select_oldest_unmark_mem [of e m "sort_entries es1" p] select_oldest_marks [of "sort_entries es1" e m p] by auto
qed

section \<open>What stays in the root\<close>

lemma map_of_frame:
  "n \<noteq> name \<Longrightarrow> map_of (entry_delete name entries) n = map_of entries n"
  "n \<noteq> name \<Longrightarrow> map_of (entry_replace name x entries) n = map_of entries n"
  "n \<noteq> old \<Longrightarrow> n \<noteq> new \<Longrightarrow> map_of (entry_rename old new entries) n = map_of entries n"
  by (induction entries) (auto simp: entry_delete_def entry_replace_def entry_rename_def)

lemma remove_directory_frame:
  "remove_directory ok name root w = (ok', root', w') \<Longrightarrow> n \<noteq> name \<Longrightarrow> map_of root' n = map_of root n"
  by (auto simp: remove_directory_def map_of_frame split: prod.splits if_splits bool.splits option.splits)

lemma remove_gc_namespace_frame:
  "remove_gc_namespace root e files bytes w = (ok, root', files', bytes', w') \<Longrightarrow> n \<noteq> ge_directory_name e \<Longrightarrow>
   map_of root' n = map_of root n"
  by (auto simp: remove_gc_namespace_def map_of_frame remove_directory_frame
      split: prod.splits if_splits bool.splits option.splits)

lemma rename_directory_effect:
  assumes "rename_directory_noreplace has source destination root w = (ok, root', w')"
  shows "root' = (if ok then entry_rename source destination root else root)" and "ok \<Longrightarrow> map_of root destination = None"
  using assms by (auto simp: rename_directory_noreplace_def split: prod.splits if_splits bool.splits)

lemma rename_directory_frame:
  assumes "rename_directory_noreplace has source destination root w = (ok, root', w')" and "n \<noteq> source"
    and "map_of root n = Some d"
  shows "map_of root' n = Some d" and "ok \<Longrightarrow> n \<noteq> destination"
  using rename_directory_effect [OF assms(1)] assms(2,3) map_of_frame(3) [of n source destination root]
  by (cases ok; cases "n = destination"; simp)+

lemma remove_tombstones_frame:
  "remove_tombstones es root result w = (ok, root', result', w') \<Longrightarrow> n \<notin> ge_directory_name ` set es \<Longrightarrow>
   map_of root' n = map_of root n"
proof (induction es root result w rule: remove_tombstones.induct)
  case (2 e es root result w)
  obtain ok1 root1 files bytes w1 where s:
    "remove_gc_namespace root e (gr_removed_files result) (gr_reclaimed_bytes result) w = (ok1, root1, files, bytes, w1)"
    by (metis prod_cases5)
  then show ?case
    using 2 remove_gc_namespace_frame [OF s] by (auto simp: Let_def split: if_splits)
qed simp

lemma remove_selected_frame:
  "remove_selected has pid now es sequence root result w = (rc, sequence', root', result', w') \<Longrightarrow>
   \<forall>e\<in>set es. ge_remove e \<longrightarrow> ge_directory_name e \<noteq> n \<Longrightarrow> map_of root n = Some d \<Longrightarrow> map_of root' n = Some d"
proof (induction es arbitrary: sequence root result w)
  case (Cons e es)
  show ?case
  proof (cases "ge_remove e")
    case False
    then show ?thesis using Cons by simp
  next
    case True
    let ?t = "tombstone_name e pid now (sequence + 1)"
    obtain ok1 root1 w1 where s1: "rename_directory_noreplace has (ge_directory_name e) ?t root w = (ok1, root1, w1)"
      by (metis prod_cases3)
    have keep1: "map_of root1 n = Some d" "ok1 \<Longrightarrow> n \<noteq> ?t"
      using rename_directory_frame [OF s1, of n d] Cons.prems True by auto
    obtain ok2 w2 where s2: "sys_ok w1 = (ok2, w2)" by fastforce
    let ?result = "result\<lparr>gr_removed_sessions := gr_removed_sessions result + 1, gr_retained_sessions :=
      (if gr_retained_sessions result \<noteq> 0 then gr_retained_sessions result - 1 else gr_retained_sessions result)\<rparr>"
    obtain ok3 root3 files bytes w3 where s3: "remove_gc_namespace root1 (e\<lparr>ge_directory_name := ?t\<rparr>)
        (gr_removed_files ?result) (gr_reclaimed_bytes ?result) w2 = (ok3, root3, files, bytes, w3)"
      by (metis prod_cases5)
    have keep3: "ok1 \<Longrightarrow> map_of root3 n = Some d"
      using remove_gc_namespace_frame [OF s3, of n] keep1 by simp
    note ih = Cons.IH [of "sequence + 1" root3 "?result\<lparr>gr_removed_files := files, gr_reclaimed_bytes := bytes\<rparr>" w3]
    show ?thesis
      using Cons.prems(1,2) True s1 s2 s3 keep1(1) keep3 ih
      by (cases ok1; cases ok2; cases ok3) (simp_all add: Let_def)
  qed
qed simp

section \<open>What the scan accepts\<close>

text \<open>A private directory that holds nothing but plain files of one session.\<close>

definition session_files :: "string \<Rightarrow> (string \<times> gc_file) list \<Rightarrow> bool" where
  "session_files stem files \<longleftrightarrow> (\<forall>(name, f)\<in>set files. name \<noteq> ''.'' \<and> name \<noteq> ''..'' \<longrightarrow>
     gf_regular f \<and> gf_nlink f = 1 \<and> parse_session_artifact name = Some stem)"

definition safe_session :: "gc_directory \<Rightarrow> bool" where
  "safe_session d \<longleftrightarrow> private_owned_directory (gd_entry d) \<and> (\<exists>stem. session_files stem (gd_files d))"

lemma parse_session_artifact_stem: "parse_session_artifact name = Some stem \<Longrightarrow> stem \<noteq> []"
  by (auto simp: parse_session_artifact_def Let_def split: if_splits)

definition same_session :: "gc_namespace_entry \<Rightarrow> gc_namespace_entry \<Rightarrow> bool" where
  "same_session e e' \<longleftrightarrow> ge_namespace_id e' = ge_namespace_id e \<and> ge_directory_name e' = ge_directory_name e \<and>
     ge_protected_namespace e' = ge_protected_namespace e \<and> ge_remove e' = ge_remove e"

lemma scan_files_accepts:
  "scan_files budget files e artifacts w = (Inr e', artifacts', w') \<Longrightarrow>
   same_session e e' \<and> (\<exists>stem. session_files stem files \<and> (ge_session_stem e \<noteq> [] \<longrightarrow> stem = ge_session_stem e))"
proof (induction files arbitrary: e artifacts w)
  case Nil
  then show ?case
    by (auto simp: same_session_def session_files_def split: prod.splits if_splits)
next
  case (Cons item files)
  obtain name f where item: "item = (name, f)" by fastforce
  obtain ok1 w1 where s1: "sys_ok w = (ok1, w1)" by fastforce
  obtain ok2 w2 where s2: "sys_ok w1 = (ok2, w2)" by fastforce
  obtain ok3 w3 where s3: "sys_ok w2 = (ok3, w3)" by fastforce
  show ?case
  proof (cases "name = ''.'' \<or> name = ''..''")
    case True
    then have "scan_files budget files e artifacts w1 = (Inr e', artifacts', w')"
      using Cons.prems item s1 by (cases ok1) auto
    from Cons.IH [OF this] show ?thesis
      using True by (auto simp: item session_files_def)
  next
    case False
    then obtain stem where ok: "ok1" "ok2" "ok3" "parse_session_artifact name = Some stem" "gf_regular f" "gf_nlink f = 1"
      "ge_session_stem e = [] \<or> ge_session_stem e = stem"
      using Cons.prems item s1 s2 s3
      by (cases ok1; cases ok2; cases ok3; cases "parse_session_artifact name") (auto split: if_splits)
    define e1 where "e1 = e\<lparr>ge_session_stem := stem, ge_files := ge_files e @ [name],
      ge_last_used_unix_seconds := max (ge_last_used_unix_seconds e) (mtime_seconds (gf_mtime f)),
      ge_allocated_bytes := add_saturating (ge_allocated_bytes e) (allocated_bytes (gf_blocks f))\<rparr>"
    have "scan_files budget files e1 (artifacts + 1) w3 = (Inr e', artifacts', w')"
      using Cons.prems item s1 s2 s3 ok False unfolding e1_def by (auto split: if_splits)
    from Cons.IH [OF this] have "same_session e1 e'" "session_files stem files"
      using parse_session_artifact_stem [OF ok(4)] by (auto simp: e1_def)
    then show ?thesis
      using ok(4-7) by (intro conjI exI [of _ stem]) (auto simp: same_session_def e1_def session_files_def item)
  qed
qed

definition accepted :: "gc_root \<Rightarrow> string \<Rightarrow> string \<Rightarrow> gc_namespace_entry \<Rightarrow> bool" where
  "accepted root name namespace e \<longleftrightarrow> ge_namespace_id e = namespace \<and> ge_directory_name e = name \<and> \<not> ge_remove e \<and>
     (\<exists>d. map_of root name = Some d \<and> safe_session d)"

lemma accepted_protected [simp]: "accepted root name namespace (e\<lparr>ge_protected_namespace := p\<rparr>) \<longleftrightarrow> accepted root name namespace e"
  by (simp add: accepted_def)

lemma scan_gc_namespace_accepts:
  assumes "scan_gc_namespace root name namespace budget artifacts w = (Inr e, artifacts', w')"
  shows "accepted root name namespace e"
  using assms
  by (auto simp: accepted_def scan_gc_namespace_def safe_session_def same_session_def dest!: scan_files_accepts
      split: prod.splits if_splits bool.splits option.splits)

text \<open>What the scan collects.\<close>

definition scan_sound :: "string list \<Rightarrow> gc_root \<Rightarrow> gc_scan \<Rightarrow> bool" where
  "scan_sound protected_namespaces root scan \<longleftrightarrow>
     (\<forall>e\<in>set (gs_sessions scan). ge_directory_name e = ge_namespace_id e \<and> is_lower_hex_32 (ge_namespace_id e) \<and> \<not> ge_remove e \<and>
        (ge_protected_namespace e \<longleftrightarrow> ge_namespace_id e \<in> set protected_namespaces) \<and>
        (\<exists>d. map_of root (ge_directory_name e) = Some d \<and> safe_session d)) \<and>
     (\<forall>e\<in>set (gs_tombstones scan). parse_gc_tombstone (ge_directory_name e) \<noteq> None \<and>
        (\<exists>d. map_of root (ge_directory_name e) = Some d \<and> safe_session d))"

lemma scan_sound_cong:
  "gs_sessions scan' = gs_sessions scan \<Longrightarrow> gs_tombstones scan' = gs_tombstones scan \<Longrightarrow>
   scan_sound ps root scan \<Longrightarrow> scan_sound ps root scan'"
  by (simp only: scan_sound_def)

lemma scan_item_collects:
  assumes "scan_item policy ps root name scan w = (rc, scan', w')"
  shows "gs_sessions scan' = gs_sessions scan \<and> gs_tombstones scan' = gs_tombstones scan \<or>
    (\<exists>e. accepted root name name e \<and> is_lower_hex_32 name \<and> ge_protected_namespace e = (name \<in> set ps) \<and>
       gs_sessions scan' = gs_sessions scan @ [e] \<and> gs_tombstones scan' = gs_tombstones scan) \<or>
    (\<exists>e candidate. accepted root name candidate e \<and> parse_gc_tombstone name \<noteq> None \<and>
       gs_sessions scan' = gs_sessions scan \<and> gs_tombstones scan' = gs_tombstones scan @ [e])"
proof -
  let ?namespace = "case parse_gc_tombstone name of None \<Rightarrow> name | Some candidate \<Rightarrow> candidate"
  obtain r artifacts w1 where s: "scan_gc_namespace root name ?namespace (unat (gp_scan_artifact_budget policy))
      (gs_artifacts scan) w = (r, artifacts, w1)" by (metis prod_cases3)
  obtain ok w2 where s2: "sys_ok w1 = (ok, w2)" by fastforce
  have acc: "r = Inr e \<Longrightarrow> accepted root name ?namespace e" for e
    using s scan_gc_namespace_accepts by blast
  show ?thesis
    using assms s s2 acc
    by (cases "parse_gc_tombstone name"; cases r; cases ok)
      (auto simp: scan_item_def Let_def count_unsafe_def split: if_splits)
qed

lemma scan_item_sound:
  assumes "scan_item policy ps root name scan w = (rc, scan', w')" and "scan_sound ps root scan"
  shows "scan_sound ps root scan'"
  using scan_item_collects [OF assms(1)]
proof (elim disjE exE conjE)
  assume "gs_sessions scan' = gs_sessions scan" "gs_tombstones scan' = gs_tombstones scan"
  then show ?thesis
    using assms(2) by (rule scan_sound_cong)
next
  fix e
  assume "accepted root name name e" "is_lower_hex_32 name" "ge_protected_namespace e = (name \<in> set ps)"
    "gs_sessions scan' = gs_sessions scan @ [e]" "gs_tombstones scan' = gs_tombstones scan"
  then show ?thesis
    using assms(2) unfolding scan_sound_def accepted_def by auto
next
  fix e candidate
  assume "accepted root name candidate e" "parse_gc_tombstone name \<noteq> None"
    "gs_sessions scan' = gs_sessions scan" "gs_tombstones scan' = gs_tombstones scan @ [e]"
  then show ?thesis
    using assms(2) unfolding scan_sound_def accepted_def by auto
qed

lemma scan_root_sound:
  "scan_root policy ps root names scan w = (rc, scan', w') \<Longrightarrow> scan_sound ps root scan \<Longrightarrow> scan_sound ps root scan'"
proof (induction names arbitrary: scan w)
  case (Cons name names)
  obtain ok1 w1 where s1: "sys_ok w = (ok1, w1)" by fastforce
  obtain rc2 scan2 w2 where s2: "scan_item policy ps root name scan w1 = (rc2, scan2, w2)" by (metis prod_cases3)
  show ?case
    using Cons s1 s2 scan_item_sound [OF s2]
    by (cases ok1; cases "name = ''.'' \<or> name = ''..''"; cases "rc2 = AXIOM_OK") auto
qed (auto split: prod.splits)

end
