(* ===== verification/SessionProps.thy ===== *)
theory SessionProps
  imports SessionSave SessionNames Sha256Spec
begin

text \<open>
  Properties of the session store.
\<close>

section \<open>A session for the witnesses\<close>

text \<open>A session of three tokens, two of them committed, with one byte of recurrent state; the store writes manifests of
  version 2, whose digest is the SHA-256 of the development.\<close>

definition demo_store :: session_store where
  "demo_store = snd (set_manifest_version 2 (session_configure ''/kv'' 8 1 0 session_store_new))"

definition demo_key :: session_key where
  "demo_key = \<lparr>sk_session_id = ''s'', sk_model_id = ''m'', sk_target_identity = ''t'', sk_dspark_identity = [],
     sk_config_signature = ''c'', sk_profile = ''p''\<rparr>"

definition demo_manifest :: session_manifest where
  "demo_manifest = \<lparr>sm_generation = 4, sm_committed_tokens = 2, sm_next_token = 9, sm_token_hash = 0,
     sm_session_id = ''s'', sm_namespace_id = namespace_id demo_key, sm_namespace_text = namespace_text demo_key,
     sm_profile = ''p'', sm_token_ids = [5, 6, 7], sm_recurrent_state = [1], sm_speculative_state = []\<rparr>"

definition demo_paths :: session_paths where
  "demo_paths = paths_for ''/kv.sessions'' demo_key 4"

definition demo_digest :: "byte list \<Rightarrow> byte list option" where
  "demo_digest bs = Some (take 32 (sha256_spec bs @ replicate 32 0))"

definition demo_disk :: world where
  "demo_disk = \<lparr>w_names = (\<lambda>_. None), w_files = (\<lambda>_. None), w_next = 0, w_pages = (\<lambda>_. []), w_answers = []\<rparr>"

definition demo_saved :: "axiom_status \<times> u64 \<times> directories \<times> world" where
  "demo_saved = session_save demo_digest 7 demo_store demo_key demo_paths demo_manifest 0 (\<lambda>_. None) demo_disk"

lemma demo_store_value: "demo_store = \<lparr>ss_base_path = ''/kv'', ss_root_path = ''/kv.sessions'', ss_max_context = 8,
    ss_recurrent_state_bytes = 1, ss_speculative_state_bytes = 0, ss_manifest_version = 2\<rparr>"
  by (simp add: demo_store_def set_manifest_version_def session_configure_def session_store_new_def)

lemma session_demo_arguments: "save_arguments demo_store demo_key demo_paths demo_manifest"
  by (simp add: save_arguments_def demo_store_value store_enabled_def demo_manifest_def demo_paths_def paths_for_def
      Let_def demo_key_def)

lemma demo_text: "namespace_text demo_key = ''1:m;1:t;0:;1:c;1:p;1:s;''"
  by code_simp

lemma demo_sel:
  "ss_root_path demo_store = ''/kv.sessions''" "ss_manifest_version demo_store = 2" "sm_generation demo_manifest = 4"
  "sm_token_ids demo_manifest = [5, 6, 7]" "sk_session_id demo_key = ''s''" "sk_model_id demo_key = ''m''"
  "sk_profile demo_key = ''p''" "w_answers demo_disk = []" "w_names demo_disk p = None" "w_files demo_disk fd = None"
  "w_next demo_disk = 0" "valid_session_id ''s''"
  by (simp_all add: demo_store_value demo_manifest_def demo_key_def demo_disk_def) code_simp

lemma demo_paths_eq: "demo_paths = paths_for (ss_root_path demo_store) demo_key (sm_generation demo_manifest)"
  by (simp add: demo_paths_def demo_sel)

lemma demo_digest_length: "\<exists>d. demo_digest x = Some d \<and> length d = 32"
  by (simp add: demo_digest_def)

lemma demo_directories: "directories_ready (\<lambda>_. None) root namespace_dir"
proof -
  have "way_open (\<lambda>_. None) absolute upper cs" for absolute upper cs
    by (induction cs arbitrary: upper) (simp_all add: passable_def)
  then show ?thesis
    by (simp add: directories_ready_def path_open_def absent_or_private_def)
qed

lemma demo_saved_ok: "\<exists>dirs' w'. demo_saved = (AXIOM_OK, 1, dirs', w')"
  using session_save_empty [OF _ _ _ session_demo_arguments demo_paths_eq, of demo_disk "\<lambda>_. None" demo_digest 7 0] demo_digest_length
  by (simp add: demo_saved_def demo_sel demo_text demo_directories kNamespaceTextBytes_def kProfileBytes_def)

section \<open>Saving and loading\<close>

text \<open>C34. What \<open>save\<close> reports as done is what a later \<open>load\<close> returns. Let a save of a manifest succeed under any answers of
  the system, and let the manifest's name and file be unchanged in a later world. Then \<open>load\<close> in that
  world either fails with an I/O or memory error, because a call failed, or returns the saved manifest with
  the hash of its tokens and the paths of its generation; without failing calls it does return it. It never
  returns another manifest and never reports a new session. The texts must be free of zero
  bytes and the states within the sizes that \<open>load\<close> accepts.\<close>

theorem session_save_load:
  assumes "session_save digest pid store key paths m sequence dirs w = (AXIOM_OK, sequence', dirs', w')"
    and "loadable_sizes m" and "CHR 0x00 \<notin> set (namespace_text key)"
    and "w_names v (sp_manifest_path paths) = w_names w' (sp_manifest_path paths)"
    and "\<forall>fd. w_names w' (sp_manifest_path paths) = Some fd \<longrightarrow> w_files v fd = w_files w' fd"
  defines "loaded \<equiv> Inr (Some (m\<lparr>sm_token_hash := token_hash (sm_token_ids m)\<rparr>,
    paths_for (ss_root_path store) key (sm_generation m)))"
  shows "fst (session_load digest store key v) \<in> {Inl AXIOM_ERR_IO, Inl AXIOM_ERR_BUDGET, loaded} \<and>
    (w_answers v = [] \<longrightarrow> session_load digest store key v = (loaded, v))"
proof -
  obtain h sealed w1 where s: "save_arguments store key paths m"
    "fill_manifest_header (ss_manifest_version store) m = Some h"
    "seal_manifest digest h (sm_token_ids m) (sm_recurrent_state m) (sm_speculative_state m) = Some sealed"
    "sp_manifest_path paths = sp_manifest_path (paths_for (ss_root_path store) key (sm_generation m))"
    "store_enabled store" "valid_session_id (sk_session_id key)"
    "publish_manifest (temporary_path (sp_manifest_path paths) pid (sequence + 1)) (sp_manifest_path paths) sealed m w1 =
      (AXIOM_OK, w')"
    using session_save_cases [OF assms(1)] by blast
  have "wf_manifest_header sealed"
    using seal_manifest_wf [OF s(3)] fill_manifest_header_sel(1) [OF s(2)] by blast
  from publish_manifest_effect [OF s(7) this temporary_path_neq]
  have "w_names w' (sp_manifest_path paths) = Some (w_next w1)"
    "w_files w' (w_next w1) = Some (empty_file\<lparr>df_bytes := manifest_content sealed m\<rparr>)"
    using published_manifest by blast+
  then have v: "w_names v (sp_manifest_path paths) = Some (w_next w1)"
    "file_bytes v (w_next w1) = manifest_content sealed (m\<lparr>sm_token_hash := token_hash (sm_token_ids m)\<rparr>)"
    using assms(4,5) by (simp_all add: file_bytes_def manifest_content_def)
  have "sp_manifest_path paths = sp_manifest_path (paths_for (ss_root_path store) key 1)"
    using s(4) by (simp add: paths_for_def Let_def)
  then show ?thesis
    using session_load_sound [OF s(5,6) _ v(2) saved_manifest_sound [OF s(1) assms(2) s(2,3) assms(3)]] v(1)
    by (simp add: loaded_def)
qed

theorem session_save_load_witness:
  "fst demo_saved = AXIOM_OK \<and>
   fst (session_load demo_digest demo_store demo_key (snd (snd (snd demo_saved))\<lparr>w_answers := []\<rparr>)) =
     Inr (Some (demo_manifest\<lparr>sm_token_hash := token_hash [5, 6, 7]\<rparr>, demo_paths))"
proof -
  obtain dirs' w' where saved: "demo_saved = (AXIOM_OK, 1, dirs', w')"
    using demo_saved_ok by blast
  have "loadable_sizes demo_manifest" "CHR 0x00 \<notin> set (namespace_text demo_key)"
    by (simp_all add: loadable_sizes_def demo_manifest_def kMaxRecurrentBytes_def demo_text)
  then show ?thesis
    using session_save_load [OF saved [unfolded demo_saved_def], of "w'\<lparr>w_answers := []\<rparr>"]
    unfolding saved by (simp add: demo_paths_def demo_sel)
qed

text \<open>C35. Publishing is atomic. Whatever the calls answer, and however \<open>save\<close> ends, the manifest's name denotes what it denoted
  before, with that file unchanged, or a new file with the complete sealed manifest; after a success the latter.
  No other name changes but that of the temporary file, and no file that existed before changes. As a run that stops
  at a failing call does nothing more to the manifest, this holds also when the process dies between two calls.\<close>

theorem session_save_atomic:
  assumes "session_save digest pid store key paths m sequence dirs w = (rc, sequence', dirs', w')"
  defines "path \<equiv> sp_manifest_path paths"
  defines "complete \<equiv> \<exists>h sealed. fill_manifest_header (ss_manifest_version store) m = Some h \<and>
    seal_manifest digest h (sm_token_ids m) (sm_recurrent_state m) (sm_speculative_state m) = Some sealed \<and>
    w_names w' path = Some (w_next w) \<and> file_bytes w' (w_next w) = manifest_content sealed m"
  shows "(\<forall>p. p \<noteq> path \<and> p \<noteq> temporary_path path pid (sequence + 1) \<longrightarrow> w_names w' p = w_names w p) \<and>
    (\<forall>fd. fd \<noteq> w_next w \<longrightarrow> w_files w' fd = w_files w fd) \<and>
    (w_names w' path = w_names w path \<or> complete) \<and> (rc = AXIOM_OK \<longrightarrow> complete)"
  using session_save_cases [OF assms(1)]
proof (elim disjE exE conjE)
  assume "quiet w w'" "rc \<noteq> AXIOM_OK"
  then show ?thesis
    by (simp add: quiet_iff)
next
  fix h sealed w1
  assume h: "fill_manifest_header (ss_manifest_version store) m = Some h"
    "seal_manifest digest h (sm_token_ids m) (sm_recurrent_state m) (sm_speculative_state m) = Some sealed"
    and q: "quiet w w1"
    and pub: "publish_manifest (temporary_path (sp_manifest_path paths) pid (sequence + 1)) (sp_manifest_path paths) sealed m w1 =
      (rc, w')"
  have "wf_manifest_header sealed"
    using seal_manifest_wf [OF h(2)] fill_manifest_header_sel(1) [OF h(1)] by blast
  from publish_manifest_effect [OF pub this temporary_path_neq, folded path_def, THEN conjunct2] show ?thesis
  proof (elim disjE conjE)
    assume p: "published (temporary_path path pid (sequence + 1)) path (manifest_content sealed m) w1 w'"
    have complete
      using h published_manifest [OF p] q by (auto simp: complete_def file_bytes_def quiet_iff)
    then show ?thesis
      using published_frame [OF p] q by (simp add: quiet_iff)
  next
    assume u: "unpublished (temporary_path path pid (sequence + 1)) w1 w'" "rc \<noteq> AXIOM_OK"
    then show ?thesis
      using unpublished_frame [OF u(1)] temporary_path_neq [of path, symmetric] q by (simp add: quiet_iff)
  qed
qed

theorem session_save_atomic_witness:
  "w_names (snd (snd (snd demo_saved))) (sp_manifest_path demo_paths) = Some 0"
proof -
  obtain dirs' w' where saved: "demo_saved = (AXIOM_OK, 1, dirs', w')"
    using demo_saved_ok by blast
  show ?thesis
    using session_save_atomic [OF saved [unfolded demo_saved_def]] unfolding saved by (auto simp: demo_sel)
qed

text \<open>C37. \<open>prepare\<close> hands out paths only below directories that are private and its own: after a success the
  root and the namespace directory are directories, no links, owned by the process and closed to group and others.
  It never changes an existing entry and adds only such directories. When no call fails, a valid key gets its paths
  exactly when every entry on the way to the namespace directory is absent, a directory or a link to one, and the root and
  the namespace directory are each absent or private; otherwise it gets an I/O error.\<close>

theorem session_prepare_private:
  "(case session_prepare store key generation dirs w of (r, dirs', w') \<Rightarrow>
     quiet w w' \<and> only_adds dirs dirs' \<and>
     (case r of Inl rc \<Rightarrow> rc \<noteq> AXIOM_OK
      | Inr paths \<Rightarrow> paths = paths_for (ss_root_path store) key generation \<and>
          (\<exists>e. dirs' (path_key (ss_root_path store)) = Some e \<and> private_owned_directory e) \<and>
          (\<exists>e. dirs' (path_key (sp_namespace_dir paths)) = Some e \<and> private_owned_directory e))) \<and>
   (w_answers w = [] \<and> (\<exists>c\<in>set (ss_root_path store). c \<noteq> CHR ''/'') \<and> store_enabled store \<and>
    generation \<noteq> 0 \<and> valid_session_id (sk_session_id key) \<and> sk_model_id key \<noteq> [] \<and> sk_profile key \<noteq> [] \<longrightarrow>
    fst (session_prepare store key generation dirs w) =
      (let paths = paths_for (ss_root_path store) key generation
       in if path_open dirs (sp_namespace_dir paths) \<and> absent_or_private dirs (ss_root_path store) \<and>
            absent_or_private dirs (sp_namespace_dir paths)
          then Inr paths else Inl AXIOM_ERR_IO))"
proof -
  obtain r dirs' w' where prep: "session_prepare store key generation dirs w = (r, dirs', w')" by (metis prod_cases3)
  note eff = session_prepare_effect [OF prep]
  show ?thesis (is "?safe \<and> (?free \<longrightarrow> ?result)")
  proof (intro conjI impI)
    show ?safe
      unfolding prep using eff by (cases r) simp_all
    show ?result if ?free
      using that session_prepare_empty [of w store generation key dirs] unfolding directories_ready_def Let_def
      by (elim conjE) force
  qed
qed

theorem session_prepare_private_witness:
  "fst (session_prepare demo_store demo_key 4 (\<lambda>_. None) demo_disk) = Inr demo_paths"
  using session_prepare_private [where store = demo_store and key = demo_key and generation = 4 and dirs = "\<lambda>_. None"
    and w = demo_disk] session_demo_arguments demo_directories
  by (simp add: demo_sel save_arguments_def demo_paths_def directories_ready_def Let_def)

section \<open>Names\<close>

text \<open>C36. Names say what they are for. The parser of generation files accepts exactly the names of tier files and
  journals that belong to the given session stem and a positive generation, and returns that generation: no other text,
  no leading zero, no number beyond 64 bits. The tier file that \<open>paths_for\<close> names is one of them. Different session keys have
  different texts, so that only the hash can make two sessions share a namespace, and then the text in the manifest
  tells them apart.\<close>

theorem session_names_exact:
  "(parse_generation_filename name stem = Some g \<longleftrightarrow>
      g \<noteq> 0 \<and> list_ex (\<lambda>suffix. name = generation_name stem g suffix) [''.kv'', ''.kv.txn'', ''.kv.txn.tmp'']) \<and>
   sp_tier_path (paths_for root key g) =
     sp_namespace_dir (paths_for root key g) @ ''/'' @ generation_name (sp_session_stem (paths_for root key g)) g ''.kv'' \<and>
   sp_transaction_path (paths_for root key g) =
     sp_namespace_dir (paths_for root key g) @ ''/'' @ generation_name (sp_session_stem (paths_for root key g)) g ''.kv.txn'' \<and>
   (namespace_text key = namespace_text key' \<longleftrightarrow> key = key')"
proof -
  have "parse_generation_filename name stem = Some g \<longleftrightarrow>
      g \<noteq> 0 \<and> (\<exists>suffix\<in>set generation_suffixes. name = generation_name stem g suffix)"
    using parse_generation_name parse_generation_sound by metis
  then show ?thesis
    by (simp add: generation_suffixes_def namespace_text_inj paths_for_def generation_name_def Let_def)
qed

end
