(* ===== verification/SessionGcProps.thy ===== *)
theory SessionGcProps
  imports SessionGcSpec SessionProps
begin

text \<open>
  Properties of the collection of old generations and stale sessions.
\<close>

section \<open>Old generations\<close>

text \<open>The name of a file of a generation before \<open>committed\<close>.\<close>

definition older_generation :: "string \<Rightarrow> u64 \<Rightarrow> string \<Rightarrow> bool" where
  "older_generation stem committed name \<longleftrightarrow>
     (\<exists>d suffix. d \<noteq> 0 \<and> d < committed \<and> suffix \<in> set generation_suffixes \<and> name = generation_name stem d suffix)"

lemma obsolete_iff: "obsolete stem committed e \<longleftrightarrow> gf_regular (snd e) \<and> older_generation stem committed (fst e)"
proof -
  have parse: "parse_generation_filename (fst e) stem = Some d \<longleftrightarrow>
      d \<noteq> 0 \<and> (\<exists>suffix\<in>set generation_suffixes. fst e = generation_name stem d suffix)" for d
    using parse_generation_name parse_generation_sound by metis
  have "obsolete stem committed e \<longleftrightarrow> gf_regular (snd e) \<and> (\<exists>d. parse_generation_filename (fst e) stem = Some d \<and> d < committed)"
    unfolding obsolete_def by (cases "parse_generation_filename (fst e) stem") auto
  then show ?thesis
    unfolding older_generation_def parse by blast
qed

text \<open>C38. Pruning removes from the directory of a session exactly the plain files of older generations. Whatever the calls answer, every
  file that is gone was a regular file named after a generation of this session before the committed one, the count
  is exact, and all other files stay: the manifest, the committed and later generations, other sessions. After a
  success no such file is left, and without failing calls matching paths give a success.\<close>

theorem prune_generations_exact:
  assumes "distinct (map fst files)"
    and "prune_obsolete_generations store key paths files w = (rc, removed, files', w')"
  defines "old \<equiv> \<lambda>e. gf_regular (snd e) \<and> older_generation (sp_session_stem paths) (sp_generation paths) (fst e)"
  shows "(\<exists>names. files' = filter (\<lambda>e. \<not> (fst e \<in> names \<and> old e)) files) \<and> removed = of_nat (length files - length files') \<and>
    (rc = AXIOM_OK \<longrightarrow> files' = filter (\<lambda>e. \<not> old e) files) \<and>
    (w_answers w = [] \<and> store_enabled store \<and> sp_generation paths \<noteq> 0 \<and> valid_session_id (sk_session_id key) \<and>
       paths = paths_for (ss_root_path store) key (sp_generation paths) \<longrightarrow> rc = AXIOM_OK)"
proof -
  let ?stem = "sp_session_stem paths" and ?g = "sp_generation paths"
  let ?valid = "store_enabled store \<and> ?g \<noteq> 0 \<and> valid_session_id (sk_session_id key) \<and>
    paths_for (ss_root_path store) key ?g = paths"
  have old: "old e \<longleftrightarrow> obsolete ?stem ?g e" for e
    by (simp add: old_def obsolete_iff)
  obtain ok1 w1 where s1: "sys_ok w = (ok1, w1)" by fastforce
  obtain ok2 files2 removed2 w2 where s2: "prune_loop ?stem ?g (map fst files) files 0 w1 = (ok2, files2, removed2, w2)"
    by (metis prod_cases4)
  obtain ok3 w3 where s3: "(if ok2 \<and> removed2 \<noteq> 0 then sys_ok w2 else (ok2, w2)) = (ok3, w3)" by fastforce
  have r: "(rc, removed, files', w') = (if \<not> ?valid then (AXIOM_ERR_INVALID_ARGUMENT, 0, files, w)
      else if \<not> ok1 then (AXIOM_ERR_IO, 0, files, w1)
      else (if ok3 then AXIOM_OK else AXIOM_ERR_IO, removed2, files2, w3))"
    using assms(2) s1 s2 s3 by (cases ok1) (auto simp: prune_obsolete_generations_def split: if_splits)
  obtain k where k: "files2 = pruned ?stem ?g (take k (map fst files)) files" "ok2 \<longrightarrow> k = length files"
    "removed2 = of_nat (length files - length files2)"
    using prune_loop_effect [OF assms(1), of ?stem ?g "map fst files" 0 w1] by (auto simp: s2 prune_effect_def)
  have ok3: "ok3 \<longrightarrow> ok2"
    using s3 by (auto split: if_splits)
  have "files' = files \<or> files' = files2"
    using r by (auto split: if_splits)
  moreover have "files = filter (\<lambda>e. \<not> (fst e \<in> {} \<and> old e)) files"
    by simp
  ultimately have some: "\<exists>names. files' = filter (\<lambda>e. \<not> (fst e \<in> names \<and> old e)) files"
    using k(1) unfolding pruned_def old by blast
  have whole: "ok2 \<Longrightarrow> files2 = filter (\<lambda>e. \<not> old e) files"
    using k(1,2) unfolding pruned_def by (auto simp: old intro!: filter_cong)
  have "w_answers w = [] \<Longrightarrow> ok1 \<and> ok3"
    using s1 s2 s3 prune_loop_empty [of w ?stem ?g "map fst files" files 0] sys_ok_empty [of w]
    by (auto split: if_splits)
  then show ?thesis
    using r some whole ok3 k(3) by (auto split: if_splits)
qed

definition demo_file :: gc_file where
  "demo_file = \<lparr>gf_regular = True, gf_nlink = 1, gf_mtime = 50, gf_blocks = 8\<rparr>"

definition demo_files :: "(string \<times> gc_file) list" where
  "demo_files = map (\<lambda>g. (generation_name (sp_session_stem demo_paths) g ''.kv'', demo_file)) [1, 4]"

theorem prune_generations_exact_witness:
  "case prune_obsolete_generations demo_store demo_key demo_paths demo_files demo_disk of (rc, removed, files', w') \<Rightarrow>
     rc = AXIOM_OK \<and> removed = 1 \<and> files' = [(generation_name (sp_session_stem demo_paths) 4 ''.kv'', demo_file)]"
proof -
  let ?stem = "sp_session_stem demo_paths"
  obtain rc removed files' w' where r:
    "prune_obsolete_generations demo_store demo_key demo_paths demo_files demo_disk = (rc, removed, files', w')"
    by (metis prod_cases4)
  have gen: "sp_generation demo_paths = 4"
    by (simp add: demo_paths_def paths_for_def Let_def)
  have parse: "parse_generation_filename (generation_name ?stem g ''.kv'') ?stem = Some g" if "g \<noteq> 0" for g
    using that by (intro parse_generation_name) (simp_all add: generation_suffixes_def)
  have old: "gf_regular (snd e) \<and> older_generation ?stem 4 (fst e) \<longleftrightarrow> obsolete ?stem 4 e" for e
    by (simp add: obsolete_iff)
  have d: "distinct (map fst demo_files)"
    by (simp add: demo_files_def generation_name_def decimal_inj)
  have "rc = AXIOM_OK" "removed = of_nat (length demo_files - length files')"
    "files' = filter (\<lambda>e. \<not> obsolete ?stem 4 e) demo_files"
    using prune_generations_exact [OF d r] session_demo_arguments
    by (simp_all add: gen old demo_sel demo_paths_eq [symmetric] save_arguments_def) (simp add: demo_paths_def demo_sel)+
  then show ?thesis
    using parse [of 1] parse [of 4] unfolding r by (simp add: demo_files_def obsolete_def demo_file_def)
qed

section \<open>Stale sessions\<close>

text \<open>C39. The rules that select sessions for removal. They permute the scanned sessions and mark some. A protected session is
  never marked. Every other session whose age reaches the limit is marked; one that was used after the given time is not
  of that kind. With a limit on their number, at most that many sessions stay, unless all that stay are protected. A session
  that is not too old is marked only under such a limit, only as far as the limit demands, and only
  when no session that stays unprotected was used before it. A time to live of zero and a limit of zero switch the rules off.\<close>

theorem gc_select_rules:
  fixes policy :: gc_policy
  assumes "\<forall>e\<in>set sessions. \<not> ge_remove e" and "length sessions < 2 ^ 64"
  defines "out \<equiv> gc_select policy sessions" and "limit \<equiv> unat (gp_max_sessions policy)"
  shows "mset (map unmark out) = mset sessions \<and>
    (\<forall>e\<in>set out. ge_remove e \<longrightarrow> \<not> ge_protected_namespace e) \<and>
    (\<forall>e\<in>set out. \<not> ge_protected_namespace e \<and> expired policy e \<longrightarrow> ge_remove e) \<and>
    (limit \<noteq> 0 \<longrightarrow> length (kept out) \<le> limit \<or> (\<forall>e\<in>set (kept out). ge_protected_namespace e)) \<and>
    (\<forall>e\<in>set out. ge_remove e \<and> \<not> expired policy e \<longrightarrow> limit \<noteq> 0 \<and> limit \<le> length (kept out) \<and>
      (\<forall>e'\<in>set (kept out). \<not> ge_protected_namespace e' \<longrightarrow> last_used e \<le> last_used e'))"
proof -
  let ?es = "sort_entries (marked_expired policy sessions)" and ?m = "ucast (gp_max_sessions policy) :: u64"
  obtain p where p: "unat p = length (kept ?es)" "out = (if gp_max_sessions policy \<noteq> 0 \<and> p > ?m then select_oldest ?m ?es p else ?es)"
    using gc_select_eq [OF assms(1,2), of policy] unfolding out_def by blast
  have marks: "\<forall>e\<in>set ?es. ge_remove e \<longleftrightarrow> \<not> ge_protected_namespace e \<and> expired policy e"
    using marked_expired_facts(3) [OF assms(1), of policy] by simp
  have m: "unat ?m = limit" "limit = 0 \<longleftrightarrow> gp_max_sessions policy = 0"
    by (simp_all add: limit_def unat_eq_zero)
  have perm: "mset (map unmark out) = mset sessions"
    using gc_select_permutes [OF assms(1,2)] by (simp add: out_def)
  show ?thesis
  proof (cases "gp_max_sessions policy \<noteq> 0 \<and> p > ?m")
    case True
    then have out: "out = select_oldest ?m ?es p"
      using p(2) by simp
    have count: "(length (kept out) \<le> limit \<or> (\<forall>e\<in>set (kept out). ge_protected_namespace e)) \<and>
        (limit \<le> length (kept out) \<or> out = ?es)"
      using select_oldest_count [of p 0 ?es ?m] p(1) by (simp add: out limit_def)
    have "e \<in> set out \<Longrightarrow> ge_remove e \<Longrightarrow> \<not> ge_protected_namespace e" for e
      using select_oldest_marks [of ?es e ?m p] marks unfolding out by blast
    moreover have "e \<in> set out \<Longrightarrow> \<not> ge_protected_namespace e \<and> expired policy e \<Longrightarrow> ge_remove e" for e
      using select_oldest_expired [of ?es policy e ?m p] marks unfolding out by blast
    moreover have "limit \<le> length (kept out)" if "e \<in> set out" "ge_remove e" "\<not> expired policy e" for e
      using count marks that by blast
    moreover have "last_used e \<le> last_used e'" if "e \<in> set out" "ge_remove e" "\<not> expired policy e"
      "e' \<in> set (kept out)" "\<not> ge_protected_namespace e'" for e e'
      using select_oldest_order [OF sort_entries_sorted, of "marked_expired policy sessions" policy e ?m p e'] that marks
      unfolding out by blast
    ultimately show ?thesis
      using True m(2) perm count by blast
  next
    case False
    then show ?thesis
      using p marks m perm by (auto simp: word_less_nat_alt not_less)
  qed
qed

text \<open>Four sessions, the second protected, a time to live of 50 seconds at time 100 and room for two.\<close>

definition demo_session :: "string \<Rightarrow> u64 \<Rightarrow> bool \<Rightarrow> gc_namespace_entry" where
  "demo_session name used protected_flag = \<lparr>ge_namespace_id = name, ge_directory_name = name, ge_session_stem = [], ge_files = [],
     ge_last_used_unix_seconds = used, ge_allocated_bytes = 0, ge_protected_namespace = protected_flag, ge_remove = False\<rparr>"

definition demo_policy :: gc_policy where
  "demo_policy = \<lparr>gp_now_unix_seconds = 100, gp_ttl_seconds = 50, gp_max_sessions = 2, gp_scan_namespace_budget = 16,
     gp_scan_artifact_budget = 16, gp_protected_namespace_ids = [replicate 32 CHR ''a'']\<rparr>"

definition demo_sessions :: "gc_namespace_entry list" where
  "demo_sessions = [demo_session ''d'' 90 False, demo_session ''a'' 10 True, demo_session ''b'' 20 False, demo_session ''c'' 80 False]"

theorem gc_select_rules_witness:
  "map (\<lambda>e. (ge_namespace_id e, ge_remove e)) (gc_select demo_policy demo_sessions) =
     [(''a'', False), (''b'', True), (''c'', True), (''d'', False)] \<and>
   mset (map unmark (gc_select demo_policy demo_sessions)) = mset demo_sessions"
proof -
  have "\<forall>e\<in>set demo_sessions. \<not> ge_remove e" "length demo_sessions < 2 ^ 64"
    by (simp_all add: demo_sessions_def demo_session_def)
  note rules = gc_select_rules [OF this, of demo_policy]
  moreover have "map (\<lambda>e. (ge_namespace_id e, ge_remove e)) (gc_select demo_policy demo_sessions) =
      [(''a'', False), (''b'', True), (''c'', True), (''d'', False)]"
    by code_simp
  ultimately show ?thesis
    by blast
qed

definition empty_scan :: gc_scan where
  "empty_scan = \<lparr>gs_result = empty_result, gs_sessions = [], gs_tombstones = [], gs_artifacts = 0\<rparr>"

lemma prune_stale_sessions_cases:
  assumes "prune_stale_sessions store has_renameat2 pid policy root_entry sequence root w = (rc, sequence', root', result, w')"
  shows "root' = root \<or> (\<exists>v v' scan ok root1 result1 v''.
    scan_root policy (filter is_lower_hex_32 (gp_protected_namespace_ids policy)) root (map fst root) empty_scan v =
      (AXIOM_OK, scan, v') \<and>
    remove_tombstones (gs_tombstones scan) root (gs_result scan) v' = (ok, root1, result1, v'') \<and>
    (if ok then remove_selected has_renameat2 pid (gp_now_unix_seconds policy) (gc_select policy (gs_sessions scan))
      sequence root1 (result1\<lparr>gr_retained_sessions := gr_scanned_sessions result1\<rparr>) v'' = (rc, sequence', root', result, w')
      else root' = root1))"
proof -
  obtain ok1 w1 where s1: "sys_ok w = (ok1, w1)" by fastforce
  obtain ok2 w2 where s2: "sys_ok w1 = (ok2, w2)" by fastforce
  obtain ok3 w3 where s3: "sys_ok w2 = (ok3, w3)" by fastforce
  obtain ok4 w4 where s4: "sys_ok w3 = (ok4, w4)" by fastforce
  obtain ok5 w5 where s5: "sys_ok w4 = (ok5, w5)" by fastforce
  obtain rc6 scan w6 where s6: "scan_root policy (filter is_lower_hex_32 (gp_protected_namespace_ids policy)) root (map fst root)
      empty_scan w5 = (rc6, scan, w6)" by (metis prod_cases3)
  obtain ok7 root7 result7 w7 where s7: "remove_tombstones (gs_tombstones scan) root (gs_result scan) w6 = (ok7, root7, result7, w7)"
    by (metis prod_cases4)
  show ?thesis
  proof (cases "ok1 \<and> ok2 \<and> ok3 \<and> ok4 \<and> ok5 \<and> rc6 = AXIOM_OK \<and> root' \<noteq> root")
    case True
    then have "if ok7 then remove_selected has_renameat2 pid (gp_now_unix_seconds policy) (gc_select policy (gs_sessions scan))
        sequence root7 (result7\<lparr>gr_retained_sessions := gr_scanned_sessions result7\<rparr>) w7 = (rc, sequence', root', result, w')
        else root' = root7"
      using assms s1 s2 s3 s4 s5 s6 s7
      by (cases ok7) (auto simp: prune_stale_sessions_def empty_scan_def split: if_splits option.splits)
    then show ?thesis
      using s6 s7 True by blast
  next
    case False
    then have "root' = root"
      using assms s1 s2 s3 s4 s5 s6
      by (cases ok1; cases ok2; cases ok3; cases ok4; cases ok5)
        (auto simp: prune_stale_sessions_def empty_scan_def split: if_splits option.splits)
    then show ?thesis ..
  qed
qed

lemma tombstone_not_hex: "parse_gc_tombstone name \<noteq> None \<Longrightarrow> \<not> is_lower_hex_32 name"
  by (auto simp: parse_gc_tombstone_def is_lower_hex_32_def)

text \<open>C40. The collection of stale sessions leaves alone what it must not touch, whatever the calls answer and at whatever point it
  stops: the directory of every protected namespace, every directory that is not private or that holds anything but
  plain files of one session, and every entry whose name is neither a namespace nor a tombstone. Each is in the
  root afterwards under its name with the same content.\<close>

theorem stale_sessions_safe:
  assumes "prune_stale_sessions store has_renameat2 pid policy root_entry sequence root w = (rc, sequence', root', result, w')"
    and "map_of root name = Some d"
    and "is_lower_hex_32 name \<and> name \<in> set (gp_protected_namespace_ids policy) \<or> \<not> safe_session d \<or>
      \<not> is_lower_hex_32 name \<and> parse_gc_tombstone name = None"
  shows "map_of root' name = Some d"
proof -
  let ?ps = "filter is_lower_hex_32 (gp_protected_namespace_ids policy)"
  from prune_stale_sessions_cases [OF assms(1)] show ?thesis
  proof (elim disjE exE conjE)
    fix scan v v' ok root1 result1 v''
    assume scan: "scan_root policy ?ps root (map fst root) empty_scan v = (AXIOM_OK, scan, v')"
      and tombs: "remove_tombstones (gs_tombstones scan) root (gs_result scan) v' = (ok, root1, result1, v'')"
      and sel: "if ok then remove_selected has_renameat2 pid (gp_now_unix_seconds policy) (gc_select policy (gs_sessions scan))
        sequence root1 (result1\<lparr>gr_retained_sessions := gr_scanned_sessions result1\<rparr>) v'' = (rc, sequence', root', result, w')
        else root' = root1"
    have "scan_sound ?ps root empty_scan"
      by (simp add: scan_sound_def empty_scan_def)
    then have sound: "scan_sound ?ps root scan"
      by (rule scan_root_sound [OF scan])
    have "name \<notin> ge_directory_name ` set (gs_tombstones scan)"
      using sound assms(2,3) tombstone_not_hex by (fastforce simp: scan_sound_def)
    then have keep1: "map_of root1 name = Some d"
      using remove_tombstones_frame [OF tombs] assms(2) by simp
    have "ge_directory_name e \<noteq> name" if e: "e \<in> set (gc_select policy (gs_sessions scan))" "ge_remove e" for e
    proof -
      have x: "unmark e \<in> set (gs_sessions scan)" "\<not> ge_protected_namespace e"
        using gc_select_marks [OF _ e(1)] e(2) sound by (auto simp: scan_sound_def)
      then have "is_lower_hex_32 (ge_directory_name e)" "ge_directory_name e \<notin> set (gp_protected_namespace_ids policy)"
        "\<exists>d. map_of root (ge_directory_name e) = Some d \<and> safe_session d"
        using sound by (auto simp: scan_sound_def)
      then show ?thesis
        using assms(2,3) by auto
    qed
    then show ?thesis
      using remove_selected_frame keep1 sel by (cases ok) auto
  qed (use assms(2) in simp)
qed

text \<open>A root with one session, last used at time 50 and protected.\<close>

definition demo_root :: gc_root where
  "demo_root = [(replicate 32 CHR ''a'', \<lparr>gd_entry = new_directory, gd_mtime = 50, gd_blocks = 8, gd_files = []\<rparr>)]"

theorem stale_sessions_safe_witness:
  "map_of (fst (snd (snd (prune_stale_sessions demo_store True 7 demo_policy (Some new_directory) 0 demo_root demo_disk))))
     (replicate 32 CHR ''a'') = Some (snd (hd demo_root))"
proof -
  obtain rc sequence' root' result w' where r:
    "prune_stale_sessions demo_store True 7 demo_policy (Some new_directory) 0 demo_root demo_disk =
      (rc, sequence', root', result, w')"
    by (metis prod_cases5)
  have "map_of demo_root (replicate 32 CHR ''a'') = Some (snd (hd demo_root))"
    by (simp add: demo_root_def)
  moreover have "is_lower_hex_32 (replicate 32 CHR ''a'')" "replicate 32 CHR ''a'' \<in> set (gp_protected_namespace_ids demo_policy)"
    by (simp_all add: is_lower_hex_32_def is_digit_def demo_policy_def list_all_iff)
  ultimately have "map_of root' (replicate 32 CHR ''a'') = Some (snd (hd demo_root))"
    using stale_sessions_safe [OF r] by blast
  then show ?thesis
    by (simp add: r)
qed

end
