(* ===== verification/Spec2Isabelle.thy ===== *)
theory Spec2Isabelle
  imports SwarmProps Sha256Props KvTierProps RequestProps SessionGcProps
begin

text \<open>
  Verification of the host side of the axiom-kernel runtime.

  The program serves a language model on a GPU. Around the device code stand host components that keep
  state for many requests: a scheduler for agents and their tasks, a file that holds the attention cache
  (the KV tier) with a journal for appends, a store of sessions that names tier files and
  records which tokens they hold, digests that identify model files, and small policies of the request
  path. These components are translated from their sources and verified here. A session is continued by loading its
  manifest, opening the tier file that the manifest names, and, after a crash in the middle of an append, recovering the
  tier from the journal against the watermark of the manifest.

  \<^bold>\<open>Conventions.\<close> Structs are records, enumerations are datatypes, integers are words of the width the C++ code has
  (\<open>u32\<close>, \<open>u64\<close>, \<open>byte\<close> in \<open>Bytes\<close>), buffers are byte lists, status codes are \<open>axiom_status\<close> (\<open>Prelude\<close>). A method
  is a function from its arguments and the state to its result and the new state. Every modelled class holds its mutex for
  the body of a method, so that one call is one step. \<open>Prelude\<close> also has the interfaces: \<open>ordered_map\<close>
  (\<open>std::map\<close>), \<open>linked_walk\<close> (loops over parent links), \<open>invariant_system\<close> and \<open>monotone_system\<close> (invariants and
  monotone relations along runs of a step relation); \<open>stream_digest\<close> is in \<open>Sha256Spec\<close>. Each is interpreted
  on the definitions of the component that provides it.

  \<^bold>\<open>Swarm scheduler\<close> (\<open>src/axiom_qwen38_swarm_scheduler.cpp\<close>, \<open>include/axiom/qwen38_swarm_scheduler.hpp\<close>).
  \<^item> \<open>SwarmTypes\<close>: the structs of the header; \<open>swarm_impl\<close> is the private state.
  \<^item> \<open>SwarmCore\<close>: the private methods (\<open>emit\<close>, \<open>recompute_wave\<close>, \<open>finish_attempt\<close>,
    \<open>cancel_task_locked\<close>, \<open>expire_running\<close>, the parent walks and others); \<open>SwarmApi\<close>: the public methods and
    \<open>swarm_step\<close>, the relation of the calls that change state.
  \<^item> \<open>SwarmFrame\<close>, \<open>SwarmInv\<close>, \<open>SwarmReach\<close>: the accounting invariant and that each call keeps it.
    \<open>SwarmMono\<close>: histories of single tasks. \<open>SwarmTree\<close>: the forest of waves and tasks. \<open>SwarmWaves\<close>: wave states equal
    a function of their tasks. \<open>SwarmEvents\<close>: the event history. \<open>SwarmChoice\<close>: the loops that select agent and task.
  \<^item> \<open>SwarmProps\<close>: the properties (accounting, wave states, settled cancellations, task histories, the choice of
    \<open>admit_next\<close> and that it never withholds a possible lease, deadlines and how they end an attempt, cancellation of a
    tree, the effects of \<open>submit\<close> and \<open>complete_task\<close>, the retry delay).
  Times are integers in nanoseconds given by the caller, as in the interface of the class. A time plus a delay beyond
  64 bits has no defined value in C++; the model gives it one, and no conclusion about the program rests on it.
  Identifiers, sequence numbers and counters are natural numbers: the 64-bit counters of the code are taken not to wrap.

  \<^bold>\<open>SHA-256\<close> (\<open>src/axiom_sha256.cpp\<close>, \<open>include/axiom/sha256.hpp\<close>, and \<open>Sha256Engine\<close> in
  \<open>src/qwen4exp/expert_pager.cpp\<close>). \<open>Sha256\<close> has the class and the hexadecimal texts, \<open>Sha256Engine\<close> the second
  implementation, \<open>Sha256File\<close> the hashing of a file; \<open>Sha256Spec\<close> the padding and iteration of the standard and
  the interface; \<open>Sha256Fips\<close> the standard's constants (fractional parts of roots of primes), schedule and rounds;
  \<open>Sha256Props\<close> the properties: both implementations compute the standard's digest for every way to cut the input, file
  hashing is exact or fails, texts round-trip, errors close the context.

  \<^bold>\<open>KV tier\<close> (\<open>src/axiom_qwen38_kv_tier.cpp\<close>, \<open>include/axiom/qwen38_kv_tier.h\<close>).
  \<^item> \<open>KvPosix\<close>: the world of names, files and host pages, and the system calls on it. The outcome of each call comes
    from a stream of answers (done, a short transfer, \<open>EINTR\<close>, failed); the empty stream stands for a system without
    faults. Theorems about all worlds therefore cover all faults. The loops that repeat a call terminate because each
    repetition uses an answer up or transfers a byte.
  \<^item> \<open>KvFormat\<close>: plan arithmetic, page offsets, byte images of the headers. \<open>KvTier\<close>: create, submit, wait, commit,
    reset; \<open>io_uring_enter\<close>, the ring it shares and what has completed when a wait looks at the ring are parameters. \<open>KvTx\<close>: the journal, begin, rollback, recover,
    discard.
  \<^item> \<open>KvLayout\<close>, \<open>KvIo\<close>, \<open>KvImage\<close>, \<open>KvRecords\<close>, \<open>KvTxSpec\<close>, \<open>KvRecover\<close>, \<open>KvFaultFree\<close>, \<open>KvTierInv\<close>: the lemmas,
    from the layout of a file up to runs of a tier.
    \<open>kv_step\<close> is the relation of the calls on an open tier: submit, wait, commit, reset, begin and rollback.
  \<^item> \<open>KvProps\<close>, \<open>KvTierProps\<close>: recovery after a crash and rollback of an open transaction restore the committed tokens;
    recovery fails closed otherwise, and does return; page transfers; what commit and reset report is what a later
    create finds; accounting in every run; the watermark falls within a generation only by a rollback; layout, plan, header images; and
    the entry that a failed submission leaves in the ring.

  \<^bold>\<open>Session store\<close> (\<open>src/axiom_qwen38_session_store.cpp\<close>, \<open>include/axiom/qwen38_session_store.hpp\<close>).
  \<^item> \<open>SessionFormat\<close>: hashes, the text that identifies a session, paths, file names and their parsers, the byte image
    of a manifest with its two checksums, the prompt that continues a session.
  \<^item> \<open>SessionStore\<close>: the store object (\<open>session_store\<close>), \<open>prepare\<close> on directories with owner and mode, \<open>load\<close>, and \<open>save\<close> through
    a temporary file, on the world of \<open>KvPosix\<close>. The digest of version 2 manifests is that of the OpenSSL library and a
    parameter; the process number and the counter of temporary files are arguments.
  \<^item> \<open>SessionGc\<close>: \<open>prune_obsolete_generations\<close> and \<open>prune_stale_sessions\<close> on directories given as lists of entries.
  \<^item> \<open>SessionNames\<close>, \<open>SessionSpec\<close>, \<open>SessionSave\<close>, \<open>SessionGcSpec\<close>: the lemmas on names, on published and loaded files, on
    prepared directories and whole saves, and on the two collections.
  \<^item> \<open>SessionProps\<close>, \<open>SessionGcProps\<close>: a saved manifest is what \<open>load\<close> returns, saving is atomic, prepared directories are
    private and exactly when \<open>prepare\<close> succeeds without failing calls, names are exact; pruning removes exactly the older generations, the selection follows the age and
    number rules, and protected, unsafe or unknown directories are never touched.

  \<^bold>\<open>Request path\<close>. \<open>RequestProgress\<close> (\<open>include/axiom/qwen38_request_progress.hpp\<close>), \<open>PrefixReuse\<close>
  (\<open>include/axiom/qwen38_prefix_reuse.hpp\<close> with the decoder as a parameter, and \<open>resident_suffix_begin\<close> of
  \<open>include/axiom/qwen38_mixed_kv.hpp\<close>), \<open>HostPolicies\<close> (\<open>include/axiom/vision_memory_budget.hpp\<close>,
  \<open>include/axiom/reasoning_profiles.h\<close>), with their properties in \<open>RequestProps\<close>.

  \<^bold>\<open>Bounds and fuel.\<close> No definition has fuel. Loops that the code leaves only under a condition are functions with a
  termination proof or partial functions, for which termination is a theorem (\<open>engine_agrees\<close>,
  \<open>equivalent_prefix_exact\<close>, \<open>wave_descendant_transitive\<close>).

  \<^bold>\<open>Not modelled.\<close>
  \<^item> Device code (all \<open>.cu\<close> and \<open>.cuh\<close> files, FlashInfer) and the host inference and loaders of
    \<open>src/axiom_runtime.cpp\<close>: reduced-precision floating point and device memory.
  \<^item> The drivers of speculative decoding and the weight banks: each step is a launch of device code.
  \<^item> The HTTP service, JSON and tools: input and output around the components here.
  \<^item> Image resampling and video decoding; the expert cache, the bridge and the admission of model files.
  \<^item> Mutexes and threads, apart from the fact that a call is one step; file permissions beyond what the code checks;
    the order in which unsynchronised blocks reach a device, beyond any content on the pages an append may touch.
  \<^item> Directories are found by the components of a path as written: \<open>.\<close>, \<open>..\<close> and the targets of links are not resolved.
  \<^item> The transfers of the ring between host pages and the file: the kernel does them, and its completions are a parameter.
  \<^item> Texts of error messages of the KV tier and the session store.
\<close>

end
